(* ===== verification/Prelude.thy ===== *)
theory Prelude
  imports Complex_Main
begin

text \<open>
  The library the components share: the collections their proofs draw on and a few
  generic facts about lists, maps and options.

  \<^item> \<open>dec_simps\<close> collects the equations of the decimal arithmetic (theory
    \<open>Decimals\<close>);
  \<^item> \<open>sm_defs\<close> collects the definitions of the state machines;
  \<^item> \<open>oms_defs\<close> collects the bookkeeping of the order manager.

  Python's times are modelled as integers: a \<open>datetime\<close> is the number of microseconds
  since an epoch, so differences and comparisons are exact. Identifiers and vocabulary
  that the code keeps as \<open>str\<close> are HOL strings.
\<close>

named_theorems dec_simps "decimal arithmetic"
named_theorems sm_defs "definitions of the state machines"
named_theorems oms_defs "bookkeeping of the order manager"

type_synonym time = int

text \<open>Microseconds in a second: \<open>timedelta(seconds=n)\<close> is \<open>secs n\<close>.\<close>

definition secs :: "int \<Rightarrow> time" where
  "secs n = n * 1000000"

lemma secs_mono [simp]: "secs a \<le> secs b \<longleftrightarrow> a \<le> b"
  by (simp add: secs_def)

lemma secs_nonneg [simp]: "0 \<le> secs a \<longleftrightarrow> 0 \<le> a"
  by (simp add: secs_def)

section \<open>Options\<close>

text \<open>A Python truth test of a \<open>str | None\<close> value: None and the empty string are false.\<close>

definition truthy :: "string option \<Rightarrow> bool" where
  "truthy s = (case s of None \<Rightarrow> False | Some t \<Rightarrow> t \<noteq> [])"

lemma truthy_simps [simp]:
  "\<not> truthy None"
  "truthy (Some t) \<longleftrightarrow> t \<noteq> []"
  by (simp_all add: truthy_def)

text \<open>\<open>a or b\<close> on such values.\<close>

definition str_or :: "string option \<Rightarrow> string option \<Rightarrow> string option" where
  "str_or a b = (if truthy a then a else b)"

section \<open>Results: a value or an exception\<close>

definition bindE :: "'e + 'a \<Rightarrow> ('a \<Rightarrow> 'e + 'b) \<Rightarrow> 'e + 'b" where
  "bindE m k = (case m of Inl e \<Rightarrow> Inl e | Inr x \<Rightarrow> k x)"

definition assertE :: "bool \<Rightarrow> 'e \<Rightarrow> 'e + unit" where \<comment> \<open>\<open>if not c: raise e\<close>\<close>
  "assertE c e = (if c then Inr () else Inl e)"

lemma bindE_simps [simp]:
  "bindE (Inl e) k = Inl e"
  "bindE (Inr x) k = k x"
  by (simp_all add: bindE_def)

lemma bindE_Inr: "bindE m k = Inr y \<longleftrightarrow> (\<exists>x. m = Inr x \<and> k x = Inr y)"
  by (simp add: bindE_def split: sum.splits)

lemma bindE_Inl: "bindE m k = Inl e \<longleftrightarrow> m = Inl e \<or> (\<exists>x. m = Inr x \<and> k x = Inl e)"
  by (simp add: bindE_def split: sum.splits)

lemma assertE_simps [simp]:
  "assertE c e = Inr u \<longleftrightarrow> c"
  "assertE c e = Inl e' \<longleftrightarrow> \<not> c \<and> e' = e"
  by (auto simp: assertE_def)

lemma assertE_if [simp]: "c \<Longrightarrow> assertE c e = Inr ()" "\<not> c \<Longrightarrow> assertE c e = Inl e"
  by (simp_all add: assertE_def)

lemma case_sum_eq:
  "(case b of Inl x \<Rightarrow> f x | Inr y \<Rightarrow> g y) = z
   \<longleftrightarrow> (\<exists>x. b = Inl x \<and> f x = z) \<or> (\<exists>y. b = Inr y \<and> g y = z)"
  by (cases b) auto

text \<open>An optional argument is converted only when it is given.\<close>

definition optE :: "('a \<Rightarrow> 'e + 'b) \<Rightarrow> 'a option \<Rightarrow> 'e + 'b option" where
  "optE f x = (case x of None \<Rightarrow> Inr None | Some a \<Rightarrow> bindE (f a) (\<lambda>b. Inr (Some b)))"

lemma optE_simps [simp]:
  "optE f None = Inr None"
  "optE f (Some a) = bindE (f a) (\<lambda>b. Inr (Some b))"
  by (simp_all add: optE_def)

section \<open>Strings\<close>

text \<open>
  \<open>str.lower\<close>, \<open>str.upper\<close> and \<open>str.strip\<close>. A HOL character has a code below 256, so the
  strings of the model are the Latin-1 strings. On them the functions are Python's, with one
  exception: the capitals of the micro sign and of y with diaeresis are not Latin-1 characters
  and are left as they are. The capital of sharp s is \<open>''SS''\<close>.
\<close>

definition lower_char :: "char \<Rightarrow> char" where
  "lower_char c = (let n = of_char c :: nat in
     if (65 \<le> n \<and> n \<le> 90) \<or> (192 \<le> n \<and> n \<le> 222 \<and> n \<noteq> 215) then char_of (n + 32) else c)"

definition str_lower :: "string \<Rightarrow> string" where
  "str_lower s = map lower_char s"

definition upper_char :: "char \<Rightarrow> string" where
  "upper_char c = (let n = of_char c :: nat in
     if (97 \<le> n \<and> n \<le> 122) \<or> (224 \<le> n \<and> n \<le> 254 \<and> n \<noteq> 247) then [char_of (n - 32)]
     else if n = 223 then ''SS'' else [c])"

definition str_upper :: "string \<Rightarrow> string" where
  "str_upper s = concat (map upper_char s)"

definition is_space :: "char \<Rightarrow> bool" where
  "is_space c = (let n = of_char c :: nat in
     (9 \<le> n \<and> n \<le> 13) \<or> (28 \<le> n \<and> n \<le> 32) \<or> n = 133 \<or> n = 160)"

definition str_strip :: "string \<Rightarrow> string" where
  "str_strip s = rev (dropWhile is_space (rev (dropWhile is_space s)))"

section \<open>Lists\<close>

lemma foldl_invariant:
  assumes "P a" and "\<And>a x. x \<in> set xs \<Longrightarrow> P a \<Longrightarrow> P (f a x)"
  shows "P (foldl f a xs)"
  using assms by (induction xs arbitrary: a) auto

lemma find_Some_mem: "find P xs = Some x \<Longrightarrow> x \<in> set xs \<and> P x"
  by (induction xs) (auto split: if_splits)

lemma find_None_iff': "find P xs = None \<longleftrightarrow> (\<forall>x \<in> set xs. \<not> P x)"
  by (induction xs) auto

section \<open>Maps\<close>

lemma map_upd_in_dom [simp]: "(m(k \<mapsto> v)) k' = Some w \<longleftrightarrow> (if k' = k then w = v else m k' = Some w)"
  by auto

end
