(* ===== verification/Decimals.thy ===== *)
theory Decimals
  imports Prelude
begin

text \<open>
  Python's \<open>decimal.Decimal\<close> under the default context: 28 significant digits,
  round-half-even. A finite Decimal is modelled by its value, a rational number; every
  arithmetic operation computes the exact result and rounds it once (\<open>rnd\<close>), as the
  specification of the standard library does. Comparisons, \<open>min\<close>, \<open>max\<close> and
  \<open>to_integral_value\<close> do not round. \<open>quantize\<close> rounds to a number of places and raises
  \<open>InvalidOperation\<close> when the result needs more than 28 digits, which is the value
  None here. The exponent limits of the context (plus and minus 999999) are out of reach of
  every caller and are not modelled; nor is the sign of zero.

  NaN and the infinities appear only where the code tests for them: the type
  \<open>num\<close> is a Decimal as it arrives, before \<open>is_finite\<close> has been asked.
\<close>

section \<open>Rounding to an integer\<close>

definition rhe :: "rat \<Rightarrow> int" where \<comment> \<open>ROUND_HALF_EVEN\<close>
  "rhe x = (let f = \<lfloor>x\<rfloor>; d = x - of_int f in
     if d < 1/2 then f else if d > 1/2 then f + 1 else if even f then f else f + 1)"

definition rdown :: "rat \<Rightarrow> int" where \<comment> \<open>ROUND_DOWN: towards zero\<close>
  "rdown x = (if 0 \<le> x then \<lfloor>x\<rfloor> else \<lceil>x\<rceil>)"

definition rup :: "rat \<Rightarrow> int" where \<comment> \<open>ROUND_UP: away from zero\<close>
  "rup x = (if 0 \<le> x then \<lceil>x\<rceil> else \<lfloor>x\<rfloor>)"

lemma rhe_of_int [simp]: "rhe (of_int n) = n"
  by (simp add: rhe_def Let_def)

lemma rhe_0 [simp]: "rhe 0 = 0"
  using rhe_of_int [of 0] by simp

lemma rhe_bounds: "\<lfloor>x\<rfloor> \<le> rhe x \<and> rhe x \<le> \<lfloor>x\<rfloor> + 1"
  by (simp add: rhe_def Let_def)

lemma rhe_mono: "x \<le> y \<Longrightarrow> rhe x \<le> rhe y"
proof (cases "\<lfloor>x\<rfloor> = \<lfloor>y\<rfloor>")
  case True
  assume "x \<le> y"
  with True show ?thesis by (simp add: rhe_def Let_def)
next
  case False
  assume "x \<le> y"
  with False have "\<lfloor>x\<rfloor> + 1 \<le> \<lfloor>y\<rfloor>" using floor_mono [of x y] by linarith
  then show ?thesis using rhe_bounds [of x] rhe_bounds [of y] by linarith
qed

lemma rhe_error: "\<bar>of_int (rhe x) - x\<bar> \<le> 1/2"
proof -
  have "of_int \<lfloor>x\<rfloor> \<le> x" "x < of_int \<lfloor>x\<rfloor> + 1" by linarith+
  then show ?thesis by (auto simp: rhe_def Let_def abs_le_iff)
qed

lemma rhe_minus: "rhe (- x) = - rhe x"
proof (cases "x = of_int \<lfloor>x\<rfloor>")
  case True
  then show ?thesis by (metis of_int_minus rhe_of_int)
next
  case False
  have f: "\<lfloor>- x\<rfloor> = - \<lfloor>x\<rfloor> - 1"
    using False by (intro floor_unique) (auto, linarith+)
  show ?thesis
    unfolding rhe_def Let_def f by (auto simp: algebra_simps)
qed

lemma rdown_nonneg: "0 \<le> x \<Longrightarrow> rdown x = \<lfloor>x\<rfloor>"
  by (simp add: rdown_def)

lemma rdown_le: "0 \<le> x \<Longrightarrow> of_int (rdown x) \<le> x"
  by (simp add: rdown_def)

lemma rdown_gt: "0 \<le> x \<Longrightarrow> x - 1 < of_int (rdown x)"
  unfolding rdown_def using floor_correct [of x] by auto

lemma rup_ge: "0 \<le> x \<Longrightarrow> x \<le> of_int (rup x)"
  by (simp add: rup_def)

lemma rup_lt: "0 \<le> x \<Longrightarrow> of_int (rup x) < x + 1"
  by (simp add: rup_def) linarith

lemma rdown_of_int [simp]: "rdown (of_int n) = n"
  by (simp add: rdown_def)

lemma rup_of_int [simp]: "rup (of_int n) = n"
  by (simp add: rup_def)

section \<open>Magnitude: the exponent of the leading digit\<close>

function ndig :: "int \<Rightarrow> nat" where \<comment> \<open>decimal digits of a positive integer\<close>
  "ndig n = (if n < 10 then 1 else Suc (ndig (n div 10)))"
  by pat_completeness auto
termination by (relation "measure nat") auto

declare ndig.simps [simp del]

lemma ndig_pos: "0 < ndig n"
  by (subst ndig.simps) simp

lemma ndig_bounds: "1 \<le> n \<Longrightarrow> 10 ^ (ndig n - 1) \<le> n \<and> n < 10 ^ ndig n"
proof (induction n rule: ndig.induct)
  case (1 n)
  show ?case
  proof (cases "n < 10")
    case True
    with 1 show ?thesis by (simp add: ndig.simps [of n])
  next
    case False
    let ?m = "n div 10"
    have m: "1 \<le> ?m" using False by linarith
    have ih: "10 ^ (ndig ?m - 1) \<le> ?m" "?m < 10 ^ ndig ?m"
      using "1.IH" [OF False m] by auto
    have e: "ndig n = Suc (ndig ?m)" using False by (simp add: ndig.simps [of n])
    have p: "(10::int) ^ ndig ?m = 10 * 10 ^ (ndig ?m - 1)"
      using ndig_pos [of ?m] by (cases "ndig ?m") auto
    have "10 ^ ndig ?m \<le> 10 * ?m" using ih(1) p by linarith
    moreover have "10 * ?m \<le> n" "n < 10 * ?m + 10" by linarith+
    moreover have "10 * ?m + 10 \<le> 10 * 10 ^ ndig ?m" using ih(2) by linarith
    ultimately show ?thesis using e by simp
  qed
qed

definition p10 :: "int \<Rightarrow> rat" where
  "p10 e = 10 powi e"

lemma p10_pos [simp]: "0 < p10 e"
  by (simp add: p10_def)

lemma p10_nonneg [simp]: "0 \<le> p10 e"
  by (simp add: p10_def)

lemma p10_not_neg [simp]: "\<not> p10 e < 0"
  by (simp add: not_less)

lemma p10_neq0 [simp]: "p10 e \<noteq> 0"
  by (simp add: p10_def)

lemma p10_add: "p10 (a + b) = p10 a * p10 b"
  by (simp add: p10_def power_int_add)

lemma p10_diff: "p10 (a - b) = p10 a / p10 b"
  by (simp add: p10_def power_int_diff)

lemma p10_nat: "p10 (int n) = 10 ^ n"
  by (simp add: p10_def)

lemma p10_0 [simp]: "p10 0 = 1"
  by (simp add: p10_def)

lemma p10_minus: "p10 (- a) = 1 / p10 a"
  by (simp add: p10_def power_int_minus field_simps)

lemma p10_mono: "a \<le> b \<Longrightarrow> p10 a \<le> p10 b"
  unfolding p10_def by (rule power_int_increasing) auto

lemma p10_less: "a < b \<Longrightarrow> p10 a < p10 b"
  unfolding p10_def by (rule power_int_strict_increasing) auto

lemma p10_less_imp: "p10 a < p10 b \<Longrightarrow> a < b"
  using p10_mono [of b a] by linarith

definition mag :: "rat \<Rightarrow> int" where \<comment> \<open>for a positive rational\<close>
  "mag x = (if 1 \<le> x then int (ndig \<lfloor>x\<rfloor>) - 1 else - int (ndig (\<lceil>1 / x\<rceil> - 1)))"


lemma mag_bounds:
  assumes "0 < x"
  shows "p10 (mag x) \<le> x \<and> x < p10 (mag x + 1)"
proof (cases "1 \<le> x")
  case True
  let ?n = "\<lfloor>x\<rfloor>" let ?d = "ndig ?n"
  have n: "1 \<le> ?n" using True by simp
  have b: "10 ^ (?d - 1) \<le> ?n" "?n < 10 ^ ?d" using ndig_bounds [OF n] by auto
  have m: "mag x = int (?d - 1)" "mag x + 1 = int ?d"
    using True ndig_pos [of ?n] by (auto simp: mag_def)
  have "p10 (mag x) = of_int (10 ^ (?d - 1))" unfolding m(1) p10_nat by simp
  also have "\<dots> \<le> x" using b(1) by (simp only: le_floor_iff)
  finally have lo: "p10 (mag x) \<le> x" .
  have "x < of_int (10 ^ ?d)" using b(2) by (simp only: floor_less_iff)
  then have "x < p10 (mag x + 1)" unfolding m(2) p10_nat by simp
  with lo show ?thesis ..
next
  case False
  let ?y = "1 / x" let ?n = "\<lceil>?y\<rceil> - 1" let ?d = "ndig ?n"
  have y: "1 < ?y" using False assms by (simp add: field_simps)
  then have n: "1 \<le> ?n" by linarith
  have b: "10 ^ (?d - 1) \<le> ?n" "?n < 10 ^ ?d" using ndig_bounds [OF n] by auto
  have m: "mag x = - int ?d" "mag x + 1 = - int (?d - 1)"
    using False ndig_pos [of ?n] by (auto simp: mag_def)
  have "\<lceil>?y\<rceil> \<le> 10 ^ ?d" using b(2) by linarith
  then have "?y \<le> of_int (10 ^ ?d)" by (simp only: ceiling_le_iff)
  then have "?y \<le> 10 ^ ?d" by simp
  then have "1 / 10 ^ ?d \<le> x" using assms by (simp add: field_simps)
  then have lo: "p10 (mag x) \<le> x" unfolding m(1) p10_minus p10_nat .
  have "10 ^ (?d - 1) < \<lceil>?y\<rceil>" using b(1) by linarith
  then have "of_int (10 ^ (?d - 1)) < ?y" by (simp only: less_ceiling_iff)
  then have "10 ^ (?d - 1) < ?y" by simp
  then have "x < 1 / 10 ^ (?d - 1)" using assms by (simp add: field_simps)
  then have "x < p10 (mag x + 1)" unfolding m(2) p10_minus p10_nat .
  with lo show ?thesis ..
qed

lemma mag_mono:
  assumes "0 < x" "x \<le> y"
  shows "mag x \<le> mag y"
proof -
  have "p10 (mag x) < p10 (mag y + 1)"
    using mag_bounds [of x] mag_bounds [of y] assms by linarith
  then show ?thesis using p10_less_imp by fastforce
qed

section \<open>Rounding to 28 significant digits\<close>

definition rnd :: "rat \<Rightarrow> rat" where
  "rnd x = (if x = 0 then 0
     else let e = mag \<bar>x\<bar> - 27 in of_int (rhe (x / p10 e)) * p10 e)"

text \<open>The values a 28-digit Decimal can hold: a coefficient of at most 28 digits, scaled.\<close>

definition repr :: "rat \<Rightarrow> bool" where
  "repr x \<longleftrightarrow> (\<exists>n k. \<bar>n\<bar> \<le> (10::int) ^ 28 \<and> x = of_int n * p10 k)"

lemma rnd_0 [simp]: "rnd 0 = 0"
  by (simp add: rnd_def)

lemma rnd_minus: "rnd (- x) = - rnd x"
proof -
  have "rhe (- x / p10 e) = - rhe (x / p10 e)" for e
    using rhe_minus [of "x / p10 e"] by simp
  then show ?thesis by (simp add: rnd_def Let_def)
qed

lemma scaled_bounds:
  assumes "0 < x"
  shows "10 ^ 27 \<le> x / p10 (mag x - 27)" "x / p10 (mag x - 27) < 10 ^ 28"
proof -
  have e: "p10 (mag x - 27) * 10 ^ 27 = p10 (mag x)"
    using p10_add [of "mag x - 27" 27] p10_nat [of 27] by simp
  have e': "p10 (mag x - 27) * 10 ^ 28 = p10 (mag x + 1)"
    using p10_add [of "mag x - 27" 28] p10_nat [of 28] by (simp add: algebra_simps)
  show "10 ^ 27 \<le> x / p10 (mag x - 27)"
    using mag_bounds [OF assms] e by (simp add: le_divide_eq mult.commute)
  show "x / p10 (mag x - 27) < 10 ^ 28"
    using mag_bounds [OF assms] e' by (simp add: divide_less_eq mult.commute)
qed

lemma rnd_pos_bounds:
  assumes "0 < x"
  shows "p10 (mag x) \<le> rnd x" "rnd x \<le> p10 (mag x + 1)"
proof -
  let ?e = "mag x - 27" let ?c = "rhe (x / p10 ?e)"
  have r: "rnd x = of_int ?c * p10 ?e" using assms by (simp add: rnd_def Let_def)
  have "rhe (of_int (10 ^ 27)) \<le> ?c"
    by (rule rhe_mono) (use scaled_bounds [OF assms] in simp)
  then have lo: "(10::int) ^ 27 \<le> ?c" by (simp only: rhe_of_int)
  have "?c \<le> rhe (of_int (10 ^ 28))"
    by (rule rhe_mono) (use scaled_bounds [OF assms] in simp)
  then have hi: "?c \<le> (10::int) ^ 28" by (simp only: rhe_of_int)
  have "p10 (mag x) = of_int (10 ^ 27) * p10 ?e"
    using p10_add [of 27 ?e] p10_nat [of 27] by simp
  also have "\<dots> \<le> rnd x" unfolding r
    by (rule mult_right_mono) (use lo in \<open>simp_all only: of_int_le_iff p10_nonneg\<close>)
  finally show "p10 (mag x) \<le> rnd x" .
  have "rnd x \<le> of_int (10 ^ 28) * p10 ?e" unfolding r
    by (rule mult_right_mono) (use hi in \<open>simp_all only: of_int_le_iff p10_nonneg\<close>)
  also have "\<dots> = p10 (mag x + 1)"
    using p10_add [of 28 ?e] p10_nat [of 28] by (simp add: algebra_simps)
  finally show "rnd x \<le> p10 (mag x + 1)" .
qed

lemma rnd_pos: "0 < x \<Longrightarrow> 0 < rnd x"
  using rnd_pos_bounds(1) [of x] p10_pos [of "mag x"] by linarith

lemma rnd_mono_pos:
  assumes "0 < x" "x \<le> y"
  shows "rnd x \<le> rnd y"
proof (cases "mag x = mag y")
  case True
  let ?e = "mag y - 27"
  have "rhe (x / p10 ?e) \<le> rhe (y / p10 ?e)"
    by (rule rhe_mono) (use assms in \<open>simp add: divide_right_mono\<close>)
  with True assms show ?thesis
    by (simp add: rnd_def Let_def)
next
  case False
  with mag_mono [OF assms] have "mag x + 1 \<le> mag y" by simp
  then have "p10 (mag x + 1) \<le> p10 (mag y)" by (rule p10_mono)
  then show ?thesis
    using rnd_pos_bounds(2) [OF assms(1)] rnd_pos_bounds(1) [of y] assms by linarith
qed

lemma rnd_mono:
  assumes "x \<le> y"
  shows "rnd x \<le> rnd y"
proof -
  consider "0 < x" | "x = 0" | "x < 0" "0 \<le> y" | "x < 0" "y < 0" by linarith
  then show ?thesis
  proof cases
    case 1 then show ?thesis using rnd_mono_pos assms by blast
  next
    case 2 then show ?thesis using rnd_pos [of y] assms by (cases "y = 0") auto
  next
    case 3
    have "0 < rnd (- x)" using 3 by (intro rnd_pos) simp
    moreover have "0 \<le> rnd y" using rnd_pos [of y] 3 by (cases "y = 0") auto
    ultimately show ?thesis by (simp add: rnd_minus)
  next
    case 4
    have "rnd (- y) \<le> rnd (- x)" using 4 assms by (intro rnd_mono_pos) auto
    then show ?thesis by (simp add: rnd_minus)
  qed
qed

lemma rnd_exact_pos:
  assumes n: "\<bar>n\<bar> \<le> (10::int) ^ 28" and x: "x = of_int n * p10 k" and pos: "0 < x"
  shows "rnd x = x"
proof -
  let ?e = "mag x - 27"
  have n0: "0 < n" using x pos p10_pos [of k] by (auto simp: zero_less_mult_iff)
  have "\<exists>m. x / p10 ?e = of_int m"
  proof (cases "?e \<le> k")
    case True
    have "x / p10 ?e = of_int n * p10 (k - ?e)" using x by (simp add: p10_diff)
    also have "p10 (k - ?e) = of_int (10 ^ nat (k - ?e))"
      using True p10_nat [of "nat (k - ?e)"] by simp
    finally show ?thesis by (metis of_int_mult)
  next
    case False
    have "x \<le> of_int (10 ^ 28) * p10 k" unfolding x
    proof (rule mult_right_mono [OF _ p10_nonneg])
      have "n \<le> 10 ^ 28" using n by linarith
      then show "(of_int n :: rat) \<le> of_int (10 ^ 28)" by (simp only: of_int_le_iff)
    qed
    also have "\<dots> = p10 (28 + k)" using p10_add [of 28 k] p10_nat [of 28] by simp
    finally have le: "x \<le> p10 (28 + k)" .
    then have "p10 (mag x) \<le> p10 (28 + k)" using mag_bounds [OF pos] by simp
    then have "mag x \<le> 28 + k"
      using p10_less [of "28 + k" "mag x"] by (cases "28 + k < mag x") auto
    with False have m: "mag x = 28 + k" by linarith
    with le have "x = p10 (mag x)" using mag_bounds [OF pos] by simp
    then have "x / p10 ?e = p10 27" by (metis p10_diff diff_diff_eq2 add_diff_cancel_left')
    also have "\<dots> = of_int (10 ^ 27)" using p10_nat [of 27] by simp
    finally show ?thesis by blast
  qed
  then obtain m where m: "x / p10 ?e = of_int m" by blast
  have "rnd x = of_int (rhe (x / p10 ?e)) * p10 ?e" using pos by (simp add: rnd_def Let_def)
  also have "\<dots> = x / p10 ?e * p10 ?e" unfolding m rhe_of_int ..
  finally show ?thesis by simp
qed

lemma rnd_exact: "repr x \<Longrightarrow> rnd x = x"
proof -
  assume "repr x"
  then obtain n k where n: "\<bar>n\<bar> \<le> (10::int) ^ 28" and x: "x = of_int n * p10 k"
    unfolding repr_def by blast
  consider "x = 0" | "0 < x" | "x < 0" by linarith
  then show "rnd x = x"
  proof cases
    case 2 with n x show ?thesis by (intro rnd_exact_pos)
  next
    case 3
    have "rnd (- x) = - x"
      by (rule rnd_exact_pos [where n = "- n" and k = k]) (use n x 3 in auto)
    then show ?thesis by (simp add: rnd_minus)
  qed simp
qed

lemma repr_minus: "repr x \<Longrightarrow> repr (- x)"
  unfolding repr_def by (metis abs_minus_cancel mult_minus_left of_int_minus)

lemma repr_rnd: "repr (rnd x)"
proof -
  have pos: "repr (rnd y)" if "0 < y" for y
  proof -
    let ?e = "mag y - 27" let ?c = "rhe (y / p10 ?e)"
    have r: "rnd y = of_int ?c * p10 ?e" using that by (simp add: rnd_def Let_def)
    have "rhe 0 \<le> ?c" by (rule rhe_mono) (use that in simp)
    moreover have "?c \<le> rhe (of_int (10 ^ 28))"
      by (rule rhe_mono) (use scaled_bounds [OF that] in simp)
    ultimately have "\<bar>?c\<bar> \<le> 10 ^ 28" by (simp only: rhe_of_int rhe_0)
    with r show ?thesis unfolding repr_def by blast
  qed
  consider "x = 0" | "0 < x" | "0 < - x" by linarith
  then show ?thesis
  proof cases
    case 1
    have "repr 0" unfolding repr_def by (intro exI [of _ 0]) simp
    with 1 show ?thesis by simp
  next
    case 2 then show ?thesis by (rule pos)
  next
    case 3
    then have "repr (- rnd x)" using pos [of "- x"] by (simp add: rnd_minus)
    then show ?thesis using repr_minus by fastforce
  qed
qed

lemma rnd_error_pos:
  assumes "0 < x"
  shows "\<bar>rnd x - x\<bar> \<le> x / 10 ^ 27 / 2"
proof -
  let ?e = "mag x - 27"
  have r: "rnd x = of_int (rhe (x / p10 ?e)) * p10 ?e" using assms by (simp add: rnd_def Let_def)
  have "rnd x - x = (of_int (rhe (x / p10 ?e)) - x / p10 ?e) * p10 ?e"
    by (simp add: r algebra_simps)
  then have "\<bar>rnd x - x\<bar> \<le> 1/2 * p10 ?e"
    using mult_right_mono [OF rhe_error [of "x / p10 ?e"], of "p10 ?e"] by (simp add: abs_mult)
  also have "p10 ?e \<le> x / 10 ^ 27"
    using scaled_bounds(1) [OF assms] by (simp add: field_simps)
  finally show ?thesis by simp
qed

section \<open>The operations\<close>

definition dadd :: "rat \<Rightarrow> rat \<Rightarrow> rat" where "dadd a b = rnd (a + b)"
definition dsub :: "rat \<Rightarrow> rat \<Rightarrow> rat" where "dsub a b = rnd (a - b)"
definition dmul :: "rat \<Rightarrow> rat \<Rightarrow> rat" where "dmul a b = rnd (a * b)"
definition ddiv :: "rat \<Rightarrow> rat \<Rightarrow> rat" where \<comment> \<open>every caller excludes \<open>b = 0\<close>\<close>
  "ddiv a b = rnd (a / b)"
definition dneg :: "rat \<Rightarrow> rat" where "dneg a = rnd (- a)"
definition dabs :: "rat \<Rightarrow> rat" where "dabs a = rnd \<bar>a\<bar>"

text \<open>\<open>sum(xs, Decimal(0))\<close>.\<close>

definition dsum :: "rat list \<Rightarrow> rat" where
  "dsum xs = foldl dadd 0 xs"

text \<open>\<open>x.quantize(Decimal(1).scaleb(-places), rounding)\<close>: None is InvalidOperation.\<close>

definition quantize :: "(rat \<Rightarrow> int) \<Rightarrow> int \<Rightarrow> rat \<Rightarrow> rat option" where
  "quantize mode places x =
     (let c = mode (x * p10 places)
      in if \<bar>c\<bar> < 10 ^ 28 then Some (of_int c * p10 (- places)) else None)"

text \<open>A number as it arrives, before \<open>is_finite\<close>.\<close>

datatype num = Fin rat | PosInf | NegInf | NaN

definition is_finite :: "num \<Rightarrow> bool" where
  "is_finite x = (case x of Fin _ \<Rightarrow> True | _ \<Rightarrow> False)"

section \<open>A rounding contract\<close>

text \<open>
  What the components use of the rounding: it is monotone, odd, the identity on the values
  the format can hold, and its results are such values. Everything else (signs, bounds,
  sums) follows inside the locale; the interpretation at the end discharges the contract for
  \<open>rnd\<close>.
\<close>

locale rounding =
  fixes r :: "rat \<Rightarrow> rat" and ok :: "rat \<Rightarrow> bool"
  assumes mono: "x \<le> y \<Longrightarrow> r x \<le> r y"
    and odd_fun: "r (- x) = - r x"
    and exact: "ok x \<Longrightarrow> r x = x"
    and closed: "ok (r x)"
begin

lemma zero: "r 0 = 0"
  using odd_fun [of 0] by simp

lemma idem: "r (r x) = r x"
  by (rule exact) (rule closed)

lemma nonneg: "0 \<le> x \<Longrightarrow> 0 \<le> r x"
  using mono [of 0 x] zero by simp

lemma nonpos: "x \<le> 0 \<Longrightarrow> r x \<le> 0"
  using mono [of x 0] zero by simp

lemma le_ok: "ok y \<Longrightarrow> x \<le> y \<Longrightarrow> r x \<le> y"
  using mono [of x y] exact [of y] by simp

lemma ge_ok: "ok y \<Longrightarrow> y \<le> x \<Longrightarrow> y \<le> r x"
  using mono [of y x] exact [of y] by simp

lemma cmp_ok: "ok y \<Longrightarrow> r x < y \<Longrightarrow> x < y"
  using ge_ok [of y x] by linarith

lemma cmp_ok': "ok y \<Longrightarrow> y < r x \<Longrightarrow> y < x"
  using le_ok [of y x] by linarith

lemma sum_nonneg: "0 \<le> a \<Longrightarrow> \<forall>x \<in> set xs. 0 \<le> x \<Longrightarrow> 0 \<le> foldl (\<lambda>a b. r (a + b)) a xs"
proof (induction xs arbitrary: a)
  case (Cons x xs)
  then have "0 \<le> r (a + x)" by (intro nonneg) simp
  with Cons show ?case by simp
qed simp

lemma sum_ge: "ok a \<Longrightarrow> \<forall>x \<in> set xs. 0 \<le> x \<Longrightarrow> a \<le> foldl (\<lambda>a b. r (a + b)) a xs"
proof (induction xs arbitrary: a)
  case (Cons x xs)
  then have "a \<le> r (a + x)" by (intro ge_ok) auto
  also have "\<dots> \<le> foldl (\<lambda>a b. r (a + b)) (r (a + x)) xs"
    using Cons.prems by (intro Cons.IH closed) auto
  finally show ?case by simp
qed simp

lemma mul_mono: "0 \<le> c \<Longrightarrow> a \<le> b \<Longrightarrow> r (a * c) \<le> r (b * c)"
  by (intro mono mult_right_mono)

lemma div_mono: "0 < c \<Longrightarrow> a \<le> b \<Longrightarrow> r (a / c) \<le> r (b / c)"
  by (intro mono divide_right_mono) auto

end

interpretation dec: rounding rnd repr
  by unfold_locales (auto intro: rnd_mono rnd_minus rnd_exact repr_rnd)

lemmas dec_defs = dadd_def dsub_def dmul_def ddiv_def dneg_def dabs_def

text \<open>Values on a decimal grid (the database's \<open>Numeric(p, s)\<close>) are held exactly.\<close>

definition on_grid :: "nat \<Rightarrow> rat \<Rightarrow> bool" where
  "on_grid s x \<longleftrightarrow> (\<exists>n. \<bar>n\<bar> \<le> (10::int) ^ 28 \<and> x = of_int n / 10 ^ s)"

lemma on_grid_repr: "on_grid s x \<Longrightarrow> repr x"
  unfolding on_grid_def repr_def
  by (metis p10_minus p10_nat times_divide_eq_right mult.right_neutral)

lemma repr_fraction:
  assumes "\<bar>n\<bar> \<le> (10::int) ^ 28"
  shows "repr (of_int n / 10 ^ s)"
  by (rule on_grid_repr) (use assms on_grid_def in blast)

lemma repr_int [simp]: "\<bar>n\<bar> \<le> (10::int) ^ 28 \<Longrightarrow> repr (of_int n)"
  using repr_fraction [of n 0] by simp

lemma on_grid_add_exact:
  assumes "on_grid s x" "on_grid s y" "\<bar>x + y\<bar> \<le> 10 ^ (28 - s)" "s \<le> 28"
  shows "dadd x y = x + y" "on_grid s (x + y)"
proof -
  obtain a b where a: "x = of_int a / 10 ^ s" and b: "y = of_int b / 10 ^ s"
    using assms(1,2) unfolding on_grid_def by blast
  have e: "x + y = of_int (a + b) / 10 ^ s" by (simp add: a b add_divide_distrib)
  have "\<bar>of_int (a + b) :: rat\<bar> \<le> 10 ^ (28 - s) * 10 ^ s"
    using assms(3) unfolding e by (simp add: abs_divide field_simps)
  also have "\<dots> = 10 ^ 28" using assms(4) by (simp flip: power_add)
  finally have "\<bar>of_int (a + b) :: rat\<bar> \<le> of_int (10 ^ 28)" by simp
  then have "\<bar>a + b\<bar> \<le> 10 ^ 28" by (simp only: of_int_le_iff flip: of_int_abs)
  with e show g: "on_grid s (x + y)" unfolding on_grid_def by blast
  show "dadd x y = x + y" unfolding dadd_def by (rule rnd_exact [OF on_grid_repr [OF g]])
qed

lemma on_grid_minus: "on_grid s x \<Longrightarrow> on_grid s (- x)"
  unfolding on_grid_def by (metis abs_minus_cancel divide_minus_left of_int_minus)

lemma on_grid_sub_exact:
  assumes "on_grid s x" "on_grid s y" "\<bar>x - y\<bar> \<le> 10 ^ (28 - s)" "s \<le> 28"
  shows "dsub x y = x - y" "on_grid s (x - y)"
  using on_grid_add_exact [of s x "- y"] on_grid_minus [OF assms(2)] assms
  by (simp_all add: dsub_def dadd_def)

lemma on_grid_0 [simp]: "on_grid s 0"
  unfolding on_grid_def by (intro exI [of _ 0]) simp

end
