(* ===== verification/Precision.thy ===== *)
theory Precision
  imports Decimals
begin

text \<open>
  Quantity and price normalization, \<open>backend/app/symbols/precision.py\<close>: the step count with
  its float-floor guard, the step grid, \<open>normalize_quantity\<close>, the price snapping functions
  and the money value of a price movement. An argument typed \<open>object\<close> and parsed through
  \<open>Decimal(str(x))\<close> arrives as a \<open>num\<close>; texts that do not parse are not modelled. The
  \<open>detail\<close> text of a result is left out.
\<close>

datatype precision_error =
    Not_finite string num
  | Step_not_positive rat
  | Quantity_not_positive rat
  | Below_minimum rat rat
  | Above_maximum rat rat
  | Off_grid rat rat rat \<comment> \<open>value, step, nearest valid value below\<close>
  | Floors_to_zero rat rat
  | Floors_below_minimum rat rat num
  | Price_not_positive rat
  | Tick_not_positive rat
  | Invalid_operation \<comment> \<open>decimal.InvalidOperation, which no handler here catches\<close>

definition STEP_EPSILON :: rat where
  "STEP_EPSILON = 1 / 10 ^ 9"

datatype adjustment = Adj_none | Adj_floored | Adj_quantized

record normalized =
  nvalue :: rat
  nadjustment :: adjustment
  noriginal :: "rat option"

definition plain :: "rat \<Rightarrow> normalized" where
  "plain v = \<lparr>nvalue = v, nadjustment = Adj_none, noriginal = None\<rparr>"

definition adjusted :: "normalized \<Rightarrow> bool" where
  "adjusted n \<longleftrightarrow> nadjustment n \<noteq> Adj_none"

definition as_decimal :: "string \<Rightarrow> num \<Rightarrow> precision_error + rat" where \<comment> \<open>\<open>_decimal\<close>\<close>
  "as_decimal name x = (case x of Fin r \<Rightarrow> Inr r | _ \<Rightarrow> Inl (Not_finite name x))"

definition steps_in :: "rat \<Rightarrow> rat \<Rightarrow> precision_error + rat" where
  "steps_in v step =
     (if step \<le> 0 then Inl (Step_not_positive step)
      else let ratio = ddiv v step; nearest = of_int (rhe ratio)
        in if dabs (dsub ratio nearest) \<le> STEP_EPSILON then Inr nearest
           else Inr (of_int (rdown ratio)))"

text \<open>The two callers that test the step first, so \<open>steps_in\<close> cannot raise in them.\<close>

definition step_count :: "rat \<Rightarrow> rat \<Rightarrow> rat" where
  "step_count v step = (case steps_in v step of Inr n \<Rightarrow> n | Inl _ \<Rightarrow> 0)"

definition floor_to_step :: "rat \<Rightarrow> rat \<Rightarrow> rat" where
  "floor_to_step v step = (if step \<le> 0 then v else dmul (step_count v step) step)"

definition is_step_multiple :: "rat \<Rightarrow> rat \<Rightarrow> bool" where
  "is_step_multiple v step =
     (if step \<le> 0 then True
      else dabs (dsub v (dmul (step_count v step) step)) \<le> STEP_EPSILON)"

definition check_bounds :: "rat \<Rightarrow> num option \<Rightarrow> num option \<Rightarrow> precision_error + unit" where
  "check_bounds v minimum maximum =
     bindE (optE (as_decimal ''minimum volume'') minimum) (\<lambda>low.
     bindE (case low of Some l \<Rightarrow> assertE (\<not> v < l) (Below_minimum v l) | None \<Rightarrow> Inr ()) (\<lambda>_.
     bindE (optE (as_decimal ''maximum volume'') maximum) (\<lambda>high.
     case high of Some h \<Rightarrow> assertE (\<not> v > h) (Above_maximum v h) | None \<Rightarrow> Inr ())))"

definition normalize_quantity ::
    "num \<Rightarrow> num option \<Rightarrow> num option \<Rightarrow> num option \<Rightarrow> bool \<Rightarrow> precision_error + normalized" where
  "normalize_quantity q minimum maximum step allow_floor =
     bindE (as_decimal ''quantity'' q) (\<lambda>v.
     bindE (assertE (\<not> v \<le> 0) (Quantity_not_positive v)) (\<lambda>_.
     bindE (check_bounds v minimum maximum) (\<lambda>_.
     case step of None \<Rightarrow> Inr (plain v)
     | Some st \<Rightarrow>
       bindE (as_decimal ''volume step'' st) (\<lambda>grid.
       bindE (assertE (\<not> grid \<le> 0) (Step_not_positive grid)) (\<lambda>_.
       if is_step_multiple v grid then Inr (plain (floor_to_step v grid))
       else let nearest = floor_to_step v grid in
         bindE (assertE allow_floor (Off_grid v grid nearest)) (\<lambda>_.
         bindE (assertE (\<not> nearest \<le> 0) (Floors_to_zero v grid)) (\<lambda>_.
         bindE (optE (as_decimal ''minimum volume'') minimum) (\<lambda>low.
         case low of
           Some l \<Rightarrow> if nearest < l then Inl (Floors_below_minimum v nearest (Fin l))
             else Inr \<lparr>nvalue = nearest, nadjustment = Adj_floored, noriginal = Some v\<rparr>
         | None \<Rightarrow> Inr \<lparr>nvalue = nearest, nadjustment = Adj_floored, noriginal = Some v\<rparr>))))))))"

definition price_result :: "rat \<Rightarrow> rat \<Rightarrow> normalized" where
  "price_result original snapped =
     (if snapped = original then plain snapped
      else \<lparr>nvalue = snapped, nadjustment = Adj_quantized, noriginal = Some original\<rparr>)"

definition normalize_price :: "num \<Rightarrow> num option \<Rightarrow> num option \<Rightarrow> precision_error + normalized" where
  "normalize_price price tick_size digits =
     bindE (as_decimal ''price'' price) (\<lambda>v.
     bindE (assertE (\<not> v \<le> 0) (Price_not_positive v)) (\<lambda>_.
     case tick_size of
       None \<Rightarrow> (case digits of
           None \<Rightarrow> Inr (plain v)
         | Some d \<Rightarrow> bindE (as_decimal ''digits'' d) (\<lambda>places.
             case quantize rhe (rdown places) v of
               None \<Rightarrow> Inl Invalid_operation
             | Some snapped \<Rightarrow> Inr (price_result v snapped)))
     | Some tk \<Rightarrow>
         bindE (as_decimal ''tick size'' tk) (\<lambda>tick.
         bindE (assertE (\<not> tick \<le> 0) (Tick_not_positive tick)) (\<lambda>_.
         Inr (price_result v (dmul (of_int (rhe (ddiv v tick))) tick))))))"

definition snap_directed :: "num \<Rightarrow> num option \<Rightarrow> bool \<Rightarrow> string \<Rightarrow> precision_error + normalized" where
  "snap_directed price tick_size up what =
     bindE (as_decimal what price) (\<lambda>v.
     bindE (assertE (\<not> v \<le> 0) (Price_not_positive v)) (\<lambda>_.
     case tick_size of
       None \<Rightarrow> Inr (plain v)
     | Some tk \<Rightarrow>
         bindE (as_decimal ''tick size'' tk) (\<lambda>tick.
         bindE (assertE (\<not> tick \<le> 0) (Tick_not_positive tick)) (\<lambda>_.
         let ticks = of_int ((if up then rup else rdown) (ddiv v tick))
         in Inr (price_result v (dmul ticks tick))))))"

definition snap_stop_loss :: "num \<Rightarrow> string \<Rightarrow> num option \<Rightarrow> precision_error + normalized" where
  "snap_stop_loss price side tick_size =
     snap_directed price tick_size (side \<in> {''buy'', ''long''}) ''stop_loss''"

definition snap_take_profit :: "num \<Rightarrow> string \<Rightarrow> num option \<Rightarrow> precision_error + normalized" where
  "snap_take_profit price side tick_size =
     snap_directed price tick_size (side \<in> {''buy'', ''long''}) ''take_profit''"

datatype spec_incomplete =
    Tick_missing
  | Tick_not_finite num num
  | Tick_size_not_positive rat
  | Tick_value_not_positive rat

definition value_per_price_unit :: "num option \<Rightarrow> num option \<Rightarrow> spec_incomplete + rat" where
  "value_per_price_unit tick_value tick_size =
     (case (tick_value, tick_size) of
        (Some tv, Some ts) \<Rightarrow>
          (case (tv, ts) of
             (Fin v, Fin s) \<Rightarrow>
               if s \<le> 0 then Inl (Tick_size_not_positive s)
               else if v \<le> 0 then Inl (Tick_value_not_positive v)
               else Inr (ddiv v s)
           | _ \<Rightarrow> Inl (Tick_not_finite tv ts))
      | _ \<Rightarrow> Inl Tick_missing)"

section \<open>The step count\<close>

lemma dabs_le_iff: "repr y \<Longrightarrow> dabs x \<le> y \<Longrightarrow> \<bar>x\<bar> \<le> y \<or> rnd \<bar>x\<bar> = y"
  unfolding dabs_def using dec.cmp_ok [of y "\<bar>x\<bar>"] by linarith

lemma repr_eps [simp]: "repr STEP_EPSILON"
  unfolding STEP_EPSILON_def using repr_fraction [of 1 9] by simp

lemma dabs_dsub_ge:
  assumes "repr y" "0 \<le> y" "y \<le> \<bar>a - b\<bar>"
  shows "y \<le> dabs (dsub a b)"
proof -
  have "y \<le> \<bar>rnd (a - b)\<bar>"
  proof (cases "0 \<le> a - b")
    case True
    then show ?thesis using dec.ge_ok [OF assms(1), of "a - b"] assms(3) by simp
  next
    case False
    then have "y \<le> rnd (- (a - b))" using dec.ge_ok [OF assms(1), of "- (a - b)"] assms(3) by simp
    then show ?thesis unfolding rnd_minus by linarith
  qed
  then show ?thesis unfolding dabs_def dsub_def using dec.ge_ok [OF assms(1)] by blast
qed

lemma step_count_eq:
  "0 < step \<Longrightarrow> step_count v step =
     (let ratio = ddiv v step; nearest = of_int (rhe ratio)
      in if dabs (dsub ratio nearest) \<le> STEP_EPSILON then nearest else of_int (rdown ratio))"
  by (simp add: step_count_def steps_in_def Let_def)

text \<open>
  On the database's grid the guarded count is the exact one: the ratio of two multiples of
  \<open>10\<^sup>-\<^sup>8\<close> with a step of at most one is either whole or at least \<open>10\<^sup>-\<^sup>8\<close> away from every
  whole number, which neither the division's rounding nor the guard can bridge.
\<close>

lemma fraction_gap:
  assumes "0 < (b::int)" "b \<le> 10 ^ 8" "a mod b \<noteq> 0"
  shows "of_int (a div b) + 1 / 10 ^ 8 \<le> (of_int a / of_int b :: rat)"
    "(of_int a / of_int b :: rat) \<le> of_int (a div b) + 1 - 1 / 10 ^ 8"
proof -
  let ?q = "a div b" and ?r = "a mod b"
  have ab: "(of_int a :: rat) = of_int ?q * of_int b + of_int ?r"
    by (simp flip: of_int_mult of_int_add)
  have e: "(of_int a / of_int b :: rat) = of_int ?q + of_int ?r / of_int b"
    using assms(1) by (simp add: ab add_divide_distrib)
  have r: "1 \<le> ?r" "?r \<le> b - 1" using assms pos_mod_bound [of b a] pos_mod_sign [of b a] by linarith+
  have b: "(of_int b :: rat) \<le> 10 ^ 8" "0 < (of_int b :: rat)" using assms(1,2) by simp_all
  have "1 / 10 ^ 8 \<le> 1 / (of_int b :: rat)" using b by (simp add: field_simps)
  also have lo: "\<dots> \<le> of_int ?r / of_int b" using r(1) b(2) by (simp add: divide_right_mono)
  finally show "of_int ?q + 1 / 10 ^ 8 \<le> (of_int a / of_int b :: rat)" using e by simp
  have "of_int ?r \<le> (of_int (b - 1) :: rat)" using r(2) by (simp only: of_int_le_iff)
  then have "of_int ?r / of_int b \<le> (of_int (b - 1) / of_int b :: rat)"
    using b(2) by (intro divide_right_mono) simp_all
  also have "\<dots> = 1 - 1 / of_int b" using b(2) by (simp add: diff_divide_distrib)
  also have "\<dots> \<le> 1 - 1 / 10 ^ 8" using b by (simp add: field_simps)
  finally show "(of_int a / of_int b :: rat) \<le> of_int ?q + 1 - 1 / 10 ^ 8" using e by simp
qed

text \<open>A quantity of the database and a step of at most one, as numbers of \<open>10\<^sup>-\<^sup>8\<close>.\<close>

definition grid_pair :: "rat \<Rightarrow> rat \<Rightarrow> bool" where
  "grid_pair v step \<longleftrightarrow> (\<exists>a b. v = of_int a / 10 ^ 8 \<and> step = of_int b / 10 ^ 8
     \<and> 0 \<le> a \<and> a \<le> 10 ^ 18 \<and> 0 < b \<and> b \<le> 10 ^ 8)"

lemma step_count_exact:
  assumes "grid_pair v step"
  shows "step_count v step = of_int \<lfloor>v / step\<rfloor>"
proof -
  obtain a b where v: "v = of_int a / 10 ^ 8" and s: "step = of_int b / 10 ^ 8"
    and a: "0 \<le> a" "a \<le> 10 ^ 18" and b: "0 < b" "b \<le> 10 ^ 8"
    using assms unfolding grid_pair_def by blast
  have pos: "0 < step" using s b by simp
  have q: "v / step = of_int a / of_int b" unfolding v s by simp
  have fl: "\<lfloor>v / step\<rfloor> = a div b" unfolding q by (rule floor_divide_of_int_eq)
  have dq: "0 \<le> a div b" "a div b \<le> 10 ^ 18"
    using a b by (auto simp: pos_imp_zdiv_nonneg_iff intro: order_trans [OF zdiv_mono2 [of a 1 b, simplified]])
  show ?thesis
  proof (cases "a mod b = 0")
    case True
    then have "v / step = of_int (a div b)" using q b(1) by (simp add: mod_eq_0_iff_dvd real_of_int_div) (metis True div_mult_mod_eq add.right_neutral nonzero_mult_div_cancel_right of_int_0_eq_iff of_int_mult less_irrefl)
    then have "ddiv v step = of_int (a div b)"
      using dq by (simp add: ddiv_def rnd_exact)
    then show ?thesis using pos fl by (simp add: step_count_eq dsub_def dabs_def STEP_EPSILON_def)
  next
    case False
    let ?x = "of_int a / of_int b :: rat" and ?n = "of_int (a div b) :: rat"
    have lo: "?n + 1 / 100000000 \<le> ?x" and hi: "?x \<le> ?n + 1 - 1 / 100000000"
      using fraction_gap [OF b False] by simp_all
    have x: "0 < ?x" "?x \<le> 10 ^ 18 + 1" using lo hi dq by (auto intro: order_trans [OF hi])
    have "\<bar>rnd ?x - ?x\<bar> \<le> ?x / 10 ^ 27 / 2" by (rule rnd_error_pos [OF x(1)])
    also have "\<dots> \<le> 1 / 1000000000" using x(2) by simp
    finally have err: "\<bar>rnd ?x - ?x\<bar> \<le> 1 / 1000000000" .
    let ?r = "rnd ?x"
    have r: "?n + 9 / 1000000000 \<le> ?r" "?r \<le> ?n + 1 - 9 / 1000000000" using lo hi err by linarith+
    have far: "9 / 1000000000 \<le> \<bar>?r - of_int m\<bar>" for m :: int
    proof (cases "m \<le> a div b")
      case True
      then have "(of_int m :: rat) \<le> ?n" by simp
      with r(1) show ?thesis by linarith
    next
      case False
      then have "?n + 1 \<le> (of_int m :: rat)" by (metis int_one_le_iff_zero_less of_int_1 of_int_add of_int_le_iff zless_imp_add1_zle not_le)
      with r(2) show ?thesis by linarith
    qed
    have rp: "repr (9 / 1000000000)" using repr_fraction [of 9 9] by simp
    have "9 / 1000000000 \<le> dabs (dsub ?r (of_int (rhe ?r)))"
      by (rule dabs_dsub_ge [OF rp _ far]) simp
    then have "\<not> dabs (dsub ?r (of_int (rhe ?r))) \<le> STEP_EPSILON" by (simp add: STEP_EPSILON_def)
    moreover have "rdown ?r = a div b"
    proof -
      have "\<lfloor>?r\<rfloor> = a div b" by (rule floor_unique) (use r in linarith)+
      moreover have "0 \<le> ?r" using r(1) dq(1) by (auto intro: order_trans [OF _ r(1)])
      ultimately show ?thesis by (simp add: rdown_nonneg)
    qed
    ultimately show ?thesis using pos fl q by (simp add: step_count_eq ddiv_def)
  qed
qed

lemma grid_pairE:
  assumes "grid_pair v step"
  obtains a b where "v = of_int a / 10 ^ 8" "step = of_int b / 10 ^ 8"
    "0 \<le> a" "a \<le> 10 ^ 18" "0 < b" "b \<le> 10 ^ 8" "v / step = of_int a / of_int b"
    "\<lfloor>v / step\<rfloor> = a div b"
proof -
  obtain a b where v: "v = of_int a / 10 ^ 8" and s: "step = of_int b / 10 ^ 8"
    and "0 \<le> a" "a \<le> 10 ^ 18" "0 < b" "b \<le> 10 ^ 8"
    using assms unfolding grid_pair_def by blast
  moreover have q: "v / step = of_int a / of_int b" unfolding v s by simp
  moreover have "\<lfloor>v / step\<rfloor> = a div b" unfolding q by (rule floor_divide_of_int_eq)
  ultimately show ?thesis by (rule that)
qed

lemma grid_pair_pos: "grid_pair v step \<Longrightarrow> 0 < step \<and> 0 \<le> v"
  by (erule grid_pairE) simp

definition exact_floor :: "rat \<Rightarrow> rat \<Rightarrow> rat" where
  "exact_floor v step = of_int \<lfloor>v / step\<rfloor> * step"

lemma exact_floor_bounds:
  assumes "0 < step"
  shows "exact_floor v step \<le> v" "v < exact_floor v step + step"
proof -
  have "of_int \<lfloor>v / step\<rfloor> * step \<le> v"
    using of_int_floor_le [of "v / step"] by (simp only: pos_le_divide_eq [OF assms])
  then show "exact_floor v step \<le> v" by (simp only: exact_floor_def)
  have "v < (of_int \<lfloor>v / step\<rfloor> + 1) * step"
    using floor_correct [of "v / step"] by (simp add: pos_divide_less_eq [OF assms])
  then show "v < exact_floor v step + step" by (simp add: exact_floor_def distrib_right)
qed

lemma exact_floor_on_grid:
  assumes "grid_pair v step"
  obtains m where "exact_floor v step = of_int m / 10 ^ 8" "0 \<le> m" "m \<le> 10 ^ 18"
    "v = of_int a / 10 ^ 8 \<longrightarrow> m \<le> a"
proof -
  obtain a' b where g: "v = of_int a' / 10 ^ 8" "step = of_int b / 10 ^ 8" "0 \<le> a'" "a' \<le> 10 ^ 18"
    "0 < b" "\<lfloor>v / step\<rfloor> = a' div b" using assms by (rule grid_pairE)
  let ?m = "(a' div b) * b"
  have "?m \<le> a'" by (metis add.commute g(5) le_add_same_cancel1 mult_div_mod_eq pos_mod_sign mult.commute)
  moreover have "0 \<le> ?m" using g by (simp add: pos_imp_zdiv_nonneg_iff)
  moreover have "exact_floor v step = of_int ?m / 10 ^ 8" unfolding exact_floor_def g(6) by (simp add: g(2))
  moreover have "v = of_int a / 10 ^ 8 \<longrightarrow> a = a'" using g(1) by simp
  ultimately show ?thesis using g(4) by (intro that [of ?m]) auto
qed

lemma floor_to_step_exact:
  assumes "grid_pair v step"
  shows "floor_to_step v step = exact_floor v step"
proof -
  obtain m where m: "exact_floor v step = of_int m / 10 ^ 8" "0 \<le> m" "m \<le> 10 ^ 18"
    using assms by (rule exact_floor_on_grid)
  have "repr (exact_floor v step)" unfolding m(1) by (rule repr_fraction) (use m in simp)
  then show ?thesis
    using grid_pair_pos [OF assms] by (simp add: floor_to_step_def step_count_exact assms dmul_def
        rnd_exact flip: exact_floor_def)
qed

lemma is_step_multiple_exact:
  assumes "grid_pair v step"
  shows "is_step_multiple v step \<longleftrightarrow> exact_floor v step = v"
proof -
  obtain a where a: "v = of_int a / 10 ^ 8" "0 \<le> a" "a \<le> 10 ^ 18"
    using assms unfolding grid_pair_def by blast
  obtain m where m: "exact_floor v step = of_int m / 10 ^ 8" "0 \<le> m" "m \<le> 10 ^ 18"
    "v = of_int a / 10 ^ 8 \<longrightarrow> m \<le> a"
    using assms by (rule exact_floor_on_grid [where a = a])
  have d: "v - exact_floor v step = of_int (a - m) / 10 ^ 8"
    using arg_cong2 [where f = minus, OF a(1) m(1)] by (simp add: diff_divide_distrib)
  have r: "repr (of_int (a - m) / 10 ^ 8)" by (rule repr_fraction) (use a m in auto)
  have "dabs (dsub v (floor_to_step v step)) = of_int (a - m) / 10 ^ 8"
    using r m(4) a(1) unfolding floor_to_step_exact [OF assms] dsub_def d dabs_def
    by (simp add: rnd_exact del: of_int_diff)
  moreover have "(of_int (a - m) / 10 ^ 8 :: rat) \<le> STEP_EPSILON \<longleftrightarrow> a - m = 0"
  proof
    assume "(of_int (a - m) / 10 ^ 8 :: rat) \<le> STEP_EPSILON"
    then have "(of_int (a - m) :: rat) < 1" by (simp add: STEP_EPSILON_def)
    then have "a - m < 1" by (simp only: of_int_less_1_iff)
    then show "a - m = 0" using m(4) a(1) by simp
  qed (simp add: STEP_EPSILON_def)
  moreover have "exact_floor v step = v \<longleftrightarrow> a - m = 0" using d by auto
  moreover have "is_step_multiple v step \<longleftrightarrow> dabs (dsub v (floor_to_step v step)) \<le> STEP_EPSILON"
    using grid_pair_pos [OF assms] by (simp add: is_step_multiple_def floor_to_step_def)
  ultimately show ?thesis by (simp only:)
qed

lemma exact_floor_idem: "0 < step \<Longrightarrow> exact_floor (exact_floor v step) step = exact_floor v step"
  by (simp add: exact_floor_def)

section \<open>Directed rounding of a price\<close>

lemma ratio_rounding:
  assumes "grid_pair v step"
  shows "rdown (ddiv v step) = \<lfloor>v / step\<rfloor>" "rup (ddiv v step) = \<lceil>v / step\<rceil>"
proof -
  obtain a b where g: "0 \<le> a" "a \<le> 10 ^ 18" "0 < b" "b \<le> 10 ^ 8" "v / step = of_int a / of_int b"
    "\<lfloor>v / step\<rfloor> = a div b" using assms by (rule grid_pairE)
  have dq: "0 \<le> a div b" "a div b \<le> 10 ^ 18"
    using g by (auto simp: pos_imp_zdiv_nonneg_iff intro: order_trans [OF zdiv_mono2 [of a 1 b, simplified]])
  have "rdown (ddiv v step) = \<lfloor>v / step\<rfloor> \<and> rup (ddiv v step) = \<lceil>v / step\<rceil>"
  proof (cases "a mod b = 0")
    case True
    then obtain c where c: "a = b * c" by (auto simp: mod_eq_0_iff_dvd elim: dvdE)
    have q: "v / step = of_int c" using g(3,5) by (simp add: c)
    have "a div b = c" using g(3) c by simp
    then have "ddiv v step = of_int c" using dq by (simp add: ddiv_def q rnd_exact)
    then show ?thesis by (simp add: q)
  next
    case False
    let ?x = "of_int a / of_int b :: rat" and ?n = "of_int (a div b) :: rat" let ?r = "rnd ?x"
    have lo: "?n + 1 / 100000000 \<le> ?x" and hi: "?x \<le> ?n + 1 - 1 / 100000000"
      using fraction_gap [OF g(3,4) False] by simp_all
    have x: "0 < ?x" "?x \<le> 10 ^ 18 + 1" using lo hi dq by (auto intro: order_trans [OF hi])
    have "\<bar>?r - ?x\<bar> \<le> ?x / 10 ^ 27 / 2" by (rule rnd_error_pos [OF x(1)])
    also have "\<dots> \<le> 1 / 1000000000" using x(2) by simp
    finally have err: "\<bar>?r - ?x\<bar> \<le> 1 / 1000000000" .
    have r: "?n < ?r" "?r < ?n + 1" using lo hi err by linarith+
    have nn: "0 \<le> ?r" using r(1) dq(1) by (meson less_imp_le of_int_0_le_iff order_trans)
    have "\<lfloor>?r\<rfloor> = a div b" by (rule floor_unique) (use r in linarith)+
    moreover have "\<lceil>?r\<rceil> = a div b + 1" by (rule ceiling_unique) (use r in simp_all)
    moreover have "\<lceil>?x\<rceil> = a div b + 1" by (rule ceiling_unique) (use lo hi in simp_all)
    ultimately show ?thesis using nn g(5,6) by (simp add: rdown_def rup_def ddiv_def)
  qed
  then show "rdown (ddiv v step) = \<lfloor>v / step\<rfloor>" "rup (ddiv v step) = \<lceil>v / step\<rceil>" by auto
qed

section \<open>The specification\<close>

text \<open>What \<open>normalize_quantity\<close> promises, in exact arithmetic.\<close>

definition normalize_spec :: "rat \<Rightarrow> rat \<Rightarrow> rat \<Rightarrow> rat \<Rightarrow> bool \<Rightarrow> precision_error + normalized" where
  "normalize_spec v lo hi st allow_floor =
     (if v \<le> 0 then Inl (Quantity_not_positive v)
      else if v < lo then Inl (Below_minimum v lo)
      else if v > hi then Inl (Above_maximum v hi)
      else let n = exact_floor v st in
        if n = v then Inr (plain v)
        else if \<not> allow_floor then Inl (Off_grid v st n)
        else if n \<le> 0 then Inl (Floors_to_zero v st)
        else if n < lo then Inl (Floors_below_minimum v n (Fin lo))
        else Inr \<lparr>nvalue = n, nadjustment = Adj_floored, noriginal = Some v\<rparr>)"

lemma normalize_spec_Inr:
  assumes "normalize_spec v lo hi st fl = Inr n" "0 < st"
  shows "lo \<le> nvalue n" "nvalue n \<le> v" "v < nvalue n + st" "nvalue n \<le> hi"
    "exact_floor (nvalue n) st = nvalue n" "0 < nvalue n" "\<not> fl \<Longrightarrow> nvalue n = v"
  using assms exact_floor_bounds [OF assms(2), of v] exact_floor_idem [OF assms(2), of v]
  by (auto simp: normalize_spec_def plain_def Let_def split: if_splits)

lemma check_bounds_fin:
  "check_bounds v (Some (Fin lo)) (Some (Fin hi)) =
     (if v < lo then Inl (Below_minimum v lo) else if v > hi then Inl (Above_maximum v hi) else Inr ())"
  by (simp add: check_bounds_def as_decimal_def)

lemma normalize_quantity_fin:
  assumes "0 < st"
  shows "normalize_quantity (Fin v) (Some (Fin lo)) (Some (Fin hi)) (Some (Fin st)) fl =
    (if v \<le> 0 then Inl (Quantity_not_positive v)
     else if v < lo then Inl (Below_minimum v lo)
     else if v > hi then Inl (Above_maximum v hi)
     else if is_step_multiple v st then Inr (plain (floor_to_step v st))
     else let n = floor_to_step v st in
        if \<not> fl then Inl (Off_grid v st n)
        else if n \<le> 0 then Inl (Floors_to_zero v st)
        else if n < lo then Inl (Floors_below_minimum v n (Fin lo))
        else Inr \<lparr>nvalue = n, nadjustment = Adj_floored, noriginal = Some v\<rparr>)"
  using assms by (simp add: normalize_quantity_def as_decimal_def check_bounds_fin Let_def)

lemma normalize_quantity_exact:
  assumes "grid_pair v st"
  shows "normalize_quantity (Fin v) (Some (Fin lo)) (Some (Fin hi)) (Some (Fin st)) fl
    = normalize_spec v lo hi st fl"
  using grid_pair_pos [OF assms]
  by (simp add: normalize_quantity_fin normalize_spec_def is_step_multiple_exact [OF assms]
      floor_to_step_exact [OF assms] Let_def)

lemma demo_grid_pair: "grid_pair (37/1000) (1/100)"
  unfolding grid_pair_def by (intro exI [of _ 3700000] exI [of _ 1000000]) simp

lemma demo_exact_floor: "exact_floor (37/1000) (1/100) = 3/100"
proof -
  have "\<lfloor>37 / 10 :: rat\<rfloor> = 3" by (rule floor_unique) simp_all
  then show ?thesis by (simp add: exact_floor_def)
qed

section \<open>Properties\<close>

text \<open>C4: \<open>normalize_quantity\<close> is the exact step arithmetic. For a quantity on the database's
  grid and a step of at most one lot, the float-floor guard and the 28-digit division change
  nothing: the function returns and refuses exactly as the specification written with exact
  division does, branch by branch.\<close>

theorem normalize_quantity_refines:
  assumes "grid_pair v st"
  shows "normalize_quantity (Fin v) (Some (Fin lo)) (Some (Fin hi)) (Some (Fin st)) fl
    = normalize_spec v lo hi st fl"
  by (rule normalize_quantity_exact [OF assms])

theorem normalize_quantity_refines_witness:
  "normalize_quantity (Fin (37/1000)) (Some (Fin (1/100))) (Some (Fin 10)) (Some (Fin (1/100))) True
   = Inr \<lparr>nvalue = 3/100, nadjustment = Adj_floored, noriginal = Some (37/1000)\<rparr>"
  unfolding normalize_quantity_refines [OF demo_grid_pair]
  by (simp add: normalize_spec_def demo_exact_floor)

text \<open>A quantity is never silently raised. Whatever \<open>normalize_quantity\<close> returns lies on
  the step grid, inside the venue's bounds, at or below the quantity asked for and less than
  one step below it; without permission to floor it is the quantity itself; and
  normalizing the result again returns it unchanged.\<close>

theorem normalize_quantity_safe:
  assumes "grid_pair v st"
    and "normalize_quantity (Fin v) (Some (Fin lo)) (Some (Fin hi)) (Some (Fin st)) fl = Inr n"
  shows "max lo (v - st) \<le> nvalue n \<and> nvalue n \<le> min v hi \<and> 0 < nvalue n
    \<and> exact_floor (nvalue n) st = nvalue n \<and> (\<not> fl \<longrightarrow> nvalue n = v)
    \<and> normalize_quantity (Fin (nvalue n)) (Some (Fin lo)) (Some (Fin hi)) (Some (Fin st)) False
        = Inr (plain (nvalue n))"
proof -
  have st: "0 < st" using grid_pair_pos [OF assms(1)] by simp
  note spec = normalize_spec_Inr [OF assms(2) [unfolded normalize_quantity_exact [OF assms(1)]] st]
  have g: "grid_pair (nvalue n) st"
  proof -
    obtain a b where g: "v = of_int a / 10 ^ 8" "st = of_int b / 10 ^ 8"
      "0 \<le> a" "a \<le> 10 ^ 18" "0 < b" "b \<le> 10 ^ 8" using assms(1) by (rule grid_pairE)
    obtain m where "exact_floor v st = of_int m / 10 ^ 8" "0 \<le> m" "m \<le> 10 ^ 18"
      using assms(1) by (rule exact_floor_on_grid)
    moreover have "nvalue n = v \<or> nvalue n = exact_floor v st"
      using assms(2) unfolding normalize_quantity_exact [OF assms(1)]
      by (auto simp: normalize_spec_def plain_def Let_def split: if_splits)
    ultimately show ?thesis unfolding grid_pair_def using g by metis
  qed
  have "normalize_spec (nvalue n) lo hi st False = Inr (plain (nvalue n))"
    using spec by (simp add: normalize_spec_def Let_def)
  then show ?thesis
    using spec normalize_quantity_exact [OF g] by auto
qed

theorem normalize_quantity_safe_witness:
  "\<exists>n. normalize_quantity (Fin (37/1000)) (Some (Fin (1/100))) (Some (Fin 10)) (Some (Fin (1/100))) True
     = Inr n \<and> nvalue n \<le> 37/1000 \<and> exact_floor (nvalue n) (1/100) = nvalue n"
proof -
  have "normalize_quantity (Fin (37/1000)) (Some (Fin (1/100))) (Some (Fin 10)) (Some (Fin (1/100))) True
    = Inr \<lparr>nvalue = 3/100, nadjustment = Adj_floored, noriginal = Some (37/1000)\<rparr>"
    unfolding normalize_quantity_exact [OF demo_grid_pair]
    by (simp add: normalize_spec_def demo_exact_floor)
  from this normalize_quantity_safe [OF demo_grid_pair this] show ?thesis by auto
qed

text \<open>A snapped stop only tightens. On the grid, the stop-loss of a long is snapped to the
  first tick at or above it and the stop-loss of a short to the first tick at or below it,
  so the distance to the entry never grows and moves by less than one tick.\<close>

theorem snap_stop_loss_tightens:
  assumes "grid_pair v tick" "0 < v"
  shows "\<exists>n. snap_stop_loss (Fin v) side (Some (Fin tick)) = Inr n
    \<and> nvalue n = rnd (of_int (if side \<in> {''buy'', ''long''} then \<lceil>v / tick\<rceil> else \<lfloor>v / tick\<rfloor>) * tick)
    \<and> (if side \<in> {''buy'', ''long''} then v \<le> nvalue n \<and> nvalue n \<le> v + tick
       else v - tick \<le> nvalue n \<and> nvalue n \<le> v)"
proof -
  have t: "0 < tick" using grid_pair_pos [OF assms(1)] by simp
  obtain a b where g: "v = of_int a / 10 ^ 8" "tick = of_int b / 10 ^ 8"
    "0 \<le> a" "a \<le> 10 ^ 18" "0 < b" "b \<le> 10 ^ 8" using assms(1) by (rule grid_pairE)
  have rp: "repr v" "repr (v + tick)" "repr (v - tick)"
  proof -
    have e: "v = of_int a / 10 ^ 8" "v + tick = of_int (a + b) / 10 ^ 8"
      "v - tick = of_int (a - b) / 10 ^ 8"
      unfolding g(1,2) by (simp_all add: add_divide_distrib diff_divide_distrib)
    show "repr v" unfolding e(1) by (rule repr_fraction) (use g in simp)
    show "repr (v + tick)" unfolding e(2) by (rule repr_fraction) (use g in simp)
    show "repr (v - tick)" unfolding e(3) by (rule repr_fraction) (use g in simp)
  qed
  let ?k = "if side \<in> {''buy'', ''long''} then \<lceil>v / tick\<rceil> else \<lfloor>v / tick\<rfloor>"
  have val: "\<exists>n. snap_stop_loss (Fin v) side (Some (Fin tick)) = Inr n \<and> nvalue n = rnd (of_int ?k * tick)"
    using assms(2) t ratio_rounding [OF assms(1)]
    by (auto simp: snap_stop_loss_def snap_directed_def as_decimal_def price_result_def plain_def dmul_def Let_def)
  have "v \<le> of_int \<lceil>v / tick\<rceil> * tick"
    using le_of_int_ceiling [of "v / tick"] by (simp only: pos_divide_le_eq [OF t])
  moreover have "of_int \<lceil>v / tick\<rceil> * tick \<le> v + tick"
    using ceiling_correct [of "v / tick"] by (simp add: pos_less_divide_eq [OF t] left_diff_distrib)
  moreover have "v - tick \<le> of_int \<lfloor>v / tick\<rfloor> * tick" "of_int \<lfloor>v / tick\<rfloor> * tick \<le> v"
    using exact_floor_bounds [OF t, of v] by (simp_all add: exact_floor_def)
  ultimately have "if side \<in> {''buy'', ''long''} then v \<le> rnd (of_int ?k * tick) \<and> rnd (of_int ?k * tick) \<le> v + tick
      else v - tick \<le> rnd (of_int ?k * tick) \<and> rnd (of_int ?k * tick) \<le> v"
    using dec.ge_ok dec.le_ok rp by simp
  with val show ?thesis by auto
qed

theorem snap_stop_loss_tightens_witness:
  "\<exists>n. snap_stop_loss (Fin (37/1000)) ''buy'' (Some (Fin (1/100))) = Inr n \<and> 37/1000 \<le> nvalue n"
  using snap_stop_loss_tightens [OF demo_grid_pair, of "''buy''"] by auto

end
