(* ===== verification/Sizing.thy ===== *)
theory Sizing
  imports Precision
begin

text \<open>
  The position sizing engine, \<open>backend/app/sizing/calculator.py\<close>, over the contract
  specification of \<open>backend/app/symbols/service.py\<close>. \<open>calculate_raw\<close> is \<open>_calculate\<close> with its
  four exceptions as values; \<open>calculate\<close> is the public function, which catches three of
  them. Messages are constructors carrying the figures they name.
\<close>

record contract_spec =
  internal_symbol :: string
  broker_symbol :: string
  provider :: string
  contract_size :: rat
  tick_size :: rat
  tick_value :: rat
  minimum_volume :: rat
  maximum_volume :: rat
  volume_step :: rat
  price_precision :: int
  volume_precision :: int

datatype sizing_method = Fixed_quantity | Fixed_risk | Percent_equity

definition method_aliases :: "(string \<times> sizing_method) list" where
  "method_aliases =
     [(''fixed_lot'', Fixed_quantity), (''monetary_risk'', Fixed_risk), (''stop_loss_risk'', Fixed_risk),
      (''equity_percent'', Percent_equity), (''percentage_of_equity'', Percent_equity)]"

definition method_values :: "(string \<times> sizing_method) list" where
  "method_values = [(''fixed_quantity'', Fixed_quantity), (''fixed_risk'', Fixed_risk),
     (''percent_equity'', Percent_equity)]"

definition RISK_METHODS :: "sizing_method set" where
  "RISK_METHODS = {Fixed_risk, Percent_equity}"

datatype sizing_error =
    Unknown_method string
  | Unknown_side string
  | Number_not_finite string num
  | Entry_not_positive rat
  | Stop_not_positive rat
  | Stop_at_entry rat
  | Long_stop_above rat rat
  | Short_stop_below rat rat

definition resolve_method :: "string \<Rightarrow> sizing_error + sizing_method" where
  "resolve_method name =
     (let key = str_lower (str_strip name) in
      case map_of method_aliases key of
        Some m \<Rightarrow> Inr m
      | None \<Rightarrow> (case map_of method_values key of
          Some m \<Rightarrow> Inr m
        | None \<Rightarrow> Inl (Unknown_method name)))"

definition direction :: "string \<Rightarrow> sizing_error + string" where
  "direction side =
     (let key = str_lower (str_strip side) in
      if key \<in> {''buy'', ''long''} then Inr ''long''
      else if key \<in> {''sell'', ''short''} then Inr ''short''
      else Inl (Unknown_side side))"

text \<open>\<open>_finite\<close>: NaN and the infinities are refused, None passes.\<close>

definition finite_num :: "string \<Rightarrow> num option \<Rightarrow> sizing_error + rat option" where
  "finite_num name = optE (\<lambda>x. case x of Fin r \<Rightarrow> Inr r | _ \<Rightarrow> Inl (Number_not_finite name x))"

record sizing_request =
  sq_method :: sizing_method
  sq_spec :: contract_spec
  sq_quantity :: "num option"
  sq_risk_amount :: "num option"
  sq_equity :: "num option"
  sq_risk_percent :: "num option"
  sq_stop_distance :: "num option"
  sq_side :: "string option"
  sq_entry_price :: "num option"
  sq_stop_loss :: "num option"
  sq_take_profit :: "num option"
  sq_max_risk_amount :: "num option"

text \<open>Why a request was refused (the \<open>gap\<close> text).\<close>

datatype gap =
    G_sizing sizing_error | G_spec spec_incomplete | G_precision precision_error
  | G_quantity_required | G_distance_disagrees rat rat | G_distance_required
  | G_risk_amount_required | G_equity_required | G_risk_percent_required
  | G_risk_percent_over_100 rat | G_budget_zero | G_max_risk_not_positive rat
  | G_budget_over_max rat rat | G_risk_per_unit_not_positive
  | G_step_not_positive rat | G_bounds_not_positive rat rat | G_bounds_crossed rat rat
  | G_minimum_too_large precision_error rat rat \<comment> \<open>the cause, what the minimum would risk, the budget\<close>
  | G_volume_zero rat | G_over_budget rat rat rat | G_over_max_risk rat rat rat

datatype warning = W_capped rat rat | W_floored rat rat

record sizing_result =
  sz_volume :: "rat option"
  sz_method :: sizing_method
  sz_gap :: "gap option"
  sz_risk_requested :: "rat option"
  sz_risk_actual :: "rat option"
  sz_risk_per_unit :: "rat option"
  sz_raw_volume :: "rat option"
  sz_stop_distance :: "rat option"
  sz_side :: "string option"
  sz_entry_price :: "num option"
  sz_stop_loss :: "num option"
  sz_symbol :: string
  sz_warnings :: "warning list"
  sz_constraints :: contract_spec

definition sz_ok :: "sizing_result \<Rightarrow> bool" where
  "sz_ok r \<longleftrightarrow> sz_volume r \<noteq> None"

definition sz_refused :: "sizing_result \<Rightarrow> bool" where
  "sz_refused r \<longleftrightarrow> sz_volume r = None"

text \<open>The exceptions \<open>_calculate\<close> can raise; \<open>E_invalid_operation\<close> is decimal's own.\<close>

datatype sizing_exc =
  E_sizing sizing_error | E_spec spec_incomplete | E_precision precision_error | E_invalid_operation

definition liftE :: "('e \<Rightarrow> 'f) \<Rightarrow> 'e + 'a \<Rightarrow> 'f + 'a" where
  "liftE f m = map_sum f id m"

lemma liftE_simps [simp]:
  "liftE f (Inl e) = Inl (f e)" "liftE f (Inr x) = Inr x"
  by (simp_all add: liftE_def)

definition side_or_none :: "string option \<Rightarrow> string option" where
  "side_or_none side = map_option (\<lambda>s. case direction s of Inr d \<Rightarrow> d | Inl _ \<Rightarrow> s) side"

definition refuse :: "sizing_request \<Rightarrow> gap \<Rightarrow> sizing_result" where
  "refuse rq g = \<lparr>sz_volume = None, sz_method = sq_method rq, sz_gap = Some g,
     sz_risk_requested = None, sz_risk_actual = None, sz_risk_per_unit = None,
     sz_raw_volume = None, sz_stop_distance = None, sz_side = side_or_none (sq_side rq),
     sz_entry_price = sq_entry_price rq, sz_stop_loss = sq_stop_loss rq,
     sz_symbol = internal_symbol (sq_spec rq), sz_warnings = [], sz_constraints = sq_spec rq\<rparr>"

definition money :: "rat \<Rightarrow> sizing_exc + rat" where \<comment> \<open>\<open>x.quantize(MONEY)\<close>\<close>
  "money x = (case quantize rhe 4 x of None \<Rightarrow> Inl E_invalid_operation | Some y \<Rightarrow> Inr y)"

definition stop_distance :: "string option \<Rightarrow> rat option \<Rightarrow> rat option \<Rightarrow> sizing_error + rat option" where
  "stop_distance side entry stop =
     (case (entry, stop) of
        (Some e, Some s) \<Rightarrow>
          if e \<le> 0 then Inl (Entry_not_positive e)
          else if s \<le> 0 then Inl (Stop_not_positive s)
          else if e = s then Inl (Stop_at_entry e)
          else if side = Some ''long'' \<and> s > e then Inl (Long_stop_above e s)
          else if side = Some ''short'' \<and> s < e then Inl (Short_stop_below e s)
          else Inr (Some (dabs (dsub e s)))
      | _ \<Rightarrow> Inr None)"

text \<open>\<open>risk_per_unit.quantize(MONEY) if risk_per_unit else None\<close>.\<close>

definition money_opt :: "rat option \<Rightarrow> sizing_exc + rat option" where
  "money_opt x = (case x of None \<Rightarrow> Inr None
     | Some r \<Rightarrow> if r = 0 then Inr None else bindE (money r) (\<lambda>m. Inr (Some m)))"

definition at_precision :: "int \<Rightarrow> rat \<Rightarrow> rat" where
  "at_precision places v = (case quantize rhe places v of None \<Rightarrow> v | Some w \<Rightarrow> w)"

text \<open>Rule 4 and the caller's ceiling, on the rounded volume.\<close>

definition over_budget :: "rat option \<Rightarrow> rat option \<Rightarrow> rat option \<Rightarrow> rat \<Rightarrow> bool" where
  "over_budget exact budget rpu step = (case (exact, budget, rpu) of
     (Some x, Some b, Some r) \<Rightarrow> x > dadd b (dmul (dmul STEP_EPSILON step) r)
   | _ \<Rightarrow> False)"

definition over_max_risk :: "num option \<Rightarrow> rat option \<Rightarrow> bool" where
  "over_max_risk mx actual = (case (mx, actual) of (Some (Fin m), Some a) \<Rightarrow> a > m | _ \<Rightarrow> False)"

definition max_risk_value :: "num option \<Rightarrow> rat" where
  "max_risk_value mx = (case mx of Some (Fin m) \<Rightarrow> m | _ \<Rightarrow> 0)"

definition apply_broker_limits ::
    "sizing_request \<Rightarrow> rat \<Rightarrow> rat option \<Rightarrow> rat option \<Rightarrow> string option \<Rightarrow> rat option
     \<Rightarrow> sizing_exc + sizing_result" where
  "apply_broker_limits rq raw budget rpu side distance =
    (let spec = sq_spec rq in
     if volume_step spec \<le> 0 then Inr (refuse rq (G_step_not_positive (volume_step spec)))
     else if minimum_volume spec \<le> 0 \<or> maximum_volume spec \<le> 0
     then Inr (refuse rq (G_bounds_not_positive (minimum_volume spec) (maximum_volume spec)))
     else if minimum_volume spec > maximum_volume spec
     then Inr (refuse rq (G_bounds_crossed (minimum_volume spec) (maximum_volume spec)))
     else let
       capped = raw > maximum_volume spec;
       vol0 = (if capped then maximum_volume spec else raw);
       warn0 = (if capped then [W_capped raw (maximum_volume spec)] else [])
     in case normalize_quantity (Fin vol0) (Some (Fin (minimum_volume spec)))
            (Some (Fin (maximum_volume spec))) (Some (Fin (volume_step spec))) True of
          Inl e \<Rightarrow>
            bindE (case (budget, rpu) of
                (Some b, Some r) \<Rightarrow>
                  bindE (money (dmul (minimum_volume spec) r)) (\<lambda>w. Inr (G_minimum_too_large e w b))
              | _ \<Rightarrow> Inr (G_precision e)) (\<lambda>g.
            bindE (money_opt rpu) (\<lambda>rm.
            Inr ((refuse rq g)\<lparr>sz_raw_volume := Some (floor_to_step raw (volume_step spec)),
              sz_stop_distance := distance, sz_risk_per_unit := rm, sz_risk_requested := budget\<rparr>)))
        | Inr n \<Rightarrow>
            let warns = warn0 @ (if nadjustment n = Adj_floored then [W_floored vol0 (volume_step spec)] else []);
                volume = at_precision (volume_precision spec) (nvalue n)
            in if volume \<le> 0 then Inr (refuse rq (G_volume_zero volume))
            else let exact = map_option (dmul volume) rpu in
            bindE (optE money exact) (\<lambda>actual.
            if over_budget exact budget rpu (volume_step spec) then
              bindE (money_opt rpu) (\<lambda>rm.
              Inr ((refuse rq (G_over_budget volume (the actual) (the budget)))
                \<lparr>sz_raw_volume := Some raw, sz_stop_distance := distance,
                  sz_risk_per_unit := rm, sz_risk_requested := budget\<rparr>))
            else if over_max_risk (sq_max_risk_amount rq) actual then
              Inr ((refuse rq (G_over_max_risk volume (the actual) (max_risk_value (sq_max_risk_amount rq))))
                \<lparr>sz_raw_volume := Some raw, sz_stop_distance := distance, sz_risk_requested := budget\<rparr>)
            else
              bindE (optE money rpu) (\<lambda>rm.
              Inr \<lparr>sz_volume = Some volume, sz_method = sq_method rq, sz_gap = None,
                sz_risk_requested = budget, sz_risk_actual = actual, sz_risk_per_unit = rm,
                sz_raw_volume = Some raw, sz_stop_distance = distance, sz_side = side,
                sz_entry_price = sq_entry_price rq, sz_stop_loss = sq_stop_loss rq,
                sz_symbol = internal_symbol spec, sz_warnings = warns, sz_constraints = spec\<rparr>)))"

text \<open>The budget of a risk method, or the refusal the method's own checks give.\<close>

definition risk_budget ::
    "sizing_method \<Rightarrow> rat option \<Rightarrow> rat option \<Rightarrow> rat option \<Rightarrow> sizing_exc + (gap + rat)" where
  "risk_budget m amount equity percent =
     (if m = Fixed_risk then
        (case amount of Some a \<Rightarrow> if a \<le> 0 then Inr (Inl G_risk_amount_required) else Inr (Inr a)
         | None \<Rightarrow> Inr (Inl G_risk_amount_required))
      else
        (case equity of
           None \<Rightarrow> Inr (Inl G_equity_required)
         | Some eq \<Rightarrow> if eq \<le> 0 then Inr (Inl G_equity_required) else
           (case percent of
              None \<Rightarrow> Inr (Inl G_risk_percent_required)
            | Some pc \<Rightarrow>
                if pc \<le> 0 then Inr (Inl G_risk_percent_required)
                else if pc > 100 then Inr (Inl (G_risk_percent_over_100 pc))
                else (case quantize rdown 4 (ddiv (dmul eq pc) 100) of
                   None \<Rightarrow> Inl E_invalid_operation
                 | Some b \<Rightarrow> if b \<le> 0 then Inr (Inl G_budget_zero) else Inr (Inr b)))))"

definition size_by_risk ::
    "sizing_request \<Rightarrow> rat \<Rightarrow> rat option \<Rightarrow> string option \<Rightarrow> rat \<Rightarrow> sizing_exc + sizing_result" where
  "size_by_risk rq budget max_risk side distance =
     (if (case max_risk of Some mx \<Rightarrow> mx \<le> 0 | None \<Rightarrow> False)
      then Inr (refuse rq (G_max_risk_not_positive (the max_risk)))
      else if (case max_risk of Some mx \<Rightarrow> budget > mx | None \<Rightarrow> False)
      then Inr (refuse rq (G_budget_over_max budget (the max_risk)))
      else
        bindE (liftE E_spec (value_per_price_unit (Some (Fin (tick_value (sq_spec rq))))
                 (Some (Fin (tick_size (sq_spec rq)))))) (\<lambda>vpu.
        let rpu = dmul distance vpu in
        if rpu \<le> 0 then Inr (refuse rq G_risk_per_unit_not_positive)
        else apply_broker_limits rq (ddiv budget rpu) (Some budget) (Some rpu) side (Some distance)))"

definition calculate_raw :: "sizing_request \<Rightarrow> sizing_exc + sizing_result" where
  "calculate_raw rq =
     bindE (liftE E_sizing (finite_num ''quantity'' (sq_quantity rq))) (\<lambda>quantity.
     bindE (liftE E_sizing (finite_num ''risk_amount'' (sq_risk_amount rq))) (\<lambda>risk_amount.
     bindE (liftE E_sizing (finite_num ''equity'' (sq_equity rq))) (\<lambda>equity.
     bindE (liftE E_sizing (finite_num ''risk_percent'' (sq_risk_percent rq))) (\<lambda>risk_percent.
     bindE (liftE E_sizing (finite_num ''entry_price'' (sq_entry_price rq))) (\<lambda>entry.
     bindE (liftE E_sizing (finite_num ''stop_loss'' (sq_stop_loss rq))) (\<lambda>stop.
     bindE (liftE E_sizing (finite_num ''max_risk_amount'' (sq_max_risk_amount rq))) (\<lambda>max_risk.
     bindE (liftE E_sizing (finite_num ''stop_distance'' (sq_stop_distance rq))) (\<lambda>given.
     bindE (liftE E_sizing (optE direction (sq_side rq))) (\<lambda>side.
     if sq_method rq = Fixed_quantity then
       (case quantity of
          None \<Rightarrow> Inr (refuse rq G_quantity_required)
        | Some q \<Rightarrow> if q \<le> 0 then Inr (refuse rq G_quantity_required) else
            bindE (liftE E_sizing (stop_distance side entry stop)) (\<lambda>derived.
            apply_broker_limits rq q None None side (if given \<noteq> None then given else derived)))
     else
       bindE (liftE E_sizing (stop_distance side entry stop)) (\<lambda>derived.
       if derived \<noteq> None \<and> given \<noteq> None \<and> derived \<noteq> given
       then Inr (refuse rq (G_distance_disagrees (the given) (the derived)))
       else case (if derived \<noteq> None then derived else given) of
         None \<Rightarrow> Inr (refuse rq G_distance_required)
       | Some d \<Rightarrow> if d \<le> 0 then Inr (refuse rq G_distance_required) else
           bindE (risk_budget (sq_method rq) risk_amount equity risk_percent) (\<lambda>b. case b of
             Inl g \<Rightarrow> Inr (refuse rq g)
           | Inr budget \<Rightarrow> size_by_risk rq budget max_risk side d)))))))))))"

definition calculate :: "sizing_request \<Rightarrow> sizing_exc + sizing_result" where
  "calculate rq = (case calculate_raw rq of
     Inr r \<Rightarrow> Inr r
   | Inl (E_sizing e) \<Rightarrow> Inr (refuse rq (G_sizing e))
   | Inl (E_spec e) \<Rightarrow> Inr (refuse rq (G_spec e))
   | Inl (E_precision e) \<Rightarrow> Inr (refuse rq (G_precision e))
   | Inl E_invalid_operation \<Rightarrow> Inl E_invalid_operation)"

section \<open>The step count of an arbitrary volume\<close>

text \<open>
  A usable contract specification: the step is a number of \<open>10\<^sup>-\<^sup>8\<close> of at most one, the
  bounds are numbers of steps, and the step can be written at the venue's own precision.
\<close>

definition spec_ok :: "contract_spec \<Rightarrow> bool" where
  "spec_ok sp \<longleftrightarrow> (\<exists>b j k c. volume_step sp = of_int b / 10 ^ 8 \<and> 0 < b \<and> b \<le> 10 ^ 8
     \<and> minimum_volume sp = of_int j * volume_step sp \<and> maximum_volume sp = of_int k * volume_step sp
     \<and> 1 \<le> j \<and> j \<le> k \<and> k * b \<le> 10 ^ 18
     \<and> 0 \<le> volume_precision sp \<and> volume_precision sp \<le> 8
     \<and> volume_step sp = of_int c * p10 (- volume_precision sp))"

lemma steps_near:
  assumes "0 < step" "0 < v" "v / step \<le> 10 ^ 18"
  obtains n where "step_count v step = of_int n"
    "of_int n \<le> v / step + 3 / 1000000000" "v / step - 1 - 1 / 1000000000 < of_int n"
proof -
  let ?x = "v / step" let ?r = "ddiv v step"
  have x: "0 < ?x" using assms by simp
  have "\<bar>?r - ?x\<bar> \<le> ?x / 10 ^ 27 / 2" unfolding ddiv_def by (rule rnd_error_pos [OF x])
  also have "\<dots> \<le> 1 / 1000000000" using assms(3) by simp
  finally have err: "\<bar>?r - ?x\<bar> \<le> 1 / 1000000000" .
  show ?thesis
  proof (cases "dabs (dsub ?r (of_int (rhe ?r))) \<le> STEP_EPSILON")
    case True
    have "\<bar>?r - of_int (rhe ?r)\<bar> < 2 / 1000000000"
    proof (rule ccontr)
      assume "\<not> ?thesis"
      then have "2 / 1000000000 \<le> dabs (dsub ?r (of_int (rhe ?r)))"
        using repr_fraction [of 2 9] by (intro dabs_dsub_ge) simp_all
      with True show False by (simp add: STEP_EPSILON_def)
    qed
    with err have "of_int (rhe ?r) \<le> ?x + 3 / 1000000000" "?x - 1 - 1 / 1000000000 < of_int (rhe ?r)"
      by linarith+
    moreover have "step_count v step = of_int (rhe ?r)" using True assms(1) by (simp add: step_count_eq Let_def)
    ultimately show ?thesis by (intro that)
  next
    case False
    have r: "0 \<le> ?r" unfolding ddiv_def using x by (intro dec.nonneg) simp
    have "of_int (rdown ?r) \<le> ?x + 3 / 1000000000" "?x - 1 - 1 / 1000000000 < of_int (rdown ?r)"
      using rdown_le [OF r] rdown_gt [OF r] err by linarith+
    moreover have "step_count v step = of_int (rdown ?r)" using False assms(1) by (simp add: step_count_eq Let_def)
    ultimately show ?thesis by (intro that)
  qed
qed

lemma normalized_volume:
  assumes "spec_ok sp" "0 < v" "v \<le> maximum_volume sp"
    and nq: "normalize_quantity (Fin v) (Some (Fin (minimum_volume sp))) (Some (Fin (maximum_volume sp)))
        (Some (Fin (volume_step sp))) True = Inr n"
  obtains m where "at_precision (volume_precision sp) (nvalue n) = of_int m * volume_step sp"
    "minimum_volume sp \<le> of_int m * volume_step sp" "of_int m * volume_step sp \<le> maximum_volume sp"
    "of_int m * volume_step sp \<le> v + 3 / 1000000000 * volume_step sp"
proof -
  let ?s = "volume_step sp"
  obtain b j k c where s: "?s = of_int b / 10 ^ 8" and b: "0 < b" "b \<le> 10 ^ 8"
    and lo: "minimum_volume sp = of_int j * ?s" and hi: "maximum_volume sp = of_int k * ?s"
    and jk: "1 \<le> j" "j \<le> k" and kb: "k * b \<le> 10 ^ 18"
    and p: "0 \<le> volume_precision sp" "volume_precision sp \<le> 8"
    and c: "?s = of_int c * p10 (- volume_precision sp)"
    using assms(1) unfolding spec_ok_def by blast
  have sp: "0 < ?s" "1 / 100000000 \<le> ?s" "?s \<le> 1" using s b by (simp_all add: divide_right_mono)
  have vk: "v / ?s \<le> of_int k" using assms(3) sp(1) by (simp add: hi pos_divide_le_eq)
  have "k \<le> k * b" using jk b by simp
  with kb have k: "k \<le> 10 ^ 18" by linarith
  then have "(of_int k :: rat) \<le> of_int (10 ^ 18)" by (simp only: of_int_le_iff)
  with vk have "v / ?s \<le> 10 ^ 18" by simp
  then obtain m where m: "step_count v ?s = of_int m" "of_int m \<le> v / ?s + 3 / 1000000000"
    "v / ?s - 1 - 1 / 1000000000 < of_int m" using steps_near [OF sp(1) assms(2)] by blast
  have "(of_int m :: rat) < of_int (k + 1)" using m(2) vk by simp
  then have mk: "m \<le> k" by (simp only: of_int_less_iff)
  have "0 < v / ?s" using assms(2) sp(1) by simp
  then have "(of_int (- 2) :: rat) < of_int m" using m(3) by simp
  then have m2: "- 2 < m" by (simp only: of_int_less_iff)
  have F: "floor_to_step v ?s = of_int m * ?s"
  proof -
    have "\<bar>m * b\<bar> \<le> 10 ^ 28"
    proof -
      have "m * b \<le> k * b" using mk b by simp
      moreover have "- 1 * b \<le> m * b" using m2 b by (intro mult_right_mono) auto
      ultimately have "m * b \<le> 10 ^ 18" "- (10 ^ 8) \<le> m * b" using kb b by linarith+
      then show ?thesis by (simp add: abs_le_iff)
    qed
    then have "repr (of_int (m * b) / 10 ^ 8)" by (rule repr_fraction)
    then have "repr (of_int m * ?s)" unfolding s by simp
    then show ?thesis using sp(1) by (simp add: floor_to_step_def m(1) dmul_def rnd_exact)
  qed
  have nv: "nvalue n = of_int m * ?s" using nq sp(1) F
    by (auto simp: normalize_quantity_fin plain_def Let_def split: if_splits)
  have min: "minimum_volume sp \<le> of_int m * ?s"
  proof (cases "is_step_multiple v ?s")
    case True
    then have d: "dabs (dsub v (of_int m * ?s)) \<le> STEP_EPSILON"
      using sp(1) F by (simp add: is_step_multiple_def floor_to_step_def)
    have "\<bar>v - of_int m * ?s\<bar> < 2 / 1000000000"
    proof (rule ccontr)
      assume "\<not> ?thesis"
      then have "2 / 1000000000 \<le> dabs (dsub v (of_int m * ?s))"
        using repr_fraction [of 2 9] by (intro dabs_dsub_ge) simp_all
      with d show False by (simp add: STEP_EPSILON_def)
    qed
    moreover have "minimum_volume sp \<le> v" using nq sp(1) by (auto simp: normalize_quantity_fin split: if_splits)
    ultimately have "of_int j * ?s - 2 / 1000000000 < of_int m * ?s" using lo by linarith
    then have "of_int (j - 1) * ?s < of_int m * ?s" using sp(2) by (simp add: left_diff_distrib)
    then have "(of_int (j - 1) :: rat) < of_int m" using sp(1) by (simp only: mult_less_cancel_right_pos)
    then have "j \<le> m" by (simp only: of_int_less_iff)
    then show ?thesis using sp(1) by (simp add: lo)
  next
    case False
    then show ?thesis using nq sp(1) F
      by (auto simp: normalize_quantity_fin Let_def split: if_splits)
  qed
  then have "0 < m" using lo jk sp(1) by (auto simp: mult_le_cancel_right dest!: le_less_trans)
  moreover have "of_int m * ?s \<le> maximum_volume sp" using mk sp(1) by (simp add: hi)
  moreover have "of_int m * ?s \<le> v + 3 / 1000000000 * ?s"
    using mult_right_mono [OF m(2), of ?s] sp(1) by (simp add: distrib_right)
  moreover have "at_precision (volume_precision sp) (of_int m * ?s) = of_int m * ?s"
  proof -
    let ?p = "volume_precision sp"
    have e: "of_int m * ?s * p10 ?p = of_int (m * c)" unfolding c by (simp add: p10_minus)
    have "(of_int m * ?s) * p10 ?p \<le> 10 ^ 11 * 10 ^ 8"
    proof (rule mult_mono)
      have "(of_int (m * b) :: rat) \<le> of_int (10 ^ 18)"
      proof (simp only: of_int_le_iff)
        have "m * b \<le> k * b" using mk b by simp
        with kb show "m * b \<le> 10 ^ 18" by linarith
      qed
      then show "of_int m * ?s \<le> 10 ^ 11" by (simp add: s)
      show "p10 ?p \<le> 10 ^ 8" using p10_mono [OF p(2)] p10_nat [of 8] by simp
    qed simp_all
    then have "(of_int (m * c) :: rat) < of_int (10 ^ 28)" unfolding e by simp
    then have mc: "m * c < 10 ^ 28" by (simp only: of_int_less_iff)
    have "0 < c" using c sp(1) by (simp add: zero_less_mult_iff)
    with \<open>0 < m\<close> mc have "\<bar>m * c\<bar> < 10 ^ 28" by simp
    then have "quantize rhe ?p (of_int m * ?s) = Some (of_int (m * c) * p10 (- ?p))"
      unfolding quantize_def e by (simp only: rhe_of_int Let_def if_True)
    also have "of_int (m * c) * p10 (- ?p) = of_int m * ?s" unfolding c by simp
    finally show ?thesis by (simp add: at_precision_def)
  qed
  ultimately show ?thesis using min by (intro that [of m]) (simp_all add: nv)
qed

section \<open>What a sized result satisfies\<close>

lemma refuse_volume [simp]: "sz_volume (refuse rq g) = None"
  by (simp add: refuse_def)

lemma apply_broker_limits_sized:
  assumes "apply_broker_limits rq raw budget rpu side d = Inr r" "sz_volume r = Some v"
  shows "\<exists>n. normalize_quantity (Fin (min raw (maximum_volume (sq_spec rq))))
         (Some (Fin (minimum_volume (sq_spec rq)))) (Some (Fin (maximum_volume (sq_spec rq))))
         (Some (Fin (volume_step (sq_spec rq)))) True = Inr n
    \<and> v = at_precision (volume_precision (sq_spec rq)) (nvalue n) \<and> 0 < v
    \<and> optE money (map_option (dmul v) rpu) = Inr (sz_risk_actual r) \<and> sz_risk_requested r = budget
    \<and> sz_raw_volume r = Some raw
    \<and> \<not> over_budget (map_option (dmul v) rpu) budget rpu (volume_step (sq_spec rq))
    \<and> \<not> over_max_risk (sq_max_risk_amount rq) (sz_risk_actual r)"
proof -
  let ?sp = "sq_spec rq"
  let ?v0 = "if raw > maximum_volume ?sp then maximum_volume ?sp else raw"
  have v0: "?v0 = min raw (maximum_volume ?sp)" by (simp add: min_def)
  show ?thesis
  proof (cases "normalize_quantity (Fin ?v0) (Some (Fin (minimum_volume ?sp)))
      (Some (Fin (maximum_volume ?sp))) (Some (Fin (volume_step ?sp))) True")
    case (Inl e)
    with assms show ?thesis
      by (auto simp: apply_broker_limits_def Let_def bindE_Inr refuse_def split: if_splits)
  next
    case (Inr n)
    have "v = at_precision (volume_precision ?sp) (nvalue n) \<and> 0 < v
      \<and> optE money (map_option (dmul v) rpu) = Inr (sz_risk_actual r) \<and> sz_risk_requested r = budget
      \<and> sz_raw_volume r = Some raw
      \<and> \<not> over_budget (map_option (dmul v) rpu) budget rpu (volume_step ?sp)
      \<and> \<not> over_max_risk (sq_max_risk_amount rq) (sz_risk_actual r)"
      using assms unfolding apply_broker_limits_def Let_def Inr
      by (auto simp: bindE_Inr refuse_def split: if_splits)
    with Inr show ?thesis unfolding v0 by blast
  qed
qed

lemma calculate_raw_of: "calculate rq = Inr r \<Longrightarrow> sz_volume r = Some v \<Longrightarrow> calculate_raw rq = Inr r"
  by (auto simp: calculate_def split: sum.splits sizing_exc.splits)

lemma finite_num_Inr: "finite_num nm x = Inr y \<longleftrightarrow> x = map_option Fin y"
  by (cases x; cases y) (auto simp: finite_num_def bindE_Inr split: num.splits)

text \<open>Every number that reached the arithmetic was finite.\<close>

lemma liftE_Inr [simp]: "liftE f m = Inr x \<longleftrightarrow> m = Inr x"
  by (cases m) auto

lemma liftE_Inl: "liftE f m = Inl e \<longleftrightarrow> (\<exists>e'. m = Inl e' \<and> e = f e')"
  by (cases m) auto

text \<open>The distance to the stop: from the entry to the stop where both are stated, else the stated one.\<close>

definition risk_distance :: "sizing_request \<Rightarrow> rat \<Rightarrow> bool" where
  "risk_distance rq d \<longleftrightarrow> (case (sq_entry_price rq, sq_stop_loss rq) of
     (Some (Fin e), Some (Fin s)) \<Rightarrow> d = dabs (dsub e s)
   | _ \<Rightarrow> sq_stop_distance rq = Some (Fin d))"

text \<open>The money to risk: the amount, or the percentage of the equity rounded down to four places.\<close>

definition stated_budget :: "sizing_request \<Rightarrow> rat \<Rightarrow> bool" where
  "stated_budget rq b \<longleftrightarrow> (if sq_method rq = Fixed_risk then sq_risk_amount rq = Some (Fin b)
     else \<exists>eq pc. sq_equity rq = Some (Fin eq) \<and> sq_risk_percent rq = Some (Fin pc)
       \<and> quantize rdown 4 (ddiv (dmul eq pc) 100) = Some b)"

lemma calculate_raw_risk:
  assumes "calculate_raw rq = Inr r" "sz_volume r = Some v" "sq_method rq \<in> RISK_METHODS"
  obtains amount equity percent mx side d budget where
    "sq_risk_amount rq = map_option Fin amount" "sq_equity rq = map_option Fin equity"
    "sq_risk_percent rq = map_option Fin percent" "sq_max_risk_amount rq = map_option Fin mx"
    "risk_distance rq d" "0 < d" "risk_budget (sq_method rq) amount equity percent = Inr (Inr budget)"
    "size_by_risk rq budget mx side d = Inr r"
proof -
  have m: "sq_method rq \<noteq> Fixed_quantity" using assms(3) by (auto simp: RISK_METHODS_def)
  from assms(1,2) m that show ?thesis
    unfolding calculate_raw_def
    by (auto simp: bindE_Inr finite_num_Inr not_le case_sum_eq risk_distance_def stop_distance_def
        split: if_splits option.splits)
qed

lemma risk_budget_pos: "risk_budget m a e p = Inr (Inr b) \<Longrightarrow> 0 < b"
  by (auto simp: risk_budget_def not_le split: if_splits option.splits)

lemma risk_budget_stated:
  assumes "risk_budget (sq_method rq) amount equity percent = Inr (Inr b)" "sq_risk_amount rq = map_option Fin amount"
    "sq_equity rq = map_option Fin equity" "sq_risk_percent rq = map_option Fin percent"
  shows "stated_budget rq b"
  using assms by (auto simp: risk_budget_def stated_budget_def split: if_splits option.splits)

lemma value_per_price_unit_Inr:
  "value_per_price_unit (Some (Fin tv)) (Some (Fin ts)) = Inr x \<Longrightarrow> x = ddiv tv ts \<and> 0 < tv \<and> 0 < ts"
  by (auto simp: value_per_price_unit_def split: if_splits)

lemma size_by_risk_sized:
  assumes "size_by_risk rq budget mx side d = Inr r" "sz_volume r = Some v"
  obtains vpu where "value_per_price_unit (Some (Fin (tick_value (sq_spec rq))))
      (Some (Fin (tick_size (sq_spec rq)))) = Inr vpu" "0 < dmul d vpu"
    "apply_broker_limits rq (ddiv budget (dmul d vpu)) (Some budget) (Some (dmul d vpu)) side (Some d) = Inr r"
    "\<forall>m. mx = Some m \<longrightarrow> budget \<le> m"
  using assms that by (auto simp: size_by_risk_def bindE_Inr Let_def not_le split: if_splits option.splits)

text \<open>Every volume comes out of \<open>apply_broker_limits\<close>.\<close>

lemma calculate_raw_limits:
  assumes "calculate_raw rq = Inr r" "sz_volume r = Some v"
  shows "\<exists>raw budget rpu side d. apply_broker_limits rq raw budget rpu side d = Inr r"
proof (cases "sq_method rq = Fixed_quantity")
  case True
  show ?thesis
  proof (rule ccontr)
    assume "\<not> ?thesis"
    with True assms show False unfolding calculate_raw_def
      by (auto simp: bindE_Inr split: if_splits option.splits)
  qed
next
  case False
  then have m: "sq_method rq \<in> RISK_METHODS" by (cases "sq_method rq") (auto simp: RISK_METHODS_def)
  obtain budget mx side d where "size_by_risk rq budget mx side d = Inr r"
    by (rule calculate_raw_risk [OF assms m])
  from size_by_risk_sized [OF this assms(2)] show ?thesis by metis
qed

section \<open>Relabelling a request\<close>

text \<open>
  \<open>relabel\<close> changes the fields of a request that only \<open>calculate_raw\<close> itself reads; the
  stages after it depend on the request through the fields it keeps, and the method only
  travels into the answer.
\<close>

definition as_fixed_risk :: "sizing_request \<Rightarrow> rat \<Rightarrow> sizing_request" where
  "as_fixed_risk rq b = rq\<lparr>sq_method := Fixed_risk, sq_risk_amount := Some (Fin b)\<rparr>"

definition set_method :: "sizing_method \<Rightarrow> sizing_result \<Rightarrow> sizing_result" where
  "set_method m r = r\<lparr>sz_method := m\<rparr>"

lemma as_fixed_risk_sel [simp]:
  "sq_method (as_fixed_risk rq b) = Fixed_risk" "sq_spec (as_fixed_risk rq b) = sq_spec rq"
  "sq_risk_amount (as_fixed_risk rq b) = Some (Fin b)" "sq_side (as_fixed_risk rq b) = sq_side rq"
  "sq_entry_price (as_fixed_risk rq b) = sq_entry_price rq" "sq_equity (as_fixed_risk rq b) = sq_equity rq"
  "sq_stop_loss (as_fixed_risk rq b) = sq_stop_loss rq" "sq_quantity (as_fixed_risk rq b) = sq_quantity rq"
  "sq_max_risk_amount (as_fixed_risk rq b) = sq_max_risk_amount rq"
  "sq_risk_percent (as_fixed_risk rq b) = sq_risk_percent rq"
  "sq_stop_distance (as_fixed_risk rq b) = sq_stop_distance rq"
  by (simp_all add: as_fixed_risk_def)

lemma bindE_map: "map_sum id f (bindE m k) = bindE m (\<lambda>x. map_sum id f (k x))"
  by (cases m) auto

lemma refuse_as_fixed: "refuse (as_fixed_risk rq b) g = set_method Fixed_risk (refuse rq g)"
  by (simp add: refuse_def set_method_def)

lemma apply_broker_limits_as_fixed:
  "apply_broker_limits (as_fixed_risk rq b) raw bu rpu side d
   = map_sum id (set_method Fixed_risk) (apply_broker_limits rq raw bu rpu side d)"
proof -
  let ?sp = "sq_spec rq"
  let ?v0 = "if raw > maximum_volume ?sp then maximum_volume ?sp else raw"
  show ?thesis
    by (cases "normalize_quantity (Fin ?v0) (Some (Fin (minimum_volume ?sp)))
        (Some (Fin (maximum_volume ?sp))) (Some (Fin (volume_step ?sp))) True";
      simp only: apply_broker_limits_def Let_def as_fixed_risk_sel sum.case bindE_map refuse_as_fixed
        if_distrib [of "map_sum id (set_method Fixed_risk)"] map_sum.simps id_apply cong: if_cong;
      simp add: set_method_def refuse_def cong: if_cong)
qed

lemma size_by_risk_as_fixed:
  "size_by_risk (as_fixed_risk rq b) bu mx side d
   = map_sum id (set_method Fixed_risk) (size_by_risk rq bu mx side d)"
  by (simp add: size_by_risk_def Let_def refuse_as_fixed bindE_map apply_broker_limits_as_fixed
      if_distrib [of "map_sum id (set_method Fixed_risk)"] cong: if_cong option.case_cong)

lemma calculate_raw_as_fixed:
  assumes "sq_method rq = Percent_equity"
    and "sq_equity rq = Some (Fin eq)" "0 < eq" "sq_risk_percent rq = Some (Fin pc)" "0 < pc" "pc \<le> 100"
    and "quantize rdown 4 (ddiv (dmul eq pc) 100) = Some b" "0 < b"
    and "\<forall>a. sq_risk_amount rq = Some a \<longrightarrow> is_finite a"
  shows "calculate_raw (as_fixed_risk rq b) = map_sum id (set_method Fixed_risk) (calculate_raw rq)"
proof -
  have f: "finite_num nm (Some (Fin q)) = Inr (Some q)" for nm q by (simp add: finite_num_def)
  obtain am where am: "finite_num ''risk_amount'' (sq_risk_amount rq) = Inr am"
    using assms(9) by (cases "sq_risk_amount rq") (auto simp: finite_num_def is_finite_def split: num.splits)
  show ?thesis
    using assms(1-8)
    by (simp add: calculate_raw_def bindE_map f am risk_budget_def refuse_as_fixed size_by_risk_as_fixed
        if_distrib [of "map_sum id (set_method Fixed_risk)"] not_le
        option.case_distrib [of "map_sum id (set_method Fixed_risk)"] cong: if_cong option.case_cong)
qed

section \<open>Properties\<close>

text \<open>C5: a sized order risks what was budgeted. When a risk method returns a volume, the money it
  loses at its stop, which is the volume times the distance from entry to stop times the tick value
  over the tick size, each operation rounded as Decimal rounds it, is at most the budget plus the
  guard of one billionth of a step of risk. The budget is the stated amount, or the stated percentage
  of the equity; it is within the caller's ceiling; and the reported risk is that loss to four
  places, within the ceiling too.\<close>

theorem sized_within_budget:
  assumes "calculate rq = Inr r" "sz_volume r = Some v" "sq_method rq \<in> RISK_METHODS"
  shows "\<exists>budget d rpu a. stated_budget rq budget \<and> 0 < budget \<and> sz_risk_requested r = Some budget
    \<and> risk_distance rq d \<and> 0 < d \<and> rpu = dmul d (ddiv (tick_value (sq_spec rq)) (tick_size (sq_spec rq))) \<and> 0 < rpu
    \<and> dmul v rpu \<le> dadd budget (dmul (dmul STEP_EPSILON (volume_step (sq_spec rq))) rpu)
    \<and> sz_risk_actual r = Some a \<and> quantize rhe 4 (dmul v rpu) = Some a
    \<and> (\<forall>mx. sq_max_risk_amount rq = Some (Fin mx) \<longrightarrow> budget \<le> mx \<and> a \<le> mx)"
proof -
  have raw: "calculate_raw rq = Inr r" by (rule calculate_raw_of [OF assms(1,2)])
  obtain amount equity percent mx side d budget where
    am: "sq_risk_amount rq = map_option Fin amount" "sq_equity rq = map_option Fin equity"
      "sq_risk_percent rq = map_option Fin percent"
    and mx: "sq_max_risk_amount rq = map_option Fin mx"
    and d: "risk_distance rq d" "0 < d"
    and rb: "risk_budget (sq_method rq) amount equity percent = Inr (Inr budget)"
    and sz: "size_by_risk rq budget mx side d = Inr r"
    by (rule calculate_raw_risk [OF raw assms(2,3)])
  obtain vpu where vpu: "value_per_price_unit (Some (Fin (tick_value (sq_spec rq)))) (Some (Fin (tick_size (sq_spec rq)))) = Inr vpu"
    and pos: "0 < dmul d vpu"
    and lim: "apply_broker_limits rq (ddiv budget (dmul d vpu)) (Some budget) (Some (dmul d vpu)) side (Some d) = Inr r"
    and ceil: "\<forall>m. mx = Some m \<longrightarrow> budget \<le> m"
    by (rule size_by_risk_sized [OF sz assms(2)])
  have lim': "\<exists>n. optE money (Some (dmul v (dmul d vpu))) = Inr (sz_risk_actual r)
    \<and> sz_risk_requested r = Some budget
    \<and> \<not> over_budget (Some (dmul v (dmul d vpu))) (Some budget) (Some (dmul d vpu)) (volume_step (sq_spec rq))
    \<and> \<not> over_max_risk (sq_max_risk_amount rq) (sz_risk_actual r)"
    using apply_broker_limits_sized [OF lim assms(2)] by auto
  then obtain a where a: "sz_risk_actual r = Some a"
    by (cases "sz_risk_actual r") (auto simp: bindE_Inr)
  have q: "quantize rhe 4 (dmul v (dmul d vpu)) = Some a"
    using lim' a by (auto simp: bindE_Inr money_def split: option.splits)
  show ?thesis
  proof (intro exI conjI)
    show "stated_budget rq budget" by (rule risk_budget_stated [OF rb am])
    show "dmul d vpu = dmul d (ddiv (tick_value (sq_spec rq)) (tick_size (sq_spec rq)))"
      using value_per_price_unit_Inr [OF vpu] by simp
    show "\<forall>mx. sq_max_risk_amount rq = Some (Fin mx) \<longrightarrow> budget \<le> mx \<and> a \<le> mx"
      using lim' ceil mx a by (auto simp: over_max_risk_def not_less)
  qed (use lim' pos risk_budget_pos [OF rb] d a q in \<open>auto simp: over_budget_def not_less\<close>)
qed

definition eurusd :: contract_spec where
  "eurusd = \<lparr>internal_symbol = ''EURUSD'', broker_symbol = ''EURUSD'', provider = ''mt5'',
     contract_size = 100000, tick_size = 1/100000, tick_value = 1, minimum_volume = 1/100,
     maximum_volume = 50, volume_step = 1/100, price_precision = 5, volume_precision = 2\<rparr>"

definition base_request :: sizing_request where
  "base_request = \<lparr>sq_method = Fixed_risk, sq_spec = eurusd, sq_quantity = None,
     sq_risk_amount = Some (Fin 25), sq_equity = None, sq_risk_percent = None,
     sq_stop_distance = Some (Fin (1/1000)), sq_side = None, sq_entry_price = None,
     sq_stop_loss = None, sq_take_profit = None, sq_max_risk_amount = Some (Fin 25)\<rparr>"

lemma demo_sized: "\<exists>r. calculate base_request = Inr r \<and> sz_volume r = Some (1/4)"
proof -
  have "map_sum (\<lambda>_. ()) sz_volume (calculate base_request) = Inr (Some (1/4))" by code_simp
  then show ?thesis by (cases "calculate base_request") auto
qed

theorem sized_within_budget_witness:
  "\<exists>r a. calculate base_request = Inr r \<and> sz_volume r = Some (1/4)
     \<and> sz_risk_actual r = Some a \<and> quantize rhe 4 (dmul (1/4) (dmul (1/1000) (ddiv 1 (1/100000)))) = Some a \<and> a \<le> 25"
proof -
  obtain r where r: "calculate base_request = Inr r" "sz_volume r = Some (1/4)" using demo_sized by blast
  have m: "sq_method base_request \<in> RISK_METHODS" "sq_max_risk_amount base_request = Some (Fin 25)"
    by (simp_all add: base_request_def RISK_METHODS_def)
  have sp: "sq_spec base_request = eurusd" "tick_value eurusd = 1" "tick_size eurusd = 1/100000"
    by (simp_all add: base_request_def eurusd_def)
  have d: "risk_distance base_request d \<longleftrightarrow> d = 1/1000" for d by (auto simp: risk_distance_def base_request_def)
  obtain a where "sz_risk_actual r = Some a" "quantize rhe 4 (dmul (1/4) (dmul (1/1000) (ddiv 1 (1/100000)))) = Some a" "a \<le> 25"
    using sized_within_budget [OF r m(1)] m(2) unfolding d sp by blast
  with r show ?thesis by blast
qed

lemma sized_volume_on_grid:
  assumes "calculate rq = Inr r" "sz_volume r = Some v" "spec_ok (sq_spec rq)"
  shows "\<exists>m raw. v = of_int m * volume_step (sq_spec rq)
    \<and> minimum_volume (sq_spec rq) \<le> v \<and> v \<le> maximum_volume (sq_spec rq)
    \<and> sz_raw_volume r = Some raw \<and> v \<le> raw + 3 / 1000000000 * volume_step (sq_spec rq)"
proof -
  let ?sp = "sq_spec rq"
  obtain raw budget rpu side d where lim: "apply_broker_limits rq raw budget rpu side d = Inr r"
    using calculate_raw_limits [OF calculate_raw_of [OF assms(1,2)] assms(2)] by blast
  obtain n where nq: "normalize_quantity (Fin (min raw (maximum_volume ?sp))) (Some (Fin (minimum_volume ?sp)))
      (Some (Fin (maximum_volume ?sp))) (Some (Fin (volume_step ?sp))) True = Inr n"
    and v: "v = at_precision (volume_precision ?sp) (nvalue n)" and raw: "sz_raw_volume r = Some raw"
    using apply_broker_limits_sized [OF lim assms(2)] by auto
  have st: "0 < volume_step ?sp" using assms(3) by (auto simp: spec_ok_def)
  have pos: "0 < min raw (maximum_volume ?sp)"
    using nq by (auto simp: normalize_quantity_fin [OF st] split: if_splits)
  obtain m where "at_precision (volume_precision ?sp) (nvalue n) = of_int m * volume_step ?sp"
    "minimum_volume ?sp \<le> of_int m * volume_step ?sp" "of_int m * volume_step ?sp \<le> maximum_volume ?sp"
    "of_int m * volume_step ?sp \<le> min raw (maximum_volume ?sp) + 3 / 1000000000 * volume_step ?sp"
    by (rule normalized_volume [OF assms(3) pos _ nq]) simp
  then show ?thesis using raw v by (intro exI [of _ m] exI [of _ raw]) auto
qed

text \<open>A whole number of steps is recognised as one by the step check.\<close>

lemma whole_steps_multiple:
  assumes "spec_ok sp" "0 < v" "v \<le> maximum_volume sp" "v = of_int m * volume_step sp"
  shows "is_step_multiple v (volume_step sp)"
proof -
  let ?s = "volume_step sp"
  obtain b j k c where s: "?s = of_int b / 10 ^ 8" and b: "0 < b" "b \<le> 10 ^ 8"
    and hi: "maximum_volume sp = of_int k * ?s" and kb: "k * b \<le> 10 ^ 18"
    using assms(1) unfolding spec_ok_def by blast
  have sp: "0 < ?s" using s b by simp
  have m: "0 < m" "m \<le> k" using assms(2-4) sp hi by (simp_all add: zero_less_mult_iff mult_le_cancel_right)
  have "m * b \<le> k * b" by (rule mult_right_mono) (use m b in auto)
  moreover have "m * 1 \<le> m * b" "0 * b \<le> m * b"
    by (rule mult_left_mono, use m b in simp_all)
  ultimately have le: "0 \<le> m * b" "m * b \<le> 10 ^ 18" "m \<le> 10 ^ 18" using kb by linarith+
  have mb: "\<bar>m * b\<bar> \<le> 10 ^ 28" "\<bar>m\<bar> \<le> 10 ^ 28" using le m by (simp_all only: abs_of_nonneg) simp_all
  have "ddiv v ?s = of_int m" unfolding ddiv_def assms(4) using sp rnd_exact [OF repr_int [OF mb(2)]] by simp
  then have n: "step_count v ?s = of_int m" using sp
    by (simp add: step_count_eq Let_def dsub_def dabs_def STEP_EPSILON_def)
  have "repr (of_int (m * b) / 10 ^ 8)" by (rule repr_fraction [OF mb(1)])
  then have "rnd (of_int m * ?s) = of_int m * ?s" unfolding s by (intro rnd_exact) simp
  then have "dmul (step_count v ?s) ?s = v" unfolding dmul_def n by (simp only: assms(4))
  then show ?thesis using sp by (simp add: is_step_multiple_def Let_def dsub_def dabs_def STEP_EPSILON_def)
qed

text \<open>A sized volume can be traded. Under a usable contract specification every volume the
  engine returns, by any method, is a whole number of the venue's steps between its minimum
  and its maximum, and exceeds the unrounded volume by at most three billionths of a step.\<close>

theorem sized_volume_tradable:
  assumes "calculate rq = Inr r" "sz_volume r = Some v" "spec_ok (sq_spec rq)"
  shows "\<exists>m raw. v = of_int m * volume_step (sq_spec rq)
    \<and> minimum_volume (sq_spec rq) \<le> v \<and> v \<le> maximum_volume (sq_spec rq)
    \<and> sz_raw_volume r = Some raw \<and> v \<le> raw + 3 / 1000000000 * volume_step (sq_spec rq)"
  by (rule sized_volume_on_grid [OF assms])

lemma eurusd_ok: "spec_ok eurusd"
  unfolding spec_ok_def
  by (rule exI [of _ 1000000], rule exI [of _ 1], rule exI [of _ 5000], rule exI [of _ 1])
     (simp add: eurusd_def p10_def power_int_def power2_eq_square)

theorem sized_volume_tradable_witness:
  "\<exists>r. calculate base_request = Inr r \<and> sz_volume r = Some (1/4) \<and> spec_ok eurusd
     \<and> minimum_volume eurusd \<le> 1/4"
proof -
  obtain r where r: "calculate base_request = Inr r" "sz_volume r = Some (1/4)" using demo_sized by blast
  have "sq_spec base_request = eurusd" by (simp add: base_request_def)
  with sized_volume_tradable [OF r] r eurusd_ok show ?thesis by auto
qed

text \<open>A stop on the wrong side is refused by every method. With a finite request for a long
  whose stop is above its entry, or a short whose stop is below it, no volume is returned,
  even for a fixed quantity that did not need the stop.\<close>

theorem wrong_side_stop_refused:
  assumes "sq_entry_price rq = Some (Fin e)" "sq_stop_loss rq = Some (Fin s)"
    and "sq_side rq = Some sd" "direction sd = Inr dir"
    and "dir = ''long'' \<and> e < s \<or> dir = ''short'' \<and> s < e"
  shows "\<nexists>r v. calculate rq = Inr r \<and> sz_volume r = Some v"
proof
  assume "\<exists>r v. calculate rq = Inr r \<and> sz_volume r = Some v"
  then obtain r v where r: "calculate rq = Inr r" "sz_volume r = Some v" by blast
  have raw: "calculate_raw rq = Inr r" by (rule calculate_raw_of [OF r])
  have "\<exists>x. stop_distance (Some dir) (Some e) (Some s) = Inl x"
    using assms(5) by (auto simp: stop_distance_def)
  then obtain x where x: "stop_distance (Some dir) (Some e) (Some s) = Inl x" ..
  have fe: "finite_num nm (Some (Fin q)) = Inr (Some q)" for nm q by (simp add: finite_num_def)
  show False
    using raw r(2) unfolding calculate_raw_def assms(1-3)
    by (auto simp: bindE_Inr fe assms(4) x split: if_splits option.splits)
qed

theorem wrong_side_stop_refused_witness:
  "\<nexists>r v. calculate (base_request\<lparr>sq_method := Fixed_quantity, sq_quantity := Some (Fin 1),
      sq_side := Some ''BUY'', sq_entry_price := Some (Fin 1), sq_stop_loss := Some (Fin (11/10))\<rparr>) = Inr r
    \<and> sz_volume r = Some v"
proof -
  have d: "direction ''BUY'' = Inr ''long''" by code_simp
  show ?thesis by (rule wrong_side_stop_refused [where e = 1 and s = "11/10" and sd = "''BUY''" and dir = "''long''"])
      (simp_all add: base_request_def d)
qed

text \<open>Percent of equity is fixed risk. A request for a percentage of equity is answered
  exactly as the fixed-risk request for the budget that the percentage comes to, rounded
  down to four places; only the method's name in the answer differs.\<close>

theorem percent_is_fixed_risk:
  assumes "sq_method rq = Percent_equity"
    and "sq_equity rq = Some (Fin eq)" "0 < eq" "sq_risk_percent rq = Some (Fin pc)" "0 < pc" "pc \<le> 100"
    and "quantize rdown 4 (ddiv (dmul eq pc) 100) = Some b" "0 < b"
    and "\<forall>a. sq_risk_amount rq = Some a \<longrightarrow> is_finite a"
  shows "calculate (as_fixed_risk rq b) = map_sum id (set_method Fixed_risk) (calculate rq)
    \<and> b \<le> ddiv (dmul eq pc) 100"
proof
  show "calculate (as_fixed_risk rq b) = map_sum id (set_method Fixed_risk) (calculate rq)"
    unfolding calculate_def calculate_raw_as_fixed [OF assms]
    by (auto simp: refuse_as_fixed split: sum.split sizing_exc.split)
  have nn: "0 \<le> ddiv (dmul eq pc) 100 * p10 4"
    using assms(3,5) by (simp add: ddiv_def dmul_def dec.nonneg)
  have "b = of_int (rdown (ddiv (dmul eq pc) 100 * p10 4)) * p10 (- 4)"
    using assms(7) by (auto simp: quantize_def Let_def split: if_splits)
  also have "\<dots> \<le> ddiv (dmul eq pc) 100 * p10 4 * p10 (- 4)"
    by (rule mult_right_mono [OF rdown_le [OF nn]]) simp
  finally show "b \<le> ddiv (dmul eq pc) 100" by (simp add: p10_minus)
qed

theorem percent_is_fixed_risk_witness:
  "\<exists>r. calculate (as_fixed_risk (base_request\<lparr>sq_method := Percent_equity, sq_equity := Some (Fin 2500),
       sq_risk_percent := Some (Fin 1)\<rparr>) 25) = map_sum id (set_method Fixed_risk) r
     \<and> (25::rat) \<le> ddiv (dmul 2500 1) 100"
proof -
  let ?r = "base_request\<lparr>sq_method := Percent_equity, sq_equity := Some (Fin 2500),
       sq_risk_percent := Some (Fin 1)\<rparr>"
  have q: "quantize rdown 4 (ddiv (dmul 2500 1) 100) = Some 25" by code_simp
  show ?thesis
    using percent_is_fixed_risk [of ?r 2500 1 25] q by (auto simp: base_request_def is_finite_def)
qed

text \<open>The caller's ceiling on the money at risk does not bind a fixed quantity. Whatever
  finite ceiling the request states, the answer to a fixed-quantity request is the same as
  with any other, although the volume and the stop distance that give the risk are known.\<close>

theorem fixed_quantity_ignores_max_risk:
  assumes "sq_method rq = Fixed_quantity"
  shows "calculate (rq\<lparr>sq_max_risk_amount := Some (Fin m)\<rparr>)
    = calculate (rq\<lparr>sq_max_risk_amount := Some (Fin m')\<rparr>)"
proof -
  have f: "finite_num nm (Some (Fin q)) = Inr (Some q)" for nm q by (simp add: finite_num_def)
  have n: "\<not> over_max_risk x None" for x by (simp add: over_max_risk_def split: option.split num.split)
  have r: "refuse (rq\<lparr>sq_max_risk_amount := x\<rparr>) g = refuse rq g" for x g by (simp add: refuse_def)
  have lim: "apply_broker_limits (rq\<lparr>sq_max_risk_amount := x\<rparr>) q None None side d
      = apply_broker_limits (rq\<lparr>sq_max_risk_amount := None\<rparr>) q None None side d" for x q side d
    by (simp add: apply_broker_limits_def Let_def r n cong: if_cong sum.case_cong)
  have "calculate_raw (rq\<lparr>sq_max_risk_amount := Some (Fin m)\<rparr>)
      = calculate_raw (rq\<lparr>sq_max_risk_amount := Some (Fin m')\<rparr>)"
    using assms by (simp add: calculate_raw_def f r lim [of "Some (Fin m)"] lim [of "Some (Fin m')"]
        cong: option.case_cong if_cong)
  then show ?thesis by (simp add: calculate_def r cong: sum.case_cong sizing_exc.case_cong)
qed

definition fixed_request :: sizing_request where
  "fixed_request = base_request\<lparr>sq_method := Fixed_quantity, sq_quantity := Some (Fin 50),
     sq_risk_amount := None\<rparr>"

theorem fixed_quantity_ignores_max_risk_witness:
  "map_sum (\<lambda>_. ()) sz_volume (calculate (fixed_request\<lparr>sq_max_risk_amount := Some (Fin 1)\<rparr>)) = Inr (Some 50)"
proof -
  have "sq_method fixed_request = Fixed_quantity" by (simp add: fixed_request_def)
  note eq = fixed_quantity_ignores_max_risk [OF this, of 1 10000000]
  have "map_sum (\<lambda>_. ()) sz_volume (calculate (fixed_request\<lparr>sq_max_risk_amount := Some (Fin 10000000)\<rparr>))
      = Inr (Some 50)" by code_simp
  with eq show ?thesis by (simp only:)
qed

text \<open>Every refusal the engine knows comes back as a result without a volume; the only
  exception that escapes \<open>calculate\<close> is decimal's own \<open>InvalidOperation\<close>.\<close>

lemma calculate_raises_only:
  "calculate rq = Inl e \<Longrightarrow> e = E_invalid_operation"
  by (auto simp: calculate_def split: sum.splits sizing_exc.splits)

text \<open>That exception is reachable. A request for one percent of an equity of \<open>10\<^sup>3\<^sup>0\<close> needs
  more than 28 digits at four places, so \<open>calculate\<close> raises although it is documented never
  to.\<close>

theorem calculate_raises_on_huge_equity:
  "calculate (base_request\<lparr>sq_method := Percent_equity, sq_equity := Some (Fin (10 ^ 30)),
     sq_risk_percent := Some (Fin 1)\<rparr>) = Inl E_invalid_operation"
  by code_simp

end
