(* ===== verification/Fills.thy ===== *)
theory Fills
  imports Decimals "HOL-Library.Multiset"
begin

text \<open>
  Fill accounting, \<open>backend/app/oms/fills.py\<close>: the fill record with the checks of its
  constructor, and the fill book with its derived figures. The message texts of the
  exceptions are not modelled; each refusal is a constructor that carries the figures its
  message names.
\<close>

datatype fill_error =
    Bad_fill_quantity num
  | Bad_fill_price num
  | Bad_requested num
  | Overfill rat rat \<comment> \<open>the fill's quantity and what remained\<close>

record fill_record =
  fr_quantity :: rat
  fr_price :: rat
  fr_at :: time
  fr_source :: string
  fr_deal :: "string option"
  fr_commission :: rat
  fr_swap :: rat
  fr_slippage_points :: "rat option"
  fr_realized_pnl :: "rat option"

text \<open>\<open>FillRecord.__post_init__\<close>: quantity and price are finite and positive.\<close>

fun positive_finite :: "num \<Rightarrow> bool" where
  "positive_finite (Fin x) \<longleftrightarrow> 0 < x"
| "positive_finite _ \<longleftrightarrow> False"

fun fin_value :: "num \<Rightarrow> rat" where
  "fin_value (Fin x) = x"
| "fin_value _ = 0"

definition make_fill ::
    "num \<Rightarrow> num \<Rightarrow> time \<Rightarrow> string \<Rightarrow> string option \<Rightarrow> rat \<Rightarrow> rat \<Rightarrow> rat option \<Rightarrow> rat option
     \<Rightarrow> fill_error + fill_record" where
  "make_fill q p t src deal comm swp slip pnl =
     (if \<not> positive_finite q then Inl (Bad_fill_quantity q)
      else if \<not> positive_finite p then Inl (Bad_fill_price p)
      else Inr \<lparr>fr_quantity = fin_value q, fr_price = fin_value p, fr_at = t, fr_source = src,
        fr_deal = deal, fr_commission = comm, fr_swap = swp, fr_slippage_points = slip,
        fr_realized_pnl = pnl\<rparr>)"

record fill_book =
  requested :: rat
  fills :: "fill_record list"

definition make_book :: "num \<Rightarrow> fill_error + fill_book" where
  "make_book q = (if \<not> positive_finite q then Inl (Bad_requested q)
     else Inr \<lparr>requested = fin_value q, fills = []\<rparr>)"

definition filled_quantity :: "fill_book \<Rightarrow> rat" where
  "filled_quantity b = dsum (map fr_quantity (fills b))"

definition remaining_quantity :: "fill_book \<Rightarrow> rat" where
  "remaining_quantity b = dsub (requested b) (filled_quantity b)"

definition complete :: "fill_book \<Rightarrow> bool" where
  "complete b \<longleftrightarrow> remaining_quantity b \<le> 0"

definition partial :: "fill_book \<Rightarrow> bool" where
  "partial b \<longleftrightarrow> fills b \<noteq> [] \<and> \<not> complete b"

definition average_price :: "fill_book \<Rightarrow> rat option" where
  "average_price b = (let total = filled_quantity b in
     if total \<le> 0 then None
     else let notional = dsum (map (\<lambda>f. dmul (fr_quantity f) (fr_price f)) (fills b))
          in Some (ddiv notional total))"

definition book_commission :: "fill_book \<Rightarrow> rat" where
  "book_commission b = dsum (map fr_commission (fills b))"

definition book_swap :: "fill_book \<Rightarrow> rat" where
  "book_swap b = dsum (map fr_swap (fills b))"

definition filled_at :: "fill_book \<Rightarrow> time option" where
  "filled_at b = (case map fr_at (fills b) of [] \<Rightarrow> None | t # ts \<Rightarrow> Some (foldl max t ts))"

definition add_fill :: "fill_book \<Rightarrow> fill_record \<Rightarrow> fill_error + fill_book" where
  "add_fill b f =
     (if fr_quantity f > remaining_quantity b
      then Inl (Overfill (fr_quantity f) (remaining_quantity b))
      else Inr (b\<lparr>fills := fills b @ [f]\<rparr>))"

definition already_recorded :: "fill_book \<Rightarrow> string option \<Rightarrow> bool" where
  "already_recorded b deal =
     (case deal of None \<Rightarrow> False
      | Some d \<Rightarrow> list_ex (\<lambda>f. fr_deal f = Some d) (fills b))"

lemmas fills_defs = filled_quantity_def remaining_quantity_def complete_def add_fill_def

section \<open>Books whose figures are exact\<close>

text \<open>
  The database keeps quantities as \<open>Numeric(18, 8)\<close>. On that grid the sums of the book
  round nothing, so the derived figures are the mathematical ones.
\<close>

abbreviation qty_ok :: "rat \<Rightarrow> bool" where
  "qty_ok q \<equiv> on_grid 8 q \<and> 0 < q"

definition book_inv :: "fill_book \<Rightarrow> bool" where
  "book_inv b \<longleftrightarrow> qty_ok (requested b) \<and> requested b \<le> 10 ^ 20
     \<and> (\<forall>f \<in> set (fills b). qty_ok (fr_quantity f) \<and> 0 < fr_price f)
     \<and> sum_list (map fr_quantity (fills b)) \<le> requested b"

lemma dsum_snoc: "dsum (xs @ [x]) = dadd (dsum xs) x"
  by (simp add: dsum_def)

lemma sum_list_mono_prefix:
  fixes xs :: "rat list"
  assumes "\<forall>x \<in> set xs. 0 \<le> x"
  shows "0 \<le> sum_list xs"
  using assms by (induction xs) auto

lemma dsum_exact:
  fixes xs :: "rat list"
  assumes "\<forall>x \<in> set xs. on_grid s x \<and> 0 \<le> x" "sum_list xs \<le> 10 ^ (28 - s)" "s \<le> 28"
  shows "dsum xs = sum_list xs \<and> on_grid s (sum_list xs)"
  using assms
proof (induction xs rule: rev_induct)
  case (snoc x xs)
  have nn: "0 \<le> sum_list xs" "0 \<le> x" using snoc.prems(1) by (auto intro!: sum_list_mono_prefix)
  with snoc.prems have le: "sum_list xs \<le> 10 ^ (28 - s)" "sum_list xs + x \<le> 10 ^ (28 - s)" by auto
  have ih: "dsum xs = sum_list xs" "on_grid s (sum_list xs)"
    using snoc.IH snoc.prems le(1) by auto
  have "dadd (sum_list xs) x = sum_list xs + x \<and> on_grid s (sum_list xs + x)"
    using on_grid_add_exact [of s "sum_list xs" x] ih(2) snoc.prems le nn by auto
  then show ?case by (simp add: dsum_snoc ih(1))
qed (simp add: dsum_def)

lemma filled_exact:
  assumes "book_inv b"
  shows "filled_quantity b = sum_list (map fr_quantity (fills b))"
    "on_grid 8 (filled_quantity b)"
proof -
  have "dsum (map fr_quantity (fills b)) = sum_list (map fr_quantity (fills b))
      \<and> on_grid 8 (sum_list (map fr_quantity (fills b)))"
    by (rule dsum_exact) (use assms in \<open>auto simp: book_inv_def\<close>)
  then show "filled_quantity b = sum_list (map fr_quantity (fills b))"
    "on_grid 8 (filled_quantity b)" by (simp_all add: filled_quantity_def)
qed

lemma filled_nonneg: "book_inv b \<Longrightarrow> 0 \<le> filled_quantity b"
  unfolding filled_exact(1) by (rule sum_list_mono_prefix) (auto simp: book_inv_def)

lemma filled_le_requested: "book_inv b \<Longrightarrow> filled_quantity b \<le> requested b"
  by (simp add: filled_exact) (simp add: book_inv_def)

lemma remaining_exact:
  assumes "book_inv b"
  shows "remaining_quantity b = requested b - filled_quantity b"
  unfolding remaining_quantity_def
proof (rule on_grid_sub_exact(1) [of 8])
  show "\<bar>requested b - filled_quantity b\<bar> \<le> 10 ^ (28 - 8)"
    using filled_nonneg [OF assms] filled_le_requested [OF assms] assms
    by (auto simp: book_inv_def)
qed (use assms filled_exact [OF assms] in \<open>auto simp: book_inv_def\<close>)

lemma complete_iff: "book_inv b \<Longrightarrow> complete b \<longleftrightarrow> filled_quantity b = requested b"
  using filled_le_requested [of b] by (auto simp: complete_def remaining_exact)

lemma make_book_inv:
  "make_book q = Inr b \<Longrightarrow> on_grid 8 (fin_value q) \<Longrightarrow> fin_value q \<le> 10 ^ 20 \<Longrightarrow> book_inv b"
  by (cases q) (auto simp: make_book_def book_inv_def split: if_splits)

lemma make_fill_pos: "make_fill q p t s d c w sl pl = Inr f \<Longrightarrow> 0 < fr_quantity f \<and> 0 < fr_price f"
  by (cases q; cases p) (auto simp: make_fill_def split: if_splits)

lemma add_fill_inv:
  assumes b: "book_inv b" and f: "qty_ok (fr_quantity f)" "0 < fr_price f"
    and add: "add_fill b f = Inr b'"
  shows "book_inv b'"
proof -
  have "fr_quantity f \<le> requested b - filled_quantity b" and b': "b' = b\<lparr>fills := fills b @ [f]\<rparr>"
    using add by (auto simp: add_fill_def remaining_exact [OF b] split: if_splits)
  then show ?thesis using b f by (auto simp: book_inv_def filled_exact [OF b])
qed

lemma add_fill_requested: "add_fill b f = Inr b' \<Longrightarrow> requested b' = requested b"
  by (auto simp: add_fill_def split: if_splits)

lemma add_fill_filled:
  assumes "book_inv b" "qty_ok (fr_quantity f)" "0 < fr_price f" "add_fill b f = Inr b'"
  shows "filled_quantity b' = filled_quantity b + fr_quantity f"
proof -
  have "book_inv b'" by (rule add_fill_inv [OF assms])
  then show ?thesis using assms(4)
    by (auto simp: filled_exact [OF assms(1)] filled_exact(1) add_fill_def split: if_splits)
qed

lemma already_recorded_add:
  "add_fill b f = Inr b' \<Longrightarrow> fr_deal f = Some d \<Longrightarrow> already_recorded b' (Some d)"
  by (auto simp: add_fill_def already_recorded_def split: if_splits)

lemma already_recorded_mono:
  "add_fill b f = Inr b' \<Longrightarrow> already_recorded b d \<Longrightarrow> already_recorded b' d"
  by (auto simp: add_fill_def already_recorded_def list_ex_iff split: if_splits option.splits)

section \<open>The average price\<close>

text \<open>The notional is exact while every product fits the grid of sixteen places.\<close>

definition notional_ok :: "fill_book \<Rightarrow> bool" where
  "notional_ok b \<longleftrightarrow> (\<forall>f \<in> set (fills b). on_grid 16 (fr_quantity f * fr_price f))
     \<and> (\<Sum>f \<leftarrow> fills b. fr_quantity f * fr_price f) \<le> 10 ^ 12"

lemma notional_exact:
  assumes "book_inv b" "notional_ok b"
  shows "dsum (map (\<lambda>f. dmul (fr_quantity f) (fr_price f)) (fills b))
    = (\<Sum>f \<leftarrow> fills b. fr_quantity f * fr_price f)"
proof -
  have "map (\<lambda>f. dmul (fr_quantity f) (fr_price f)) (fills b)
      = map (\<lambda>f. fr_quantity f * fr_price f) (fills b)"
    using assms(2) by (auto simp: notional_ok_def dmul_def intro!: rnd_exact on_grid_repr)
  moreover have "dsum (map (\<lambda>f. fr_quantity f * fr_price f) (fills b))
      = (\<Sum>f \<leftarrow> fills b. fr_quantity f * fr_price f)"
    using assms by (intro dsum_exact [THEN conjunct1, of _ 16]) (auto simp: notional_ok_def book_inv_def)
  ultimately show ?thesis by (simp only:)
qed

lemma average_exact:
  assumes "book_inv b" "notional_ok b" "fills b \<noteq> []"
  shows "average_price b = Some (rnd ((\<Sum>f \<leftarrow> fills b. fr_quantity f * fr_price f) / filled_quantity b))"
proof -
  obtain f fs where fs: "fills b = f # fs" using assms(3) by (cases "fills b") auto
  have "0 \<le> sum_list (map fr_quantity fs)"
    using assms(1) fs by (intro sum_list_mono_prefix) (auto simp: book_inv_def)
  then have "0 < filled_quantity b"
    using assms(1) fs by (auto simp: filled_exact [OF assms(1)] book_inv_def)
  then show ?thesis by (simp add: average_price_def Let_def notional_exact assms ddiv_def)
qed

lemma weighted_bounds:
  fixes fs :: "fill_record list"
  assumes "\<forall>f \<in> set fs. 0 < fr_quantity f \<and> lo \<le> fr_price f \<and> fr_price f \<le> hi"
  shows "lo * sum_list (map fr_quantity fs) \<le> (\<Sum>f \<leftarrow> fs. fr_quantity f * fr_price f)
    \<and> (\<Sum>f \<leftarrow> fs. fr_quantity f * fr_price f) \<le> hi * sum_list (map fr_quantity fs)"
  using assms
proof (induction fs)
  case (Cons f fs)
  have "fr_quantity f * lo \<le> fr_quantity f * fr_price f"
    "fr_quantity f * fr_price f \<le> fr_quantity f * hi"
    using Cons.prems by (auto intro!: mult_left_mono)
  then have "lo * fr_quantity f \<le> fr_quantity f * fr_price f"
    "fr_quantity f * fr_price f \<le> hi * fr_quantity f" by (simp_all only: mult.commute)
  moreover have "lo * sum_list (map fr_quantity fs) \<le> (\<Sum>f \<leftarrow> fs. fr_quantity f * fr_price f)
    \<and> (\<Sum>f \<leftarrow> fs. fr_quantity f * fr_price f) \<le> hi * sum_list (map fr_quantity fs)"
    using Cons by simp
  ultimately show ?case by (simp add: distrib_left)
qed simp

section \<open>Properties\<close>

text \<open>C2: a requested quantity is never an executed one. In a book on the database's grid a
  report is taken whole or refused whole: it is refused exactly when it is larger than what
  remains, and when it is taken the filled quantity grows by exactly the report's quantity,
  the remaining quantity shrinks by it, and the book stays within the quantity requested.\<close>

theorem add_fill_conserves:
  assumes "book_inv b" "qty_ok (fr_quantity f)" "0 < fr_price f"
  shows "case add_fill b f of
      Inl e \<Rightarrow> requested b < filled_quantity b + fr_quantity f
        \<and> e = Overfill (fr_quantity f) (requested b - filled_quantity b)
    | Inr b' \<Rightarrow> book_inv b' \<and> fills b' = fills b @ [f] \<and> requested b' = requested b
        \<and> filled_quantity b' = filled_quantity b + fr_quantity f
        \<and> remaining_quantity b' = remaining_quantity b - fr_quantity f
        \<and> filled_quantity b' \<le> requested b"
proof (cases "add_fill b f")
  case (Inl e)
  then show ?thesis
    by (auto simp: add_fill_def remaining_exact [OF assms(1)] split: if_splits)
next
  case (Inr b')
  have inv: "book_inv b'" by (rule add_fill_inv [OF assms Inr])
  have b': "b' = b\<lparr>fills := fills b @ [f]\<rparr>" using Inr by (auto simp: add_fill_def split: if_splits)
  show ?thesis
    using inv filled_le_requested [OF inv] add_fill_filled [OF assms Inr]
      remaining_exact [OF inv] remaining_exact [OF assms(1)]
    by (simp add: Inr) (simp add: b')
qed

definition demo_fill :: "rat \<Rightarrow> rat \<Rightarrow> string option \<Rightarrow> fill_record" where
  "demo_fill q p d = \<lparr>fr_quantity = q, fr_price = p, fr_at = 0, fr_source = ''broker'', fr_deal = d,
     fr_commission = 0, fr_swap = 0, fr_slippage_points = None, fr_realized_pnl = None\<rparr>"

lemma on_grid_fraction: "\<bar>n\<bar> \<le> (10::int) ^ 28 \<Longrightarrow> on_grid s (of_int n / 10 ^ s)"
  unfolding on_grid_def by blast

lemma on_grid_int: "\<bar>n * 10 ^ s\<bar> \<le> (10::int) ^ 28 \<Longrightarrow> on_grid s (of_int n)"
  unfolding on_grid_def by (intro exI [of _ "n * 10 ^ s"]) simp

lemma on_grid_numeral [simp]: "(numeral n :: int) * 10 ^ s \<le> 10 ^ 28 \<Longrightarrow> on_grid s (numeral n)"
  using on_grid_int [of "numeral n" s] by (simp add: abs_mult)

definition demo_book :: fill_book where
  "demo_book = \<lparr>requested = 100, fills = [demo_fill 40 (1002/10) (Some ''d1'')]\<rparr>"

lemma demo_book_inv: "book_inv demo_book"
  by (simp add: book_inv_def demo_book_def demo_fill_def)

theorem add_fill_conserves_witness:
  "book_inv demo_book \<and> add_fill demo_book (demo_fill 70 100 None) = Inl (Overfill 70 60)
   \<and> filled_quantity (case add_fill demo_book (demo_fill 60 100 None) of Inr b \<Rightarrow> b) = 100"
proof -
  have f: "filled_quantity demo_book = 40"
    by (simp add: filled_exact [OF demo_book_inv]) (simp add: demo_book_def demo_fill_def)
  have r: "remaining_quantity demo_book = 60"
    by (simp add: remaining_exact [OF demo_book_inv] f) (simp add: demo_book_def)
  have a: "add_fill demo_book (demo_fill 70 100 None) = Inl (Overfill 70 60)"
    by (simp add: add_fill_def r) (simp add: demo_fill_def)
  have "\<exists>b. add_fill demo_book (demo_fill 60 100 None) = Inr b"
    by (simp add: add_fill_def r) (simp add: demo_fill_def)
  then obtain b where b: "add_fill demo_book (demo_fill 60 100 None) = Inr b" ..
  have "filled_quantity b = 100"
    using add_fill_conserves [OF demo_book_inv, of "demo_fill 60 100 None"] b f
    by (simp add: demo_fill_def)
  then show ?thesis using demo_book_inv a b by simp
qed

text \<open>The average price is a price. While the notional is exact, the average of a book
  with fills exists and lies between the lowest and the highest price that was filled, also
  after the division has been rounded to 28 digits.\<close>

theorem average_price_between:
  assumes "book_inv b" "notional_ok b" "fills b \<noteq> []"
    and "\<forall>f \<in> set (fills b). lo \<le> fr_price f \<and> fr_price f \<le> hi" "repr lo" "repr hi"
  shows "\<exists>p. average_price b = Some p \<and> lo \<le> p \<and> p \<le> hi"
proof -
  let ?N = "\<Sum>f \<leftarrow> fills b. fr_quantity f * fr_price f" and ?T = "filled_quantity b"
  have avg: "average_price b = Some (rnd (?N / ?T))" by (rule average_exact [OF assms(1-3)])
  have T: "0 < ?T"
    using avg by (auto simp: average_price_def Let_def split: if_splits)
  have "lo * ?T \<le> ?N \<and> ?N \<le> hi * ?T"
    unfolding filled_exact(1) [OF assms(1)]
    by (rule weighted_bounds) (use assms(1,4) in \<open>auto simp: book_inv_def\<close>)
  with T have "lo \<le> ?N / ?T" "?N / ?T \<le> hi" by (simp_all add: le_divide_eq divide_le_eq)
  then have "lo \<le> rnd (?N / ?T)" "rnd (?N / ?T) \<le> hi"
    using dec.ge_ok [OF assms(5)] dec.le_ok [OF assms(6)] by blast+
  with avg show ?thesis by blast
qed

definition demo_book2 :: fill_book where
  "demo_book2 = \<lparr>requested = 100,
     fills = [demo_fill 40 (1002/10) (Some ''d1''), demo_fill 60 (10025/100) (Some ''d2'')]\<rparr>"

theorem average_price_between_witness:
  "average_price demo_book2 = Some (10023/100) \<and> (1002/10 :: rat) \<le> 10023/100"
proof -
  have inv: "book_inv demo_book2" by (simp add: book_inv_def demo_book2_def demo_fill_def)
  have no: "notional_ok demo_book2"
    by (simp add: notional_ok_def demo_book2_def demo_fill_def)
  have r: "repr (1002/10)" "repr (10025/100)"
    using repr_fraction [of 1002 1] repr_fraction [of 10025 2] by simp_all
  have "\<exists>p. average_price demo_book2 = Some p \<and> 1002/10 \<le> p \<and> p \<le> 10025/100"
    by (rule average_price_between [OF inv no _ _ r]) (simp_all add: demo_book2_def demo_fill_def)
  moreover have "average_price demo_book2 = Some (10023/100)"
    by code_simp
  ultimately show ?thesis by auto
qed

text \<open>The average does not depend on the order in which the reports arrived: two books
  with the same fills in any order report the same filled quantity and the same average
  price.\<close>

theorem average_price_order_independent:
  assumes "book_inv b" "notional_ok b" "mset (fills c) = mset (fills b)" "requested c = requested b"
  shows "filled_quantity c = filled_quantity b \<and> average_price c = average_price b"
proof -
  have sums: "sum_list (map g (fills c)) = sum_list (map g (fills b))" for g :: "fill_record \<Rightarrow> rat"
    using assms(3) by (metis mset_map sum_mset_sum_list)
  have inv: "book_inv c" "notional_ok c"
    using assms sums mset_eq_setD [OF assms(3)] by (simp_all add: book_inv_def notional_ok_def)
  have f: "filled_quantity c = filled_quantity b"
    by (simp add: filled_exact inv assms sums)
  then show ?thesis
    using assms inv sums [of "\<lambda>f. fr_quantity f * fr_price f"]
    by (simp add: average_price_def Let_def notional_exact)
qed

theorem average_price_order_independent_witness:
  "average_price (demo_book2\<lparr>fills := rev (fills demo_book2)\<rparr>) = average_price demo_book2"
proof -
  have inv: "book_inv demo_book2" by (simp add: book_inv_def demo_book2_def demo_fill_def)
  have no: "notional_ok demo_book2" by (simp add: notional_ok_def demo_book2_def demo_fill_def)
  show ?thesis
    using average_price_order_independent [OF inv no, of "demo_book2\<lparr>fills := rev (fills demo_book2)\<rparr>"]
    by simp
qed

end
