(* ===== verification/Order_State.thy ===== *)
theory Order_State
  imports Prelude
begin

text \<open>
  The order state machine, \<open>backend/app/oms/state.py\<close>: the twelve states, the legal
  moves and the four classes of states, and what follows from the edges alone. The
  orders table's vocabulary (\<open>models/execution.py\<close>) is here too, because the module
  refuses to import when a state is missing from it.
\<close>

datatype order_status =
    Intent | Submitting | Submitted | Accepted | Partially_filled | Filled
  | Cancel_requested | Cancelled | Rejected | Expired | Failed | Unknown

fun status_value :: "order_status \<Rightarrow> string" where
  "status_value Intent = ''intent''"
| "status_value Submitting = ''submitting''"
| "status_value Submitted = ''submitted''"
| "status_value Accepted = ''accepted''"
| "status_value Partially_filled = ''partially_filled''"
| "status_value Filled = ''filled''"
| "status_value Cancel_requested = ''cancel_requested''"
| "status_value Cancelled = ''cancelled''"
| "status_value Rejected = ''rejected''"
| "status_value Expired = ''expired''"
| "status_value Failed = ''failed''"
| "status_value Unknown = ''unknown''"

definition all_statuses :: "order_status list" where
  "all_statuses = [Intent, Submitting, Submitted, Accepted, Partially_filled, Filled,
     Cancel_requested, Cancelled, Rejected, Expired, Failed, Unknown]"

fun transitions :: "order_status \<Rightarrow> order_status set" where
  "transitions Intent = {Submitting, Submitted, Rejected, Cancelled, Failed}"
| "transitions Submitting = {Submitted, Rejected, Failed, Unknown, Accepted}"
| "transitions Submitted =
     {Accepted, Partially_filled, Filled, Cancel_requested, Rejected, Expired, Unknown}"
| "transitions Accepted =
     {Partially_filled, Filled, Cancel_requested, Cancelled, Rejected, Expired, Unknown}"
| "transitions Partially_filled =
     {Partially_filled, Filled, Cancel_requested, Cancelled, Expired, Unknown}"
| "transitions Cancel_requested = {Cancelled, Filled, Partially_filled, Accepted, Unknown}"
| "transitions Filled = {}"
| "transitions Rejected = {}"
| "transitions Cancelled = {}"
| "transitions Expired = {}"
| "transitions Failed = {}"
| "transitions Unknown =
     {Filled, Partially_filled, Cancelled, Rejected, Expired, Failed, Accepted}"

definition TERMINAL :: "order_status set" where
  "TERMINAL = {Filled, Rejected, Cancelled, Expired, Failed}"

definition OPEN :: "order_status set" where
  "OPEN = {Intent, Submitting, Submitted, Accepted, Partially_filled, Cancel_requested}"

definition NEEDS_RECONCILIATION :: "order_status set" where
  "NEEDS_RECONCILIATION = {Unknown, Submitting}"

definition SAFE_TO_RESEND :: "order_status set" where
  "SAFE_TO_RESEND = {Failed}"

lemmas status_classes [sm_defs] =
  TERMINAL_def OPEN_def NEEDS_RECONCILIATION_def SAFE_TO_RESEND_def

text \<open>\<open>check_transition\<close> returns or raises \<open>IllegalOrderTransition\<close>.\<close>

definition check_transition :: "order_status \<Rightarrow> order_status \<Rightarrow> (order_status \<times> order_status) + unit" where
  "check_transition current wanted =
     (if wanted \<notin> transitions current then Inl (current, wanted) else Inr ())"

definition is_terminal :: "order_status \<Rightarrow> bool" where
  "is_terminal s \<longleftrightarrow> s \<in> TERMINAL"

definition can_resend :: "order_status \<Rightarrow> bool" where
  "can_resend s \<longleftrightarrow> s \<in> SAFE_TO_RESEND"

lemma check_transition_Inr [simp]: "check_transition s t = Inr () \<longleftrightarrow> t \<in> transitions s"
  by (simp add: check_transition_def)

section \<open>The step relation\<close>

inductive ostep :: "order_status \<Rightarrow> order_status \<Rightarrow> bool" where
  move: "check_transition s t = Inr () \<Longrightarrow> ostep s t"

inductive_simps ostep_iff: "ostep s t"

lemma ostep_transitions: "ostep s t \<longleftrightarrow> t \<in> transitions s"
  by (simp add: ostep_iff)

lemma all_statuses_complete: "set all_statuses = UNIV"
  by (auto simp: all_statuses_def intro: order_status.exhaust)

lemma status_partition:
  "s \<in> TERMINAL \<or> s \<in> OPEN \<or> s = Unknown"
  "TERMINAL \<inter> OPEN = {}" "Unknown \<notin> TERMINAL" "Unknown \<notin> OPEN"
  by (cases s) (auto simp: status_classes)

lemma terminal_iff: "s \<in> TERMINAL \<longleftrightarrow> transitions s = {}"
  by (cases s) (auto simp: status_classes)

lemma terminal_no_step: "s \<in> TERMINAL \<Longrightarrow> \<not> ostep s t"
  by (simp add: ostep_transitions terminal_iff)

lemma terminal_absorbing: "ostep\<^sup>*\<^sup>* s t \<Longrightarrow> s \<in> TERMINAL \<Longrightarrow> t = s"
  by (induction rule: converse_rtranclp_induct) (auto dest: terminal_no_step)

text \<open>Acknowledged states: the venue has been told of the order, as far as the record knows.\<close>

definition at_venue :: "order_status set" where
  "at_venue = {Submitted, Accepted, Partially_filled, Cancel_requested}"

text \<open>A run that never passes through \<open>Unknown\<close> (reconciliation).\<close>

inductive known_run :: "order_status \<Rightarrow> order_status \<Rightarrow> bool" where
  refl: "known_run s s"
| step: "known_run s t \<Longrightarrow> ostep t u \<Longrightarrow> u \<noteq> Unknown \<Longrightarrow> known_run s u"

inductive_cases known_runE: "known_run s t"

lemma known_run_from_venue:
  "known_run s t \<Longrightarrow> s \<in> at_venue \<Longrightarrow> t \<in> at_venue \<union> {Filled, Cancelled, Rejected, Expired}"
proof (induction rule: known_run.induct)
  case (step s t u)
  then show ?case by (cases t) (auto simp: ostep_transitions at_venue_def)
qed auto

lemma reaches_terminal: "\<exists>t \<in> TERMINAL. ostep\<^sup>*\<^sup>* s t"
proof (cases "s \<in> TERMINAL")
  case False
  then have "Failed \<in> transitions s \<or> Filled \<in> transitions s"
    by (cases s) (simp_all add: TERMINAL_def)
  moreover have "Failed \<in> TERMINAL" "Filled \<in> TERMINAL" by (simp_all add: TERMINAL_def)
  ultimately show ?thesis by (blast intro: r_into_rtranclp ostep_transitions [THEN iffD2])
qed blast

section \<open>Properties\<close>

text \<open>Terminal means terminal. However many legal moves are made, an order that is
  filled, rejected, cancelled, expired or failed stays in that state, and those five are
  the only states with no way out.\<close>

theorem terminal_is_terminal: "is_terminal s \<longleftrightarrow> {t. ostep\<^sup>*\<^sup>* s t} = {s}"
proof
  assume "is_terminal s"
  then show "{t. ostep\<^sup>*\<^sup>* s t} = {s}" by (auto simp: is_terminal_def dest: terminal_absorbing)
next
  assume stuck: "{t. ostep\<^sup>*\<^sup>* s t} = {s}"
  obtain t where "t \<in> TERMINAL" "ostep\<^sup>*\<^sup>* s t" using reaches_terminal by blast
  with stuck show "is_terminal s" by (auto simp: is_terminal_def)
qed

text \<open>C1: a fresh order for the same intent is safe only after \<open>failed\<close>, and an order the
  venue has been told of becomes \<open>failed\<close> only through \<open>unknown\<close>, that is through
  reconciliation: no run of legal moves that avoids \<open>unknown\<close> leads from an acknowledged
  state to one from which a resend is allowed.\<close>

theorem resend_needs_reconciliation:
  assumes "known_run s t" and "s \<in> at_venue"
  shows "\<not> can_resend t"
  using known_run_from_venue [OF assms] by (auto simp: can_resend_def SAFE_TO_RESEND_def at_venue_def)

theorem resend_needs_reconciliation_witness:
  "known_run Submitted Cancelled \<and> \<not> can_resend Cancelled"
proof -
  have "known_run Submitted Accepted"
    by (rule known_run.step [OF known_run.refl]) (simp_all add: ostep_transitions)
  then have run: "known_run Submitted Cancelled"
    by (rule known_run.step) (simp_all add: ostep_transitions)
  moreover have "Submitted \<in> at_venue" by (simp add: at_venue_def)
  ultimately show ?thesis using resend_needs_reconciliation [of Submitted Cancelled] by blast
qed

end
