(* ===== verification/Managed_Order.thy ===== *)
theory Managed_Order
  imports Fills Order_State
begin

text \<open>
  The managed order, \<open>backend/app/oms/order.py\<close>: the record the order manager moves
  through the state machine, its transition log, and the only two ways it changes, \<open>move\<close>
  and \<open>record_fill\<close>.

  A Python method that may raise returns here the exception or the value together with the
  order as the exception leaves it: the order object is mutable, so what had been written
  before the raise stays written. The \<open>risk\<close> and \<open>sizing\<close> snapshots (free-form dictionaries
  for the audit record that no operation reads) and the rendering methods are left out; the
  texts of reasons are kept as a list of fragments, and their cut at 500 characters is not
  modelled.
\<close>

datatype frag = Txt string | Num rat | Whole int

type_synonym note_text = "frag list"

text \<open>Who caused a transition (\<open>SOURCES\<close>).\<close>

definition SOURCES :: "string list" where
  "SOURCES = [''pipeline'', ''operator'', ''broker'', ''reconciliation'', ''recovery'', ''expiry'']"

record order_transition =
  tr_at :: time
  tr_previous :: order_status
  tr_new :: order_status
  tr_source :: string
  tr_reason :: note_text
  tr_broker_order_id :: "string option"
  tr_retcode :: "int option"

record managed_order =
  oid :: string
  client_order_id :: string
  account_id :: string
  symbol :: string
  side :: string
  quantity :: rat
  order_mode :: string
  created_at :: time
  order_type :: string
  time_in_force :: string
  status :: order_status
  broker_order_id :: "string option"
  order_broker :: "string option"
  requested_price :: "rat option"
  stop_loss :: "rat option"
  take_profit :: "rat option"
  signal_id :: "string option"
  strategy_id :: "string option"
  bot_id :: "string option"
  risk_decision_id :: "string option"
  expires_at :: "time option"
  submitted_at :: "time option"
  acknowledged_at :: "time option"
  order_filled_at :: "time option"
  cancelled_at :: "time option"
  reject_reason :: "note_text option"
  error_code :: "note_text option"
  transition_log :: "order_transition list"
  book :: fill_book

datatype order_error =
    IllegalOrderTransition order_status order_status
  | UnknownSource string
  | FillRefused fill_error

text \<open>The derived properties \<open>terminal\<close>, \<open>open\<close> and \<open>needs_reconciliation\<close>.\<close>

definition order_terminal :: "managed_order \<Rightarrow> bool" where
  "order_terminal ord \<longleftrightarrow> status ord \<in> TERMINAL"

definition order_open :: "managed_order \<Rightarrow> bool" where
  "order_open ord \<longleftrightarrow> status ord \<in> OPEN"

definition needs_reconciliation :: "managed_order \<Rightarrow> bool" where
  "needs_reconciliation ord \<longleftrightarrow> status ord \<in> NEEDS_RECONCILIATION"

text \<open>\<open>_stamp\<close>: a milestone is recorded once.\<close>

definition stamp :: "managed_order \<Rightarrow> order_status \<Rightarrow> time \<Rightarrow> managed_order" where
  "stamp ord st t =
     (if st = Submitted \<and> submitted_at ord = None then ord\<lparr>submitted_at := Some t\<rparr>
      else if st = Accepted \<and> acknowledged_at ord = None then ord\<lparr>acknowledged_at := Some t\<rparr>
      else if st = Filled \<and> order_filled_at ord = None then ord\<lparr>order_filled_at := Some t\<rparr>
      else if st = Cancelled \<and> cancelled_at ord = None then ord\<lparr>cancelled_at := Some t\<rparr>
      else ord)"

definition move_order ::
    "managed_order \<Rightarrow> order_status \<Rightarrow> time \<Rightarrow> string \<Rightarrow> note_text \<Rightarrow> int option
     \<Rightarrow> (order_error + unit) \<times> managed_order" where
  "move_order ord wanted t source reason retcode =
     (case check_transition (status ord) wanted of
        Inl (c, w) \<Rightarrow> (Inl (IllegalOrderTransition c w), ord)
      | Inr _ \<Rightarrow>
          if source \<notin> set SOURCES then (Inl (UnknownSource source), ord)
          else (Inr (), stamp (ord\<lparr>status := wanted,
                  transition_log := transition_log ord @
                    [\<lparr>tr_at = t, tr_previous = status ord, tr_new = wanted, tr_source = source,
                      tr_reason = reason, tr_broker_order_id = broker_order_id ord,
                      tr_retcode = retcode\<rparr>]\<rparr>) wanted t))"

text \<open>
  \<open>record_fill\<close>: a deal already in the book is reported, not applied. Otherwise the book is
  changed first and the state is then derived from it, so a move that is not legal raises
  after the fill has been appended.
\<close>

definition fill_state :: "fill_book \<Rightarrow> order_status" where
  "fill_state b = (if complete b then Filled else Partially_filled)"

definition fill_detail :: "managed_order \<Rightarrow> fill_book \<Rightarrow> fill_record \<Rightarrow> note_text" where
  "fill_detail ord b f = [Num (fr_quantity f), Txt '' at '', Num (fr_price f), Txt '' ('',
     Num (filled_quantity b), Txt ''/'', Num (quantity ord), Txt '' filled)'']"

definition record_fill ::
    "managed_order \<Rightarrow> fill_record \<Rightarrow> time \<Rightarrow> string \<Rightarrow> (order_error + bool) \<times> managed_order" where
  "record_fill ord f t source =
     (if already_recorded (book ord) (fr_deal f) then (Inr False, ord)
      else case add_fill (book ord) f of
        Inl e \<Rightarrow> (Inl (FillRefused e), ord)
      | Inr b \<Rightarrow>
          (case move_order (ord\<lparr>book := b\<rparr>) (fill_state b) t source (fill_detail ord b f) None of
             (Inl e, ord2) \<Rightarrow> (Inl e, ord2)
           | (Inr _, ord2) \<Rightarrow> (Inr True, ord2)))"

section \<open>Moves\<close>

lemma stamp_simps [simp]:
  "status (stamp ord st t) = status ord" "book (stamp ord st t) = book ord"
  "transition_log (stamp ord st t) = transition_log ord" "oid (stamp ord st t) = oid ord"
  "client_order_id (stamp ord st t) = client_order_id ord" "quantity (stamp ord st t) = quantity ord"
  "broker_order_id (stamp ord st t) = broker_order_id ord" "side (stamp ord st t) = side ord"
  "symbol (stamp ord st t) = symbol ord" "order_mode (stamp ord st t) = order_mode ord"
  "expires_at (stamp ord st t) = expires_at ord" "stop_loss (stamp ord st t) = stop_loss ord"
  "take_profit (stamp ord st t) = take_profit ord" "error_code (stamp ord st t) = error_code ord"
  "account_id (stamp ord st t) = account_id ord" "order_type (stamp ord st t) = order_type ord"
  "reject_reason (stamp ord st t) = reject_reason ord" "created_at (stamp ord st t) = created_at ord"
  "risk_decision_id (stamp ord st t) = risk_decision_id ord"
  by (simp_all add: stamp_def)

lemma move_order_cases:
  obtains (ok) ord' where "move_order ord w t src r rc = (Inr (), ord')"
      "w \<in> transitions (status ord)" "src \<in> set SOURCES" "status ord' = w"
  | (illegal) "move_order ord w t src r rc = (Inl (IllegalOrderTransition (status ord) w), ord)"
      "w \<notin> transitions (status ord)"
  | (source) "move_order ord w t src r rc = (Inl (UnknownSource src), ord)"
      "w \<in> transitions (status ord)" "src \<notin> set SOURCES"
  by (cases "w \<in> transitions (status ord)"; cases "src \<in> set SOURCES")
     (auto simp: move_order_def check_transition_def)

lemma move_order_ok:
  assumes "w \<in> transitions (status ord)" "src \<in> set SOURCES"
  shows "move_order ord w t src r rc = (Inr (), snd (move_order ord w t src r rc))"
  using assms by (simp add: move_order_def check_transition_def)

lemma move_order_illegal:
  "w \<notin> transitions (status ord) \<Longrightarrow>
   move_order ord w t src r rc = (Inl (IllegalOrderTransition (status ord) w), ord)"
  by (simp add: move_order_def check_transition_def)

lemma move_order_frame [simp]:
  "book (snd (move_order ord w t src r rc)) = book ord"
  "quantity (snd (move_order ord w t src r rc)) = quantity ord"
  "oid (snd (move_order ord w t src r rc)) = oid ord"
  "client_order_id (snd (move_order ord w t src r rc)) = client_order_id ord"
  "broker_order_id (snd (move_order ord w t src r rc)) = broker_order_id ord"
  "symbol (snd (move_order ord w t src r rc)) = symbol ord"
  "side (snd (move_order ord w t src r rc)) = side ord"
  "order_mode (snd (move_order ord w t src r rc)) = order_mode ord"
  "account_id (snd (move_order ord w t src r rc)) = account_id ord"
  "order_type (snd (move_order ord w t src r rc)) = order_type ord"
  "stop_loss (snd (move_order ord w t src r rc)) = stop_loss ord"
  "take_profit (snd (move_order ord w t src r rc)) = take_profit ord"
  "expires_at (snd (move_order ord w t src r rc)) = expires_at ord"
  "error_code (snd (move_order ord w t src r rc)) = error_code ord"
  by (simp_all add: move_order_def check_transition_def)

lemma move_order_status:
  "status (snd (move_order ord w t src r rc)) =
     (if w \<in> transitions (status ord) \<and> src \<in> set SOURCES then w else status ord)"
  by (simp add: move_order_def check_transition_def)

lemma move_order_log:
  "transition_log (snd (move_order ord w t src r rc)) =
     (if w \<in> transitions (status ord) \<and> src \<in> set SOURCES
      then transition_log ord @ [\<lparr>tr_at = t, tr_previous = status ord, tr_new = w, tr_source = src,
        tr_reason = r, tr_broker_order_id = broker_order_id ord, tr_retcode = rc\<rparr>]
      else transition_log ord)"
  by (simp add: move_order_def check_transition_def)

section \<open>The audit trail\<close>

text \<open>
  The log is a chain: it starts at \<open>Intent\<close>, each entry starts where the one before ended,
  each is a legal move or leaves the state alone (a modification), each has a known source,
  and the last one ends in the order's state.
\<close>

fun log_chain :: "order_status \<Rightarrow> order_transition list \<Rightarrow> order_status \<Rightarrow> bool" where
  "log_chain s [] u \<longleftrightarrow> s = u"
| "log_chain s (e # es) u \<longleftrightarrow> tr_previous e = s
     \<and> (tr_new e \<in> transitions s \<or> tr_new e = s) \<and> tr_source e \<in> set SOURCES \<and> log_chain (tr_new e) es u"

definition audit_ok :: "managed_order \<Rightarrow> bool" where
  "audit_ok ord \<longleftrightarrow> log_chain Intent (transition_log ord) (status ord)"

lemma log_chain_append: "log_chain s (es @ fs) u \<longleftrightarrow> (\<exists>m. log_chain s es m \<and> log_chain m fs u)"
  by (induction s es u rule: log_chain.induct) auto

lemma log_chain_reach: "log_chain s es u \<Longrightarrow> ostep\<^sup>*\<^sup>* s u"
proof (induction s es u rule: log_chain.induct)
  case (2 s e es u)
  then have "ostep\<^sup>*\<^sup>* s (tr_new e)" by (auto simp: ostep_transitions)
  moreover have "ostep\<^sup>*\<^sup>* (tr_new e) u" using 2 by simp
  ultimately show ?case by (rule rtranclp_trans)
qed simp

lemma move_order_audit:
  "audit_ok ord \<Longrightarrow> audit_ok (snd (move_order ord w t src r rc))"
  by (auto simp: audit_ok_def move_order_log move_order_status log_chain_append)

lemma record_fill_book_only: "audit_ok ord \<Longrightarrow> audit_ok (ord\<lparr>book := b\<rparr>)"
  by (simp add: audit_ok_def)

lemma record_fill_audit: "audit_ok ord \<Longrightarrow> audit_ok (snd (record_fill ord f t src))"
  by (auto simp: record_fill_def split: sum.splits prod.splits
      dest: move_order_audit [OF record_fill_book_only]) (metis move_order_audit record_fill_book_only snd_conv)+

text \<open>Both operations only ever append to the log.\<close>

lemma move_order_log_prefix:
  "\<exists>es. transition_log (snd (move_order ord w t src r rc)) = transition_log ord @ es"
  by (simp add: move_order_log)

section \<open>Fills\<close>

definition takes_fills :: "order_status set" where
  "takes_fills = {Submitted, Accepted, Partially_filled, Cancel_requested, Unknown}"

lemma takes_fills_iff:
  "s \<in> takes_fills \<longleftrightarrow> Filled \<in> transitions s \<and> Partially_filled \<in> transitions s"
  by (cases s) (auto simp: takes_fills_def)

lemma takes_no_fills: "s \<notin> takes_fills \<Longrightarrow> Filled \<notin> transitions s \<and> Partially_filled \<notin> transitions s"
  by (cases s) (auto simp: takes_fills_def)

lemma record_fill_duplicate:
  "already_recorded (book ord) (fr_deal f) \<Longrightarrow> record_fill ord f t src = (Inr False, ord)"
  by (simp add: record_fill_def)

lemma record_fill_refused:
  "\<not> already_recorded (book ord) (fr_deal f) \<Longrightarrow> add_fill (book ord) f = Inl e
   \<Longrightarrow> record_fill ord f t src = (Inl (FillRefused e), ord)"
  by (simp add: record_fill_def)

lemma record_fill_added:
  "\<not> already_recorded (book ord) (fr_deal f) \<Longrightarrow> add_fill (book ord) f = Inr b \<Longrightarrow>
   record_fill ord f t src =
     (let m = move_order (ord\<lparr>book := b\<rparr>) (fill_state b) t src (fill_detail ord b f) None
      in (map_sum id (\<lambda>_. True) (fst m), snd m))"
  by (auto simp: record_fill_def Let_def split: prod.splits sum.splits)

lemma record_fill_applied:
  assumes "\<not> already_recorded (book ord) (fr_deal f)" "add_fill (book ord) f = Inr b"
    and "status ord \<in> takes_fills" "src \<in> set SOURCES"
  obtains ord' where "record_fill ord f t src = (Inr True, ord')" "book ord' = b"
    "status ord' = fill_state b" "quantity ord' = quantity ord"
proof -
  let ?m = "move_order (ord\<lparr>book := b\<rparr>) (fill_state b) t src (fill_detail ord b f) None"
  have w: "fill_state b \<in> transitions (status ord)"
    using assms(3) by (auto simp: takes_fills_iff fill_state_def)
  have m: "?m = (Inr (), snd ?m)" by (rule move_order_ok) (use w assms(4) in auto)
  have "record_fill ord f t src = (Inr True, snd ?m)"
    unfolding record_fill_added [OF assms(1,2)] Let_def by (subst m) simp
  moreover have "status (snd ?m) = fill_state b" using w assms(4) by (simp add: move_order_status)
  ultimately show ?thesis by (intro that [of "snd ?m"]) simp_all
qed

text \<open>The order invariant of the fill accounting: the book is for the order's own quantity.\<close>

definition order_inv :: "managed_order \<Rightarrow> bool" where
  "order_inv ord \<longleftrightarrow> book_inv (book ord) \<and> requested (book ord) = quantity ord"

definition fill_ok :: "fill_record \<Rightarrow> bool" where
  "fill_ok f \<longleftrightarrow> qty_ok (fr_quantity f) \<and> 0 < fr_price f"

lemma record_fill_inv:
  assumes "order_inv ord" "fill_ok f"
  shows "order_inv (snd (record_fill ord f t src))"
proof (cases "already_recorded (book ord) (fr_deal f)")
  case False
  show ?thesis
  proof (cases "add_fill (book ord) f")
    case (Inr b)
    have b: "book_inv b" "requested b = quantity ord"
      using assms add_fill_inv [OF _ _ _ Inr] Inr
      by (auto simp: order_inv_def fill_ok_def add_fill_def split: if_splits)
    show ?thesis using b by (simp add: record_fill_added [OF False Inr] Let_def order_inv_def)
  qed (use False assms in \<open>simp add: record_fill_def\<close>)
qed (use assms in \<open>simp add: record_fill_def\<close>)

lemma record_fill_TrueE:
  assumes "record_fill ord f t src = (Inr True, ord')"
  obtains b where "add_fill (book ord) f = Inr b" "book ord' = b" "status ord' = fill_state b"
proof -
  obtain b where nb: "\<not> already_recorded (book ord) (fr_deal f)" and b: "add_fill (book ord) f = Inr b"
    using assms by (auto simp: record_fill_def split: if_splits sum.splits)
  let ?m = "move_order (ord\<lparr>book := b\<rparr>) (fill_state b) t src (fill_detail ord b f) None"
  have m: "ord' = snd ?m" "\<exists>u. fst ?m = Inr u"
    using assms unfolding record_fill_added [OF nb b] Let_def by (cases "fst ?m"; simp)+
  then have "status ord' = fill_state b"
    by (cases rule: move_order_cases [of "ord\<lparr>book := b\<rparr>" "fill_state b" t src "fill_detail ord b f" None])
       auto
  with that [OF b] m(1) show ?thesis by simp
qed

section \<open>Runs of operations\<close>

text \<open>
  What a caller may do to an order: ask for a move or report a fill. A call that raises is
  caught by somebody, and the order stays as the exception left it.
\<close>

datatype order_op =
    Move order_status time string note_text "int option"
  | Report fill_record time string

fun apply_op :: "managed_order \<Rightarrow> order_op \<Rightarrow> managed_order" where
  "apply_op ord (Move w t src r rc) = snd (move_order ord w t src r rc)"
| "apply_op ord (Report f t src) = snd (record_fill ord f t src)"

definition run_ops :: "managed_order \<Rightarrow> order_op list \<Rightarrow> managed_order" where
  "run_ops ord ops = foldl apply_op ord ops"

lemma apply_op_audit: "audit_ok ord \<Longrightarrow> audit_ok (apply_op ord x)"
  by (cases x) (auto intro: move_order_audit record_fill_audit)

lemma record_fill_log_prefix:
  "\<exists>es. transition_log (snd (record_fill ord f t src)) = transition_log ord @ es"
proof (cases "already_recorded (book ord) (fr_deal f)")
  case False
  show ?thesis
  proof (cases "add_fill (book ord) f")
    case (Inr b)
    then show ?thesis using move_order_log_prefix [of "ord\<lparr>book := b\<rparr>"]
      by (simp add: record_fill_added [OF False] Let_def)
  qed (use False in \<open>simp add: record_fill_def\<close>)
qed (simp add: record_fill_def)

lemma apply_op_log_prefix: "\<exists>es. transition_log (apply_op ord x) = transition_log ord @ es"
  by (cases x) (simp_all add: move_order_log_prefix record_fill_log_prefix)

lemma run_ops_log_prefix: "\<exists>es. transition_log (run_ops ord ops) = transition_log ord @ es"
proof (induction ops arbitrary: ord)
  case (Cons x ops)
  from apply_op_log_prefix [of ord x] Cons [of "apply_op ord x"] show ?case
    by (auto simp: run_ops_def)
qed (simp add: run_ops_def)

lemma run_ops_audit: "audit_ok ord \<Longrightarrow> audit_ok (run_ops ord ops)"
  unfolding run_ops_def by (rule foldl_invariant [where P = audit_ok]) (auto intro: apply_op_audit)

definition fresh_order :: "managed_order \<Rightarrow> bool" where
  "fresh_order ord \<longleftrightarrow> status ord = Intent \<and> transition_log ord = []"

definition demo_order :: managed_order where
  "demo_order = \<lparr>oid = ''o1'', client_order_id = ''i1'', account_id = ''a1'', symbol = ''EURUSD'',
     side = ''buy'', quantity = 100, order_mode = ''demo'', created_at = 0, order_type = ''market'',
     time_in_force = ''gtc'', status = Intent, broker_order_id = None, order_broker = None,
     requested_price = None, stop_loss = Some 1, take_profit = None, signal_id = None,
     strategy_id = None, bot_id = None, risk_decision_id = Some ''d'', expires_at = None,
     submitted_at = None, acknowledged_at = None, order_filled_at = None, cancelled_at = None,
     reject_reason = None, error_code = None, transition_log = [],
     book = \<lparr>requested = 100, fills = []\<rparr>\<rparr>"

section \<open>Properties\<close>

text \<open>The audit trail is the truth. Whatever is asked of a fresh order, refused calls
  included, its log is an unbroken chain of legal moves with known authors from \<open>intent\<close> to
  the state the order is in, and what was logged before is never rewritten.\<close>

theorem audit_trail_sound:
  assumes "fresh_order ord"
  shows "log_chain Intent (transition_log (run_ops ord (xs @ ys))) (status (run_ops ord (xs @ ys)))
    \<and> (\<exists>es. transition_log (run_ops ord (xs @ ys)) = transition_log (run_ops ord xs) @ es)
    \<and> ostep\<^sup>*\<^sup>* Intent (status (run_ops ord (xs @ ys)))"
proof -
  have "audit_ok ord" using assms by (simp add: fresh_order_def audit_ok_def)
  then have c: "log_chain Intent (transition_log (run_ops ord (xs @ ys))) (status (run_ops ord (xs @ ys)))"
    using run_ops_audit by (simp add: audit_ok_def)
  moreover have "run_ops ord (xs @ ys) = run_ops (run_ops ord xs) ys" by (simp add: run_ops_def)
  ultimately show ?thesis using run_ops_log_prefix [of "run_ops ord xs" ys] log_chain_reach by auto
qed

theorem audit_trail_sound_witness:
  "fresh_order demo_order
   \<and> status (run_ops demo_order [Move Submitted 1 ''pipeline'' [] None, Move Intent 2 ''broker'' [] None,
       Report (demo_fill 100 1 (Some ''d'')) 3 ''broker'']) = Filled
   \<and> ostep\<^sup>*\<^sup>* Intent Filled"
proof -
  let ?xs = "[Move Submitted 1 ''pipeline'' [] None, Move Intent 2 ''broker'' [] None]"
  let ?ys = "[Report (demo_fill 100 1 (Some ''d'')) 3 ''broker'']"
  have f: "fresh_order demo_order" by (simp add: fresh_order_def demo_order_def)
  have s: "status (run_ops demo_order (?xs @ ?ys)) = Filled" by code_simp
  show ?thesis using audit_trail_sound [OF f, of ?xs ?ys] f s by simp
qed


definition demo_accepted :: managed_order where
  "demo_accepted = demo_order\<lparr>status := Accepted\<rparr>"

lemma demo_accepted_inv: "order_inv demo_accepted"
  by (simp add: order_inv_def book_inv_def demo_accepted_def demo_order_def)


text \<open>A report for an order that has already ended is half applied. On a cancelled, expired,
  rejected or failed order with room in its book the call raises, because no move out of
  the state is legal, but the book keeps the fill; the same report delivered again is then
  answered as a duplicate, so the fill is in the book of an order whose state denies it.\<close>

theorem late_fill_half_applied:
  assumes "order_inv ord" "fill_ok f" "status ord \<in> TERMINAL" "\<not> already_recorded (book ord) (fr_deal f)"
    and "fr_quantity f \<le> remaining_quantity (book ord)" "fr_deal f = Some d"
  shows "\<exists>ord' w. record_fill ord f t src = (Inl (IllegalOrderTransition (status ord) w), ord')
    \<and> status ord' = status ord \<and> transition_log ord' = transition_log ord
    \<and> filled_quantity (book ord') = filled_quantity (book ord) + fr_quantity f
    \<and> record_fill ord' f t' src = (Inr False, ord')"
proof -
  have q: "qty_ok (fr_quantity f)" "0 < fr_price f" "book_inv (book ord)"
    using assms by (auto simp: order_inv_def fill_ok_def)
  obtain b where b: "add_fill (book ord) f = Inr b" using assms(5) by (simp add: add_fill_def)
  have "fill_state b \<notin> transitions (status ord)" using assms(3) by (simp add: terminal_iff)
  then have m: "move_order (ord\<lparr>book := b\<rparr>) (fill_state b) t src r rc
      = (Inl (IllegalOrderTransition (status ord) (fill_state b)), ord\<lparr>book := b\<rparr>)" for r rc
    using move_order_illegal [of "fill_state b" "ord\<lparr>book := b\<rparr>"] by simp
  have "already_recorded b (fr_deal f)" using already_recorded_add [OF b assms(6)] assms(6) by simp
  then show ?thesis
    using add_fill_filled [OF q(3) q(1,2) b]
    by (intro exI [of _ "ord\<lparr>book := b\<rparr>"] exI [of _ "fill_state b"])
       (simp add: record_fill_added [OF assms(4) b] m Let_def record_fill_duplicate)
qed

theorem late_fill_half_applied_witness:
  "\<exists>ord' w. record_fill (demo_order\<lparr>status := Cancelled\<rparr>) (demo_fill 40 1 (Some ''d'')) 0 ''broker''
       = (Inl (IllegalOrderTransition Cancelled w), ord')
     \<and> status ord' = Cancelled \<and> filled_quantity (book ord') = 40"
proof -
  let ?o = "demo_order\<lparr>status := Cancelled\<rparr>" let ?f = "demo_fill 40 1 (Some ''d'')"
  have i: "order_inv ?o" by (simp add: order_inv_def book_inv_def demo_order_def)
  have f: "fill_ok ?f" by (simp add: fill_ok_def demo_fill_def)
  have bi: "book_inv (book ?o)" using i by (simp add: order_inv_def)
  have z: "filled_quantity (book ?o) = 0" by (simp add: filled_quantity_def dsum_def demo_order_def)
  have r: "fr_quantity ?f \<le> remaining_quantity (book ?o)"
    using remaining_exact [OF bi] z by (simp add: demo_fill_def demo_order_def)
  show ?thesis
    using late_fill_half_applied [OF i f _ _ r, of "''d''" 0 "''broker''" 0] z
    by (auto simp: TERMINAL_def demo_order_def already_recorded_def demo_fill_def)
qed

end
