(* ===== verification/Risk_Checks.thy ===== *)
theory Risk_Checks
  imports Decimals
begin

text \<open>
  The checks of the risk engine, \<open>backend/app/risk/engine.py\<close>: the limits, what the engine may
  know of the portfolio, the proposal, and \<open>_checks\<close>, one definition for each section of that
  function in the order it runs them. Details are the f-strings of the code as lists of
  their parts, so the figures a decision reports are part of the model. Times are
  microseconds; \<open>total_seconds()\<close> is an exact fraction of them.
\<close>

section \<open>Vocabulary\<close>

datatype limit_kind =
    Kill_switch_global | Kill_switch_account | Kill_switch_strategy | Trading_mode | Market_open
  | Signal_freshness | Duplicate_signal | Max_open_positions | One_position_per_symbol
  | Max_trades_per_day | Max_daily_loss | Max_weekly_loss | Max_consecutive_losses
  | Max_correlated_exposure | Max_drawdown | Max_exposure | Max_leverage | Max_risk_per_trade
  | Spread | Market_data | Account_state | Bot_state | Strategy_state | Symbol_state
  | Max_position_size | Max_concentration | Margin | Trade_frequency | Cooldown | Risk_reward
  | Position_size | Stop_loss_required

text \<open>The members in the order of the source, which is the order of \<open>for kind in LimitKind\<close>.\<close>

definition limit_kinds :: "limit_kind list" where
  "limit_kinds =
     [Kill_switch_global, Kill_switch_account, Kill_switch_strategy, Trading_mode, Market_open,
      Signal_freshness, Duplicate_signal, Max_open_positions, One_position_per_symbol,
      Max_trades_per_day, Max_daily_loss, Max_weekly_loss, Max_consecutive_losses,
      Max_correlated_exposure, Max_drawdown, Max_exposure, Max_leverage, Max_risk_per_trade,
      Spread, Market_data, Account_state, Bot_state, Strategy_state, Symbol_state,
      Max_position_size, Max_concentration, Margin, Trade_frequency, Cooldown, Risk_reward,
      Position_size, Stop_loss_required]"

lemma limit_kinds_distinct: "distinct limit_kinds"
  by (simp add: limit_kinds_def)

lemma limit_kinds_all [simp]: "k \<in> set limit_kinds"
  by (cases k) (simp_all add: limit_kinds_def)

instantiation limit_kind :: enum
begin

definition enum_limit_kind :: "limit_kind list" where
  "enum_limit_kind = limit_kinds"

definition enum_all_limit_kind :: "(limit_kind \<Rightarrow> bool) \<Rightarrow> bool" where
  "enum_all_limit_kind P = list_all P limit_kinds"

definition enum_ex_limit_kind :: "(limit_kind \<Rightarrow> bool) \<Rightarrow> bool" where
  "enum_ex_limit_kind P = list_ex P limit_kinds"

instance
  by intro_classes
    (auto simp: enum_limit_kind_def enum_all_limit_kind_def enum_ex_limit_kind_def
      limit_kinds_distinct list_all_iff list_ex_iff)

end

definition is_kill :: "limit_kind \<Rightarrow> bool" where \<comment> \<open>\<open>str(kind).startswith("kill_switch")\<close>\<close>
  "is_kill k \<longleftrightarrow> k \<in> {Kill_switch_global, Kill_switch_account, Kill_switch_strategy}"

text \<open>The parts of an f-string: literal text, a \<open>str | None\<close>, a number, a number that may be
  None, and a number printed with a fixed count of places.\<close>

datatype part = T string | S "string option" | N rat | NO "rat option" | Fixed nat rat

type_synonym detail = "part list"

record check_outcome =
  co_limit :: limit_kind
  passed :: bool
  detail :: detail
  enforced :: bool

definition mk :: "limit_kind \<Rightarrow> bool \<Rightarrow> detail \<Rightarrow> bool \<Rightarrow> check_outcome" where
  "mk k p d e = \<lparr>co_limit = k, passed = p, detail = d, enforced = e\<rparr>"

definition chk :: "limit_kind \<Rightarrow> bool \<Rightarrow> detail \<Rightarrow> check_outcome" where \<comment> \<open>\<open>add(limit, passed, detail)\<close>\<close>
  "chk k p d = mk k p d True"

definition unset :: "limit_kind \<Rightarrow> string \<Rightarrow> check_outcome" where \<comment> \<open>\<open>add(limit, True, detail, enforced=False)\<close>\<close>
  "unset k d = mk k True [T d] False"

lemma mk_sel [simp]:
  "co_limit (mk k p d e) = k" "passed (mk k p d e) = p" "detail (mk k p d e) = d" "enforced (mk k p d e) = e"
  "co_limit (chk k p d) = k" "passed (chk k p d) = p" "detail (chk k p d) = d" "enforced (chk k p d)"
  "co_limit (unset k s) = k" "passed (unset k s)" "\<not> enforced (unset k s)"
  by (simp_all add: mk_def chk_def unset_def)

section \<open>Limits, portfolio, proposal\<close>

record risk_limits =
  max_risk_per_trade :: "rat option"
  max_daily_loss :: "rat option"
  max_weekly_loss :: "rat option"
  max_consecutive_losses :: "int option"
  max_correlated_exposure :: "rat option"
  max_drawdown_pct :: "rat option"
  max_exposure_per_currency :: "rat option"
  max_open_positions :: "int option"
  max_trades_per_day :: "int option"
  max_leverage :: "rat option"
  max_trades_per_hour :: "int option"
  max_trades_per_minute :: "int option"
  max_position_size :: "rat option"
  max_concentration_pct :: "rat option"
  max_margin_utilisation_pct :: "rat option"
  min_risk_reward :: "rat option"
  cooldown_seconds :: "int option"
  market_data_max_age_seconds :: "rat option"
  one_position_per_symbol :: bool
  require_stop_loss :: bool
  require_market_open :: bool
  max_spread_points :: "rat option"
  max_signal_age_seconds :: "rat option"

definition default_limits :: risk_limits where
  "default_limits =
     \<lparr>max_risk_per_trade = None, max_daily_loss = None, max_weekly_loss = None,
      max_consecutive_losses = None, max_correlated_exposure = None, max_drawdown_pct = None,
      max_exposure_per_currency = None, max_open_positions = None, max_trades_per_day = None,
      max_leverage = None, max_trades_per_hour = None, max_trades_per_minute = None,
      max_position_size = None, max_concentration_pct = None, max_margin_utilisation_pct = None,
      min_risk_reward = None, cooldown_seconds = None, market_data_max_age_seconds = None,
      one_position_per_symbol = True, require_stop_loss = True, require_market_open = False,
      max_spread_points = None, max_signal_age_seconds = None\<rparr>"

record portfolio_state =
  equity :: "rat option"
  balance :: "rat option"
  margin_used :: "rat option"
  open_positions :: "int option"
  open_symbols :: "string list"
  realised_today :: "rat option"
  realised_week :: "rat option"
  consecutive_losses :: "int option"
  correlated_exposure :: "rat option"
  trades_today :: "int option"
  peak_equity :: "rat option"
  exposure_by_currency :: "string \<Rightarrow> rat option"
  margin_free :: "rat option"
  margin_required :: "rat option"
  largest_position_value :: "rat option"
  trades_last_hour :: "int option"
  trades_last_minute :: "int option"
  last_trade_at :: "time option"
  market_is_open :: "bool option"
  market_data_age_seconds :: "rat option"
  account_status :: "string option"
  bot_status :: "string option"
  strategy_enabled :: "bool option"
  symbol_tradable :: "bool option"

definition empty_portfolio :: portfolio_state where
  "empty_portfolio =
     \<lparr>equity = None, balance = None, margin_used = None, open_positions = None, open_symbols = [],
      realised_today = None, realised_week = None, consecutive_losses = None,
      correlated_exposure = None, trades_today = None, peak_equity = None,
      exposure_by_currency = Map.empty, margin_free = None, margin_required = None,
      largest_position_value = None, trades_last_hour = None, trades_last_minute = None,
      last_trade_at = None, market_is_open = None, market_data_age_seconds = None,
      account_status = None, bot_status = None, strategy_enabled = None, symbol_tradable = None\<rparr>"

record order_proposal =
  pp_symbol :: string
  pp_side :: string
  pp_mode :: string
  pp_volume :: "rat option"
  pp_entry_price :: "rat option"
  pp_stop_loss :: "rat option"
  pp_take_profit :: "rat option"
  pp_risk_amount :: "rat option"
  pp_spread_points :: "rat option"
  pp_account_id :: "string option"
  pp_strategy_id :: "string option"
  pp_signal_id :: "string option"
  pp_signal_time :: "time option"
  pp_base_currency :: "string option"
  pp_quote_currency :: "string option"

definition seconds :: "time \<Rightarrow> rat" where \<comment> \<open>\<open>timedelta.total_seconds()\<close>\<close>
  "seconds d = of_int d / 1000000"

section \<open>The checks\<close>

type_synonym check = "risk_limits \<Rightarrow> order_proposal \<Rightarrow> portfolio_state \<Rightarrow> time \<Rightarrow> check_outcome list"

definition chk_trading_mode :: check where
  "chk_trading_mode li p pf now =
     [chk Trading_mode (pp_mode p \<in> {''paper'', ''demo''}) [T ''mode '', T (pp_mode p)]]"

definition chk_duplicate_signal :: "string list \<Rightarrow> check" where
  "chk_duplicate_signal recent li p pf now =
     (if truthy (pp_signal_id p) then
        let duplicate = the (pp_signal_id p) \<in> set recent in
        [chk Duplicate_signal (\<not> duplicate)
          (if duplicate then [T ''signal '', S (pp_signal_id p), T '' already acted on'']
           else [T ''not a duplicate''])]
      else [])"

definition chk_signal_freshness :: check where
  "chk_signal_freshness li p pf now = (case max_signal_age_seconds li of
     None \<Rightarrow> [unset Signal_freshness ''no freshness limit set'']
   | Some mx \<Rightarrow> (case pp_signal_time p of
       None \<Rightarrow> [chk Signal_freshness False [T ''signal has no timestamp'']]
     | Some t \<Rightarrow> let age = seconds (now - t) in
         [chk Signal_freshness (age \<le> mx)
           [T ''signal is '', Fixed 0 age, T ''s old, limit '', Fixed 0 mx, T ''s'']]))"

definition chk_stop_loss :: check where
  "chk_stop_loss li p pf now =
     (if require_stop_loss li then
        [chk Stop_loss_required (pp_stop_loss p \<noteq> None)
          [T (if pp_stop_loss p \<noteq> None \<and> pp_stop_loss p \<noteq> Some 0 then ''stop loss present''
              else ''no stop loss on the proposal'')]]
      else [])"

definition chk_position_size :: check where
  "chk_position_size li p pf now =
     [chk Position_size (case pp_volume p of Some v \<Rightarrow> v > 0 | None \<Rightarrow> False)
       [T ''volume '', NO (pp_volume p)]]"

definition chk_one_position :: check where
  "chk_one_position li p pf now =
     (if one_position_per_symbol li then
        let clash = pp_symbol p \<in> set (open_symbols pf) in
        [chk One_position_per_symbol (\<not> clash)
          (if clash then [T (pp_symbol p), T '' already open''] else [T ''no open '', T (pp_symbol p)])]
      else [])"

definition chk_open_positions :: check where
  "chk_open_positions li p pf now = (case max_open_positions li of
     None \<Rightarrow> [unset Max_open_positions ''no limit set'']
   | Some mx \<Rightarrow> (case open_positions pf of
       None \<Rightarrow> [chk Max_open_positions False [T ''open position count is unknown'']]
     | Some n \<Rightarrow> [chk Max_open_positions (n < mx) [N (of_int n), T '' open, limit '', N (of_int mx)]]))"

definition chk_trades_per_day :: check where
  "chk_trades_per_day li p pf now = (case max_trades_per_day li of
     None \<Rightarrow> []
   | Some mx \<Rightarrow> (case trades_today pf of
       None \<Rightarrow> [chk Max_trades_per_day False [T ''today's trade count is unknown'']]
     | Some n \<Rightarrow> [chk Max_trades_per_day (n < mx) [N (of_int n), T '' today, limit '', N (of_int mx)]]))"

definition chk_daily_loss :: check where
  "chk_daily_loss li p pf now = (case max_daily_loss li of
     None \<Rightarrow> []
   | Some mx \<Rightarrow> (case realised_today pf of
       None \<Rightarrow> [chk Max_daily_loss False [T ''today's realised P&L is unknown'']]
     | Some x \<Rightarrow> let breached = x \<le> dneg (dabs mx) in
         [chk Max_daily_loss (\<not> breached) [T ''realised '', N x, T '', limit -'', N (dabs mx)]]))"

definition chk_weekly_loss :: check where
  "chk_weekly_loss li p pf now = (case max_weekly_loss li of
     None \<Rightarrow> []
   | Some mx \<Rightarrow> (case realised_week pf of
       None \<Rightarrow> [chk Max_weekly_loss False [T ''this week's realised P&L is unknown'']]
     | Some x \<Rightarrow> let breached = x \<le> dneg (dabs mx) in
         [chk Max_weekly_loss (\<not> breached) [T ''realised '', N x, T '', limit -'', N (dabs mx)]]))"

definition chk_consecutive_losses :: check where
  "chk_consecutive_losses li p pf now = (case max_consecutive_losses li of
     None \<Rightarrow> []
   | Some mx \<Rightarrow> (case consecutive_losses pf of
       None \<Rightarrow> [chk Max_consecutive_losses False [T ''the recent outcomes could not be counted'']]
     | Some n \<Rightarrow> let breached = n \<ge> mx in
         [chk Max_consecutive_losses (\<not> breached) [N (of_int n), T '' in a row, limit '', N (of_int mx)]]))"

definition chk_correlated_exposure :: check where
  "chk_correlated_exposure li p pf now = (case max_correlated_exposure li of
     None \<Rightarrow> []
   | Some mx \<Rightarrow> (case correlated_exposure pf of
       None \<Rightarrow> [chk Max_correlated_exposure False
         [T ''correlated exposure is unknown; a correlation needs a common window across two or more instruments'']]
     | Some x \<Rightarrow> let breached = x > mx in
         [chk Max_correlated_exposure (\<not> breached) [N x, T '' correlated, limit '', N mx]]))"

definition chk_drawdown :: check where
  "chk_drawdown li p pf now = (case max_drawdown_pct li of
     None \<Rightarrow> []
   | Some mx \<Rightarrow> (case (equity pf, peak_equity pf) of
       (Some eq, Some peak) \<Rightarrow>
         if peak \<le> 0 then [chk Max_drawdown False [T ''equity or peak equity is unknown'']]
         else let dd = dmul (ddiv (dsub peak eq) peak) 100 in
           [chk Max_drawdown (dd < mx) [T ''drawdown '', Fixed 2 dd, T ''%, limit '', N mx, T ''%'']]
     | _ \<Rightarrow> [chk Max_drawdown False [T ''equity or peak equity is unknown'']]))"

definition chk_risk_per_trade :: check where
  "chk_risk_per_trade li p pf now = (case max_risk_per_trade li of
     None \<Rightarrow> []
   | Some mx \<Rightarrow> (case pp_risk_amount p of
       None \<Rightarrow> [chk Max_risk_per_trade False [T ''the proposal states no risk amount'']]
     | Some x \<Rightarrow> [chk Max_risk_per_trade (x \<le> mx) [T ''risk '', N x, T '', limit '', N mx]]))"

text \<open>The loop over the two currencies stops at the first that would exceed the limit.\<close>

fun worst_currency :: "portfolio_state \<Rightarrow> rat \<Rightarrow> rat \<Rightarrow> string list \<Rightarrow> (string \<times> rat) option" where
  "worst_currency pf vol mx [] = None"
| "worst_currency pf vol mx (c # cs) =
     (let current = (case exposure_by_currency pf c of Some x \<Rightarrow> x | None \<Rightarrow> 0);
          projected = dadd current vol
      in if projected > mx then Some (c, projected) else worst_currency pf vol mx cs)"

definition currencies :: "order_proposal \<Rightarrow> string list" where \<comment> \<open>\<open>filter(None, (base, quote))\<close>\<close>
  "currencies p = map the (filter truthy [pp_base_currency p, pp_quote_currency p])"

definition chk_exposure :: check where
  "chk_exposure li p pf now = (case max_exposure_per_currency li of
     None \<Rightarrow> []
   | Some mx \<Rightarrow>
       let worst = worst_currency pf (case pp_volume p of Some v \<Rightarrow> v | None \<Rightarrow> 0) mx (currencies p) in
       [chk Max_exposure (worst = None)
         (case worst of
            Some (c, x) \<Rightarrow> [T c, T '' exposure would reach '', N x, T '', limit '', N mx]
          | None \<Rightarrow> [T ''within currency exposure limits''])])"

definition chk_leverage :: check where
  "chk_leverage li p pf now = (case max_leverage li of
     None \<Rightarrow> []
   | Some mx \<Rightarrow> (case (equity pf, margin_used pf) of
       (Some eq, Some m) \<Rightarrow>
         if eq \<le> 0 then [chk Max_leverage False [T ''equity or margin is unknown'']]
         else let leverage = ddiv m eq in
           [chk Max_leverage (leverage \<le> mx) [T ''leverage '', Fixed 2 leverage, T '', limit '', N mx]]
     | _ \<Rightarrow> [chk Max_leverage False [T ''equity or margin is unknown'']]))"

definition chk_spread :: check where
  "chk_spread li p pf now = (case max_spread_points li of
     None \<Rightarrow> []
   | Some mx \<Rightarrow> (case pp_spread_points p of
       None \<Rightarrow> [chk Spread False [T ''spread is unknown'']]
     | Some x \<Rightarrow> [chk Spread (x \<le> mx) [T ''spread '', N x, T '', limit '', N mx]]))"

definition chk_account_state :: check where
  "chk_account_state li p pf now = (case account_status pf of
     None \<Rightarrow> [unset Account_state ''account state not supplied'']
   | Some s \<Rightarrow> [chk Account_state (s \<in> {''active'', ''ACTIVE''}) [T ''account is '', T s]])"

definition chk_bot_state :: check where
  "chk_bot_state li p pf now = (case bot_status pf of
     None \<Rightarrow> [unset Bot_state ''no bot state supplied'']
   | Some s \<Rightarrow> [chk Bot_state (s = ''running'') [T ''bot is '', T s]])"

definition chk_strategy_state :: check where
  "chk_strategy_state li p pf now = (case strategy_enabled pf of
     None \<Rightarrow> [unset Strategy_state ''strategy state not supplied'']
   | Some b \<Rightarrow> [chk Strategy_state b [T (if b then ''strategy enabled'' else ''strategy is disabled'')]])"

definition chk_symbol_state :: check where
  "chk_symbol_state li p pf now = (case symbol_tradable pf of
     None \<Rightarrow> [unset Symbol_state ''symbol state not supplied'']
   | Some b \<Rightarrow> [chk Symbol_state b [T (if b then ''symbol tradable'' else ''symbol is not tradable'')]])"

definition chk_market_open :: check where
  "chk_market_open li p pf now =
     (if require_market_open li then (case market_is_open pf of
        None \<Rightarrow> [chk Market_open False [T ''market status is unknown'']]
      | Some b \<Rightarrow> [chk Market_open b [T (if b then ''market is open'' else ''market is closed'')]])
      else [unset Market_open ''market-open check not required''])"

definition chk_market_data :: check where
  "chk_market_data li p pf now = (case market_data_max_age_seconds li of
     None \<Rightarrow> [unset Market_data ''no freshness limit set'']
   | Some mx \<Rightarrow> (case market_data_age_seconds pf of
       None \<Rightarrow> [chk Market_data False [T ''market-data age is unknown'']]
     | Some x \<Rightarrow> [chk Market_data (x \<le> mx)
         [T ''market data is '', Fixed 0 x, T ''s old, limit '', Fixed 0 mx, T ''s'']]))"

definition chk_max_position_size :: check where
  "chk_max_position_size li p pf now = (case max_position_size li of
     None \<Rightarrow> [unset Max_position_size ''no limit set'']
   | Some mx \<Rightarrow> (case pp_volume p of
       None \<Rightarrow> [chk Max_position_size False [T ''no volume proposed'']]
     | Some v \<Rightarrow> [chk Max_position_size (v \<le> mx) [T ''volume '', N v, T '', limit '', N mx]]))"

definition chk_concentration :: check where
  "chk_concentration li p pf now = (case max_concentration_pct li of
     None \<Rightarrow> [unset Max_concentration ''no limit set'']
   | Some mx \<Rightarrow> (case (equity pf, largest_position_value pf) of
       (Some eq, Some lv) \<Rightarrow>
         if eq \<le> 0 then [chk Max_concentration False [T ''equity is not positive'']]
         else let share = dmul (ddiv lv eq) 100 in
           [chk Max_concentration (share \<le> mx)
             [T ''largest position is '', Fixed 2 share, T ''% of equity, limit '', N mx, T ''%'']]
     | _ \<Rightarrow> [chk Max_concentration False [T ''equity or position value is unknown'']]))"

definition chk_margin :: check where
  "chk_margin li p pf now = (case max_margin_utilisation_pct li of
     None \<Rightarrow> [unset Margin ''margin not modelled for this account'']
   | Some mx \<Rightarrow> (case (equity pf, margin_used pf) of
       (Some eq, Some m) \<Rightarrow>
         if eq \<le> 0 then [chk Margin False [T ''equity is not positive'']]
         else let projected = dadd m (case margin_required pf of Some r \<Rightarrow> r | None \<Rightarrow> 0);
                  utilisation = dmul (ddiv projected eq) 100 in
           [chk Margin (utilisation \<le> mx)
             [T ''projected margin utilisation '', Fixed 2 utilisation, T ''%, limit '', N mx, T ''%'']]
     | _ \<Rightarrow> [chk Margin False [T ''equity or used margin is unknown'']]))"

definition chk_window :: "int option \<Rightarrow> int option \<Rightarrow> string \<Rightarrow> check_outcome list" where
  "chk_window limit_value observed window = (case limit_value of
     None \<Rightarrow> []
   | Some mx \<Rightarrow> (case observed of
       None \<Rightarrow> [chk Trade_frequency False [T ''trades in the last '', T window, T '' unknown'']]
     | Some n \<Rightarrow> [chk Trade_frequency (n < mx)
         [N (of_int n), T '' trades in the last '', T window, T '', limit '', N (of_int mx)]]))"

definition chk_trade_frequency :: check where
  "chk_trade_frequency li p pf now =
     chk_window (max_trades_per_minute li) (trades_last_minute pf) ''minute''
     @ chk_window (max_trades_per_hour li) (trades_last_hour pf) ''hour''
     @ (if max_trades_per_minute li = None \<and> max_trades_per_hour li = None
        then [unset Trade_frequency ''no frequency limit set''] else [])"

definition chk_cooldown :: check where
  "chk_cooldown li p pf now =
     (if cooldown_seconds li \<noteq> None \<and> cooldown_seconds li \<noteq> Some 0 then
        let cd = the (cooldown_seconds li) in
        (case last_trade_at pf of
           None \<Rightarrow> [chk Cooldown True [T ''no previous trade recorded'']]
         | Some t \<Rightarrow> let elapsed = seconds (now - t) in
             [chk Cooldown (elapsed \<ge> of_int cd)
               [Fixed 0 elapsed, T ''s since the last trade, cooldown '', N (of_int cd), T ''s'']])
      else [unset Cooldown ''no cooldown set''])"

definition chk_risk_reward :: check where
  "chk_risk_reward li p pf now = (case min_risk_reward li of
     None \<Rightarrow> [unset Risk_reward ''no minimum set'']
   | Some mn \<Rightarrow> (case (pp_entry_price p, pp_stop_loss p, pp_take_profit p) of
       (Some e, Some s, Some t) \<Rightarrow>
         let risk = dabs (dsub e s); reward = dabs (dsub t e) in
         if risk \<le> 0 then [chk Risk_reward False [T ''the stop is at the entry'']]
         else let ratio = ddiv reward risk in
           [chk Risk_reward (ratio \<ge> mn) [T ''risk/reward '', Fixed 2 ratio, T '', minimum '', N mn]]
     | _ \<Rightarrow> [chk Risk_reward False [T ''entry, stop or target is missing'']]))"

text \<open>All of them, in order, and then the completeness loop.\<close>

definition stated_checks :: "string list \<Rightarrow> check" where
  "stated_checks recent li p pf now = concat (map (\<lambda>f. f li p pf now)
     [chk_trading_mode, chk_duplicate_signal recent, chk_signal_freshness, chk_stop_loss,
      chk_position_size, chk_one_position, chk_open_positions, chk_trades_per_day, chk_daily_loss,
      chk_weekly_loss, chk_consecutive_losses, chk_correlated_exposure, chk_drawdown,
      chk_risk_per_trade, chk_exposure, chk_leverage, chk_spread, chk_account_state, chk_bot_state,
      chk_strategy_state, chk_symbol_state, chk_market_open, chk_market_data,
      chk_max_position_size, chk_concentration, chk_margin, chk_trade_frequency, chk_cooldown,
      chk_risk_reward])"

definition complete_checks :: "check_outcome list \<Rightarrow> check_outcome list" where
  "complete_checks out =
     out @ map (\<lambda>k. unset k ''no limit set'')
       (filter (\<lambda>k. k \<notin> set (map co_limit out) \<and> \<not> is_kill k) limit_kinds)"

definition checks :: "string list \<Rightarrow> check" where
  "checks recent li p pf now = complete_checks (stated_checks recent li p pf now)"

section \<open>What each check reports\<close>

text \<open>The limits a section reports on: itself when it is configured, nothing otherwise.\<close>

named_theorems chk_limits "the limit each section reports"
named_theorems chk_defs "definitions of the sections"

declare chk_trading_mode_def [chk_defs] chk_duplicate_signal_def [chk_defs] chk_signal_freshness_def [chk_defs]
  chk_stop_loss_def [chk_defs] chk_position_size_def [chk_defs] chk_one_position_def [chk_defs]
  chk_open_positions_def [chk_defs] chk_trades_per_day_def [chk_defs] chk_daily_loss_def [chk_defs]
  chk_weekly_loss_def [chk_defs] chk_consecutive_losses_def [chk_defs]
  chk_correlated_exposure_def [chk_defs] chk_drawdown_def [chk_defs] chk_risk_per_trade_def [chk_defs]
  chk_exposure_def [chk_defs] chk_leverage_def [chk_defs] chk_spread_def [chk_defs]
  chk_account_state_def [chk_defs] chk_bot_state_def [chk_defs] chk_strategy_state_def [chk_defs]
  chk_symbol_state_def [chk_defs] chk_market_open_def [chk_defs] chk_market_data_def [chk_defs]
  chk_max_position_size_def [chk_defs] chk_concentration_def [chk_defs] chk_margin_def [chk_defs]
  chk_window_def [chk_defs] chk_cooldown_def [chk_defs] chk_risk_reward_def [chk_defs]

lemma limits_always [chk_limits]:
  "map co_limit (chk_trading_mode li p pf now) = [Trading_mode]"
  "map co_limit (chk_signal_freshness li p pf now) = [Signal_freshness]"
  "map co_limit (chk_position_size li p pf now) = [Position_size]"
  "map co_limit (chk_open_positions li p pf now) = [Max_open_positions]"
  "map co_limit (chk_account_state li p pf now) = [Account_state]"
  "map co_limit (chk_bot_state li p pf now) = [Bot_state]"
  "map co_limit (chk_strategy_state li p pf now) = [Strategy_state]"
  "map co_limit (chk_symbol_state li p pf now) = [Symbol_state]"
  "map co_limit (chk_market_open li p pf now) = [Market_open]"
  "map co_limit (chk_market_data li p pf now) = [Market_data]"
  "map co_limit (chk_max_position_size li p pf now) = [Max_position_size]"
  "map co_limit (chk_concentration li p pf now) = [Max_concentration]"
  "map co_limit (chk_margin li p pf now) = [Margin]"
  "map co_limit (chk_cooldown li p pf now) = [Cooldown]"
  "map co_limit (chk_risk_reward li p pf now) = [Risk_reward]"
  by (simp_all add: chk_defs Let_def split: option.split)

lemma limits_configured [chk_limits]:
  "map co_limit (chk_duplicate_signal recent li p pf now)
     = (if truthy (pp_signal_id p) then [Duplicate_signal] else [])"
  "map co_limit (chk_stop_loss li p pf now) = (if require_stop_loss li then [Stop_loss_required] else [])"
  "map co_limit (chk_one_position li p pf now)
     = (if one_position_per_symbol li then [One_position_per_symbol] else [])"
  "map co_limit (chk_trades_per_day li p pf now) = (if max_trades_per_day li = None then [] else [Max_trades_per_day])"
  "map co_limit (chk_daily_loss li p pf now) = (if max_daily_loss li = None then [] else [Max_daily_loss])"
  "map co_limit (chk_weekly_loss li p pf now) = (if max_weekly_loss li = None then [] else [Max_weekly_loss])"
  "map co_limit (chk_consecutive_losses li p pf now)
     = (if max_consecutive_losses li = None then [] else [Max_consecutive_losses])"
  "map co_limit (chk_correlated_exposure li p pf now)
     = (if max_correlated_exposure li = None then [] else [Max_correlated_exposure])"
  "map co_limit (chk_drawdown li p pf now) = (if max_drawdown_pct li = None then [] else [Max_drawdown])"
  "map co_limit (chk_risk_per_trade li p pf now) = (if max_risk_per_trade li = None then [] else [Max_risk_per_trade])"
  "map co_limit (chk_exposure li p pf now) = (if max_exposure_per_currency li = None then [] else [Max_exposure])"
  "map co_limit (chk_leverage li p pf now) = (if max_leverage li = None then [] else [Max_leverage])"
  "map co_limit (chk_spread li p pf now) = (if max_spread_points li = None then [] else [Spread])"
  "map co_limit (chk_window lv ob w) = (if lv = None then [] else [Trade_frequency])"
  by (simp_all add: chk_defs Let_def split: option.split)

lemma limits_frequency [chk_limits]:
  "map co_limit (chk_trade_frequency li p pf now) =
     (if max_trades_per_minute li \<noteq> None \<and> max_trades_per_hour li \<noteq> None
      then [Trade_frequency, Trade_frequency] else [Trade_frequency])"
  by (auto simp: chk_trade_frequency_def chk_limits)

text \<open>The limits the sections themselves report on.\<close>

definition stated_limits :: "string list \<Rightarrow> risk_limits \<Rightarrow> order_proposal \<Rightarrow> limit_kind list" where
  "stated_limits recent li p = map co_limit (stated_checks recent li p empty_portfolio 0)"

lemma map_concat_map: "map g (concat (map f xs)) = concat (map (\<lambda>x. map g (f x)) xs)"
  by (simp add: map_concat comp_def)

lemma limits_stated: "map co_limit (stated_checks recent li p pf now) = stated_limits recent li p"
  unfolding stated_limits_def stated_checks_def map_concat_map
  by (simp only: list.map chk_limits)

text \<open>Whether a limit is enforced for this request, by its configuration (and, for the four
  state checks, by the caller having supplied the state).\<close>

definition configured :: "risk_limits \<Rightarrow> order_proposal \<Rightarrow> portfolio_state \<Rightarrow> limit_kind \<Rightarrow> bool" where
  "configured li p pf k = (case k of
     Kill_switch_global \<Rightarrow> False | Kill_switch_account \<Rightarrow> False | Kill_switch_strategy \<Rightarrow> False
   | Trading_mode \<Rightarrow> True | Position_size \<Rightarrow> True
   | Market_open \<Rightarrow> require_market_open li
   | Signal_freshness \<Rightarrow> max_signal_age_seconds li \<noteq> None
   | Duplicate_signal \<Rightarrow> truthy (pp_signal_id p)
   | Max_open_positions \<Rightarrow> max_open_positions li \<noteq> None
   | One_position_per_symbol \<Rightarrow> one_position_per_symbol li
   | Max_trades_per_day \<Rightarrow> max_trades_per_day li \<noteq> None
   | Max_daily_loss \<Rightarrow> max_daily_loss li \<noteq> None
   | Max_weekly_loss \<Rightarrow> max_weekly_loss li \<noteq> None
   | Max_consecutive_losses \<Rightarrow> max_consecutive_losses li \<noteq> None
   | Max_correlated_exposure \<Rightarrow> max_correlated_exposure li \<noteq> None
   | Max_drawdown \<Rightarrow> max_drawdown_pct li \<noteq> None
   | Max_exposure \<Rightarrow> max_exposure_per_currency li \<noteq> None
   | Max_leverage \<Rightarrow> max_leverage li \<noteq> None
   | Max_risk_per_trade \<Rightarrow> max_risk_per_trade li \<noteq> None
   | Spread \<Rightarrow> max_spread_points li \<noteq> None
   | Market_data \<Rightarrow> market_data_max_age_seconds li \<noteq> None
   | Account_state \<Rightarrow> account_status pf \<noteq> None
   | Bot_state \<Rightarrow> bot_status pf \<noteq> None
   | Strategy_state \<Rightarrow> strategy_enabled pf \<noteq> None
   | Symbol_state \<Rightarrow> symbol_tradable pf \<noteq> None
   | Max_position_size \<Rightarrow> max_position_size li \<noteq> None
   | Max_concentration \<Rightarrow> max_concentration_pct li \<noteq> None
   | Margin \<Rightarrow> max_margin_utilisation_pct li \<noteq> None
   | Trade_frequency \<Rightarrow> max_trades_per_minute li \<noteq> None \<or> max_trades_per_hour li \<noteq> None
   | Cooldown \<Rightarrow> cooldown_seconds li \<noteq> None \<and> cooldown_seconds li \<noteq> Some 0
   | Risk_reward \<Rightarrow> min_risk_reward li \<noteq> None
   | Stop_loss_required \<Rightarrow> require_stop_loss li)"

text \<open>In each section, a check is enforced exactly when its limit is configured.\<close>

lemma section_enforced:
  assumes "f \<in> {chk_trading_mode, chk_duplicate_signal recent, chk_signal_freshness, chk_stop_loss,
      chk_position_size, chk_one_position, chk_open_positions, chk_trades_per_day, chk_daily_loss,
      chk_weekly_loss, chk_consecutive_losses, chk_correlated_exposure, chk_drawdown,
      chk_risk_per_trade, chk_exposure, chk_leverage, chk_spread, chk_account_state, chk_bot_state,
      chk_strategy_state, chk_symbol_state, chk_market_open, chk_market_data,
      chk_max_position_size, chk_concentration, chk_margin, chk_trade_frequency, chk_cooldown,
      chk_risk_reward}"
  shows "list_all (\<lambda>c. (enforced c \<longleftrightarrow> configured li p pf (co_limit c)) \<and> (enforced c \<or> passed c)) (f li p pf now)"
  using assms
  by (elim insertE emptyE; hypsubst;
      simp add: chk_defs chk_trade_frequency_def configured_def Let_def split: option.split)

section \<open>Completeness\<close>

lemma stated_count:
  "count_list (stated_limits recent li p) k =
     (if is_kill k then 0
      else if k = Trade_frequency then
        (if max_trades_per_minute li \<noteq> None \<and> max_trades_per_hour li \<noteq> None then 2 else 1)
      else if k \<in> {Trading_mode, Signal_freshness, Position_size, Max_open_positions, Account_state,
          Bot_state, Strategy_state, Symbol_state, Market_open, Market_data, Max_position_size,
          Max_concentration, Margin, Cooldown, Risk_reward} then 1
      else if configured li p empty_portfolio k then 1 else 0)"
proof -
  have "stated_limits recent li p = concat (map (\<lambda>f. map co_limit (f li p empty_portfolio 0))
     [chk_trading_mode, chk_duplicate_signal recent, chk_signal_freshness, chk_stop_loss,
      chk_position_size, chk_one_position, chk_open_positions, chk_trades_per_day, chk_daily_loss,
      chk_weekly_loss, chk_consecutive_losses, chk_correlated_exposure, chk_drawdown,
      chk_risk_per_trade, chk_exposure, chk_leverage, chk_spread, chk_account_state, chk_bot_state,
      chk_strategy_state, chk_symbol_state, chk_market_open, chk_market_data,
      chk_max_position_size, chk_concentration, chk_margin, chk_trade_frequency, chk_cooldown,
      chk_risk_reward])"
    by (simp only: stated_limits_def stated_checks_def map_concat_map)
  then show ?thesis
    by (simp only: list.map chk_limits) (cases k; simp add: is_kill_def configured_def)
qed

lemma count_list_filter_distinct:
  "distinct xs \<Longrightarrow> count_list (filter P xs) k = (if k \<in> set xs \<and> P k then 1 else 0)"
  by (induction xs) (auto simp: count_list_0_iff)

lemma checks_limits:
  "map co_limit (checks recent li p pf now) = stated_limits recent li p
     @ filter (\<lambda>k. k \<notin> set (stated_limits recent li p) \<and> \<not> is_kill k) limit_kinds"
  using limits_stated [of recent li p pf now]
  by (simp add: checks_def complete_checks_def comp_def flip: set_map)

lemma checks_count:
  "count_list (map co_limit (checks recent li p pf now)) k =
     (if is_kill k then 0
      else if k = Trade_frequency \<and> max_trades_per_minute li \<noteq> None \<and> max_trades_per_hour li \<noteq> None then 2
      else 1)"
proof -
  have "k \<notin> set (stated_limits recent li p) \<longleftrightarrow> count_list (stated_limits recent li p) k = 0"
    by (simp add: count_list_0_iff)
  then show ?thesis
    by (simp add: checks_limits count_list_filter_distinct [OF limit_kinds_distinct] stated_count)
qed

lemma in_stated:
  "c \<in> set (stated_checks recent li p pf now) \<longleftrightarrow>
    (\<exists>f \<in> {chk_trading_mode, chk_duplicate_signal recent, chk_signal_freshness, chk_stop_loss,
      chk_position_size, chk_one_position, chk_open_positions, chk_trades_per_day, chk_daily_loss,
      chk_weekly_loss, chk_consecutive_losses, chk_correlated_exposure, chk_drawdown,
      chk_risk_per_trade, chk_exposure, chk_leverage, chk_spread, chk_account_state, chk_bot_state,
      chk_strategy_state, chk_symbol_state, chk_market_open, chk_market_data,
      chk_max_position_size, chk_concentration, chk_margin, chk_trade_frequency, chk_cooldown,
      chk_risk_reward}. c \<in> set (f li p pf now))"
  by (simp only: stated_checks_def set_concat list.set set_map) blast

lemma configured_stated:
  assumes "configured li p pf k"
  shows "k \<in> set (stated_limits recent li p)"
proof -
  have "count_list (stated_limits recent li p) k \<noteq> 0"
    using assms by (cases k) (simp_all add: stated_count is_kill_def configured_def)
  then show ?thesis by (simp add: count_list_0_iff)
qed

lemma stated_enforced:
  "c \<in> set (stated_checks recent li p pf now) \<Longrightarrow>
     (enforced c \<longleftrightarrow> configured li p pf (co_limit c)) \<and> (enforced c \<or> passed c)"
  using section_enforced [of _ recent li p pf now] unfolding in_stated list_all_iff by blast

lemma checks_enforced:
  assumes "c \<in> set (checks recent li p pf now)"
  shows "(enforced c \<longleftrightarrow> configured li p pf (co_limit c)) \<and> (enforced c \<or> passed c)"
proof -
  from assms consider "c \<in> set (stated_checks recent li p pf now)"
    | k where "c = unset k ''no limit set''" "k \<notin> set (stated_limits recent li p)"
    unfolding checks_def complete_checks_def limits_stated by auto
  then show ?thesis
  proof cases
    case 1
    then show ?thesis by (rule stated_enforced)
  next
    case 2
    then show ?thesis using configured_stated by auto
  qed
qed

text \<open>Every limit the engine knows is in every record, once. A run of the checks reports
  each limit kind exactly once (the trade frequency twice when both of its windows are
  limited) and the three kill switches never, because they were decided before; a limit is
  marked as enforced exactly when it is configured, and one that is not enforced never fails.\<close>

theorem every_limit_reported:
  "(\<forall>k. count_list (map co_limit (checks recent li p pf now)) k =
     (if is_kill k then 0
      else if k = Trade_frequency \<and> max_trades_per_minute li \<noteq> None \<and> max_trades_per_hour li \<noteq> None then 2
      else 1))
   \<and> (\<forall>c \<in> set (checks recent li p pf now).
        (enforced c \<longleftrightarrow> configured li p pf (co_limit c)) \<and> (enforced c \<or> passed c))"
  using checks_enforced checks_count by blast

definition demo_proposal :: order_proposal where
  "demo_proposal = \<lparr>pp_symbol = ''EURUSD'', pp_side = ''buy'', pp_mode = ''paper'', pp_volume = Some 1,
     pp_entry_price = Some (11/10), pp_stop_loss = Some 1, pp_take_profit = None, pp_risk_amount = None,
     pp_spread_points = None, pp_account_id = Some ''acct'', pp_strategy_id = None, pp_signal_id = None,
     pp_signal_time = None, pp_base_currency = None, pp_quote_currency = None\<rparr>"

theorem every_limit_reported_witness:
  "count_list (map co_limit (checks [] default_limits demo_proposal empty_portfolio 0)) Max_daily_loss = 1
   \<and> (\<exists>c \<in> set (checks [] default_limits demo_proposal empty_portfolio 0).
        co_limit c = Max_daily_loss \<and> \<not> enforced c \<and> passed c)"
proof -
  note r = every_limit_reported [of "[]" default_limits demo_proposal empty_portfolio 0]
  then have n: "count_list (map co_limit (checks [] default_limits demo_proposal empty_portfolio 0)) Max_daily_loss = 1"
    by (simp add: is_kill_def)
  then have "Max_daily_loss \<in> set (map co_limit (checks [] default_limits demo_proposal empty_portfolio 0))"
    using count_notin [of Max_daily_loss] by fastforce
  then obtain c where "c \<in> set (checks [] default_limits demo_proposal empty_portfolio 0)"
    "co_limit c = Max_daily_loss" by auto
  moreover have "\<not> configured default_limits demo_proposal empty_portfolio Max_daily_loss"
    by (simp add: configured_def default_limits_def)
  ultimately show ?thesis using r n by metis
qed

section \<open>Unknown is not permission\<close>

text \<open>A limit that is configured and whose data the caller could not supply. The code does not refuse
  two of them (\<open>LENIENT\<close>): a proposal that names no currency, or one whose exposure is not known, is
  checked against an exposure of zero, and a cooldown without a last trade passes. The margin that
  the order itself needs is read as zero too when it is not supplied; it is not counted here.\<close>

definition LENIENT :: "limit_kind set" where "LENIENT = {Max_exposure, Cooldown}"

definition unknown :: "risk_limits \<Rightarrow> order_proposal \<Rightarrow> portfolio_state \<Rightarrow> limit_kind \<Rightarrow> bool" where
  "unknown li p pf k \<longleftrightarrow> configured li p pf k \<and> (case k of
     Market_open \<Rightarrow> market_is_open pf = None
   | Signal_freshness \<Rightarrow> pp_signal_time p = None
   | Max_open_positions \<Rightarrow> open_positions pf = None
   | Max_trades_per_day \<Rightarrow> trades_today pf = None
   | Max_daily_loss \<Rightarrow> realised_today pf = None
   | Max_weekly_loss \<Rightarrow> realised_week pf = None
   | Max_consecutive_losses \<Rightarrow> consecutive_losses pf = None
   | Max_correlated_exposure \<Rightarrow> correlated_exposure pf = None
   | Max_drawdown \<Rightarrow> equity pf = None \<or> peak_equity pf = None
   | Max_leverage \<Rightarrow> equity pf = None \<or> margin_used pf = None
   | Max_risk_per_trade \<Rightarrow> pp_risk_amount p = None
   | Spread \<Rightarrow> pp_spread_points p = None
   | Market_data \<Rightarrow> market_data_age_seconds pf = None
   | Max_position_size \<Rightarrow> pp_volume p = None
   | Max_concentration \<Rightarrow> equity pf = None \<or> largest_position_value pf = None
   | Margin \<Rightarrow> equity pf = None \<or> margin_used pf = None
   | Trade_frequency \<Rightarrow> (max_trades_per_minute li \<noteq> None \<and> trades_last_minute pf = None)
        \<or> (max_trades_per_hour li \<noteq> None \<and> trades_last_hour pf = None)
   | Risk_reward \<Rightarrow> pp_entry_price p = None \<or> pp_stop_loss p = None \<or> pp_take_profit p = None
   | Position_size \<Rightarrow> pp_volume p = None
   | Stop_loss_required \<Rightarrow> pp_stop_loss p = None
   | Max_exposure \<Rightarrow> currencies p = [] \<or> (\<exists>c \<in> set (currencies p). exposure_by_currency pf c = None)
   | Cooldown \<Rightarrow> last_trade_at pf = None
   | _ \<Rightarrow> False)"

definition section_of :: "limit_kind \<Rightarrow> check" where
  "section_of k = (case k of
     Market_open \<Rightarrow> chk_market_open | Signal_freshness \<Rightarrow> chk_signal_freshness
   | Max_open_positions \<Rightarrow> chk_open_positions | Max_trades_per_day \<Rightarrow> chk_trades_per_day
   | Max_daily_loss \<Rightarrow> chk_daily_loss | Max_weekly_loss \<Rightarrow> chk_weekly_loss
   | Max_consecutive_losses \<Rightarrow> chk_consecutive_losses
   | Max_correlated_exposure \<Rightarrow> chk_correlated_exposure | Max_drawdown \<Rightarrow> chk_drawdown
   | Max_leverage \<Rightarrow> chk_leverage | Max_risk_per_trade \<Rightarrow> chk_risk_per_trade | Spread \<Rightarrow> chk_spread
   | Market_data \<Rightarrow> chk_market_data | Max_position_size \<Rightarrow> chk_max_position_size
   | Max_concentration \<Rightarrow> chk_concentration | Margin \<Rightarrow> chk_margin
   | Trade_frequency \<Rightarrow> chk_trade_frequency | Risk_reward \<Rightarrow> chk_risk_reward
   | Position_size \<Rightarrow> chk_position_size | Stop_loss_required \<Rightarrow> chk_stop_loss | _ \<Rightarrow> chk_trading_mode)"

lemma section_of_stated:
  "c \<in> set (section_of k li p pf now) \<Longrightarrow> c \<in> set (stated_checks recent li p pf now)"
  unfolding in_stated by (rule bexI [of _ "section_of k"]) (assumption, (cases k; simp add: section_of_def))

lemma unknown_section:
  assumes "unknown li p pf k" "k \<notin> LENIENT"
  shows "list_ex (\<lambda>c. co_limit c = k \<and> \<not> passed c) (section_of k li p pf now)"
  using assms
  by (cases k) (auto simp: LENIENT_def unknown_def configured_def section_of_def chk_defs chk_trade_frequency_def
      split: option.split)

lemma unknown_fails:
  assumes "unknown li p pf k" "k \<notin> LENIENT"
  shows "\<exists>c \<in> set (checks recent li p pf now). co_limit c = k \<and> \<not> passed c"
  using unknown_section [OF assms] section_of_stated [of _ k li p pf now recent]
  by (fastforce simp: list_ex_iff checks_def complete_checks_def)

lemma failed_in_stated:
  "c \<in> set (checks recent li p pf now) \<Longrightarrow> \<not> passed c \<Longrightarrow> c \<in> set (stated_checks recent li p pf now)"
  by (auto simp: checks_def complete_checks_def)

end
