(* ===== verification/Risk_Engine.thy ===== *)
theory Risk_Engine
  imports Risk_Checks
begin

text \<open>
  The decisions of the risk engine, \<open>backend/app/risk/engine.py\<close>, and the digest that binds
  an approval to its order, \<open>backend/app/risk/decision.py\<close>. SHA-256 is the parameter
  \<open>digest\<close>, the uuid of a decision the parameter \<open>did\<close>, the clock the parameter \<open>now\<close>.
\<close>

section \<open>Kill switches\<close>

record kill_switches =
  global_stop :: bool
  global_reason :: string
  stopped_accounts :: "string list"
  stopped_strategies :: "string list"

definition no_switches :: kill_switches where
  "no_switches = \<lparr>global_stop = False, global_reason = [], stopped_accounts = [], stopped_strategies = []\<rparr>"

definition engaged_for :: "kill_switches \<Rightarrow> string option \<Rightarrow> string option \<Rightarrow> (limit_kind \<times> detail) option" where
  "engaged_for ks account strategy =
     (if global_stop ks then
        Some (Kill_switch_global,
          [T (if global_reason ks \<noteq> [] then global_reason ks else ''global kill switch'')])
      else if truthy account \<and> the account \<in> set (stopped_accounts ks) then
        Some (Kill_switch_account, [T ''kill switch on account '', S account])
      else if truthy strategy \<and> the strategy \<in> set (stopped_strategies ks) then
        Some (Kill_switch_strategy, [T ''kill switch on strategy '', S strategy])
      else None)"

section \<open>The verdict\<close>

datatype risk_decision = Approve | Veto | Halt

datatype reason = All_passed | Kill_reason detail | Failures "(limit_kind \<times> detail) list"
  | Close_over "(limit_kind \<times> detail) list"

record risk_verdict =
  decision :: risk_decision
  vd_reason :: reason
  vd_checks :: "check_outcome list"
  vd_at :: time
  vd_proposal :: order_proposal

definition vd_approved :: "risk_verdict \<Rightarrow> bool" where
  "vd_approved v \<longleftrightarrow> decision v = Approve"

definition vd_failed :: "risk_verdict \<Rightarrow> check_outcome list" where
  "vd_failed v = filter (\<lambda>c. \<not> passed c) (vd_checks v)"

definition vd_not_enforced :: "risk_verdict \<Rightarrow> limit_kind list" where
  "vd_not_enforced v = map co_limit (filter (\<lambda>c. \<not> enforced c) (vd_checks v))"

definition named :: "check_outcome \<Rightarrow> limit_kind \<times> detail" where
  "named c = (co_limit c, detail c)"

definition halting :: "limit_kind \<Rightarrow> bool" where
  "halting k \<longleftrightarrow> k \<in> {Max_daily_loss, Max_weekly_loss, Max_drawdown}"

definition evaluate ::
    "risk_limits \<Rightarrow> kill_switches \<Rightarrow> string list \<Rightarrow> order_proposal \<Rightarrow> portfolio_state option \<Rightarrow> time
     \<Rightarrow> risk_verdict" where
  "evaluate li ks recent p pfo now =
    (let pf = (case pfo of None \<Rightarrow> empty_portfolio | Some x \<Rightarrow> x) in
     case engaged_for ks (pp_account_id p) (pp_strategy_id p) of
       Some (limit, why) \<Rightarrow>
         \<lparr>decision = Halt, vd_reason = Kill_reason why, vd_checks = [chk limit False why],
          vd_at = now, vd_proposal = p\<rparr>
     | None \<Rightarrow>
         let cs = checks recent li p pf now;
             failed = filter (\<lambda>c. \<not> passed c) cs
         in if failed = [] then
           \<lparr>decision = Approve, vd_reason = All_passed, vd_checks = cs, vd_at = now, vd_proposal = p\<rparr>
         else
           \<lparr>decision = (if \<exists>c \<in> set failed. halting (co_limit c) then Halt else Veto),
            vd_reason = Failures (map named failed), vd_checks = cs, vd_at = now, vd_proposal = p\<rparr>)"

section \<open>The digest of an order\<close>

text \<open>The digits of a Decimal in plain notation, \<open>format(value.normalize(), "f")\<close>: the value
  rounded to the context, without trailing zeros.\<close>

fun nat_digits :: "nat \<Rightarrow> nat \<Rightarrow> string" where \<comment> \<open>with fuel\<close>
  "nat_digits 0 n = []"
| "nat_digits (Suc f) n = (if n < 10 then [char_of (48 + n)]
     else nat_digits f (n div 10) @ [char_of (48 + n mod 10)])"

fun frac_digits :: "nat \<Rightarrow> rat \<Rightarrow> string" where
  "frac_digits 0 x = []"
| "frac_digits (Suc f) x = (if x = 0 then []
     else char_of (48 + nat \<lfloor>10 * x\<rfloor>) # frac_digits f (10 * x - of_int \<lfloor>10 * x\<rfloor>))"

definition render_dec :: "rat \<Rightarrow> string" where
  "render_dec v =
     (let x = rnd v; a = \<bar>x\<bar>; i = nat \<lfloor>a\<rfloor>; f = a - of_int \<lfloor>a\<rfloor> in
      (if x < 0 then ''-'' else []) @ nat_digits (Suc i) i
      @ (if f = 0 then [] else ''.'' @ frac_digits (4 * ndig (snd (quotient_of f))) f))"

text \<open>The mapping of bound fields: a Decimal, a string or None for each key.\<close>

datatype field = F_dec rat | F_str string | F_none

definition BOUND_FIELDS :: "string list" where
  "BOUND_FIELDS = [''account_id'', ''symbol'', ''side'', ''volume'', ''order_type'', ''entry_price'',
     ''stop_loss'', ''take_profit'', ''strategy_id'', ''mode'']"

definition render :: "field \<Rightarrow> string" where
  "render f = (case f of F_dec v \<Rightarrow> render_dec v | F_str s \<Rightarrow> s | F_none \<Rightarrow> [])"

fun join :: "string \<Rightarrow> string list \<Rightarrow> string" where
  "join sep [] = []"
| "join sep [x] = x"
| "join sep (x # y # xs) = x @ sep @ join sep (y # xs)"

definition hash_text :: "(string \<Rightarrow> field) \<Rightarrow> string" where
  "hash_text fs = join ''|'' (map (\<lambda>k. k @ ''='' @ render (fs k)) BOUND_FIELDS)"

definition request_hash :: "(string \<Rightarrow> 'h) \<Rightarrow> (string \<Rightarrow> field) \<Rightarrow> 'h" where
  "request_hash digest fs = digest (hash_text fs)"

section \<open>Approvals\<close>

definition APPROVAL_TTL_SECONDS :: int where "APPROVAL_TTL_SECONDS = 60"

record 'h approval =
  ap_verdict :: risk_verdict
  approved_volume :: rat
  approved_at :: time
  decision_id :: string
  ap_hash :: "'h option" \<comment> \<open>None for the empty hash of an approval minted without one\<close>
  ap_expires_at :: "time option"

definition opt_dec :: "rat option \<Rightarrow> field" where
  "opt_dec x = (case x of None \<Rightarrow> F_none | Some v \<Rightarrow> F_dec v)"

definition opt_str :: "string option \<Rightarrow> field" where
  "opt_str x = (case x of None \<Rightarrow> F_none | Some s \<Rightarrow> F_str s)"

definition bound_of :: "order_proposal \<Rightarrow> rat \<Rightarrow> string \<Rightarrow> field" where
  "bound_of p volume = (\<lambda>_. F_none)
     (''account_id'' := opt_str (pp_account_id p), ''symbol'' := F_str (pp_symbol p),
      ''side'' := F_str (pp_side p), ''volume'' := F_dec volume, ''order_type'' := F_str ''market'',
      ''entry_price'' := opt_dec (pp_entry_price p), ''stop_loss'' := opt_dec (pp_stop_loss p),
      ''take_profit'' := opt_dec (pp_take_profit p), ''strategy_id'' := opt_str (pp_strategy_id p),
      ''mode'' := F_str (pp_mode p))"

definition ap_proposal :: "'h approval \<Rightarrow> order_proposal" where
  "ap_proposal a = vd_proposal (ap_verdict a)"

definition expired :: "'h approval \<Rightarrow> time \<Rightarrow> bool" where
  "expired a now = (case ap_expires_at a of None \<Rightarrow> False | Some t \<Rightarrow> now > t)"

definition binds :: "(string \<Rightarrow> 'h) \<Rightarrow> 'h approval \<Rightarrow> (string \<Rightarrow> field) \<Rightarrow> bool" where
  "binds digest a fs = (case ap_hash a of None \<Rightarrow> True | Some h \<Rightarrow> request_hash digest fs = h)"

definition bound_fields :: "'h approval \<Rightarrow> string \<Rightarrow> field" where
  "bound_fields a = bound_of (ap_proposal a) (approved_volume a)"

definition binds_order :: "(string \<Rightarrow> 'h) \<Rightarrow> 'h approval \<Rightarrow> string \<Rightarrow> string \<Rightarrow> string \<Rightarrow> bool" where
  "binds_order digest a account_id order_type mode = binds digest a ((bound_fields a)
     (''account_id'' := F_str account_id, ''order_type'' := F_str order_type, ''mode'' := F_str mode))"

text \<open>The approval both functions build.\<close>

definition grant :: "(string \<Rightarrow> 'h) \<Rightarrow> string \<Rightarrow> risk_verdict \<Rightarrow> order_proposal \<Rightarrow> rat \<Rightarrow> 'h approval" where
  "grant digest did v p volume =
     \<lparr>ap_verdict = v, approved_volume = volume, approved_at = vd_at v, decision_id = did,
      ap_hash = Some (request_hash digest (bound_of p volume)),
      ap_expires_at = Some (vd_at v + secs APPROVAL_TTL_SECONDS)\<rparr>"

definition approve ::
    "(string \<Rightarrow> 'h) \<Rightarrow> string \<Rightarrow> risk_limits \<Rightarrow> kill_switches \<Rightarrow> string list \<Rightarrow> order_proposal
     \<Rightarrow> portfolio_state option \<Rightarrow> time \<Rightarrow> 'h approval option \<times> risk_verdict" where
  "approve digest did li ks recent p pf now =
     (let v = evaluate li ks recent p pf now in
      if \<not> vd_approved v \<or> pp_volume p = None then (None, v)
      else (Some (grant digest did v p (the (pp_volume p))), v))"

definition close_verdict :: "risk_verdict \<Rightarrow> order_proposal \<Rightarrow> risk_verdict" where
  "close_verdict v p =
     (if vd_approved v then v
      else \<lparr>decision = Approve, vd_reason = Close_over (map named (vd_failed v)),
        vd_checks = map (\<lambda>c. if passed c then c else mk (co_limit c) (passed c) (detail c) False) (vd_checks v),
        vd_at = vd_at v, vd_proposal = p\<rparr>)"

definition approve_close ::
    "(string \<Rightarrow> 'h) \<Rightarrow> string \<Rightarrow> risk_limits \<Rightarrow> kill_switches \<Rightarrow> order_proposal
     \<Rightarrow> portfolio_state option \<Rightarrow> time \<Rightarrow> 'h approval option \<times> risk_verdict" where
  "approve_close digest did li ks p pf now =
     (let v = evaluate li ks [] p pf now;
          mode_ok = list_all passed (filter (\<lambda>c. co_limit c = Trading_mode) (vd_checks v))
      in if \<not> mode_ok \<or> (case pp_volume p of None \<Rightarrow> True | Some x \<Rightarrow> x \<le> 0) then (None, v)
         else let v' = close_verdict v p in (Some (grant digest did v' p (the (pp_volume p))), v'))"

section \<open>What a verdict says\<close>

definition portfolio_of :: "portfolio_state option \<Rightarrow> portfolio_state" where
  "portfolio_of pf = (case pf of None \<Rightarrow> empty_portfolio | Some x \<Rightarrow> x)"

lemma evaluate_engaged:
  assumes "engaged_for ks (pp_account_id p) (pp_strategy_id p) = Some (k, d)"
  shows "evaluate li ks recent p pf now = \<lparr>decision = Halt, vd_reason = Kill_reason d,
    vd_checks = [chk k False d], vd_at = now, vd_proposal = p\<rparr>"
  using assms by (simp add: evaluate_def)

lemma engaged_kill: "engaged_for ks a s = Some (k, d) \<Longrightarrow> is_kill k"
  by (auto simp: engaged_for_def is_kill_def split: if_splits)

lemma evaluate_open:
  assumes "engaged_for ks (pp_account_id p) (pp_strategy_id p) = None"
  shows "vd_checks (evaluate li ks recent p pf now) = checks recent li p (portfolio_of pf) now"
    "decision (evaluate li ks recent p pf now) = Approve
      \<longleftrightarrow> (\<forall>c \<in> set (checks recent li p (portfolio_of pf) now). passed c)"
    "decision (evaluate li ks recent p pf now) = Halt
      \<longleftrightarrow> (\<exists>c \<in> set (checks recent li p (portfolio_of pf) now). \<not> passed c \<and> halting (co_limit c))"
  using assms by (auto simp: evaluate_def Let_def portfolio_of_def filter_empty_conv split: option.split)

lemma evaluate_at [simp]:
  "vd_at (evaluate li ks recent p pf now) = now" "vd_proposal (evaluate li ks recent p pf now) = p"
  by (auto simp: evaluate_def Let_def split: option.split)

lemma approve_Some:
  assumes "approve digest did li ks recent p pf now = (Some a, v)"
  shows "engaged_for ks (pp_account_id p) (pp_strategy_id p) = None"
    and "v = evaluate li ks recent p pf now"
    and "\<forall>c \<in> set (checks recent li p (portfolio_of pf) now). passed c"
    and "pp_volume p = Some (approved_volume a)"
    and "a = grant digest did v p (approved_volume a)"
    and "ap_verdict a = v"
proof -
  from assms have v: "v = evaluate li ks recent p pf now" and ok: "decision v = Approve"
    and a: "pp_volume p = Some (approved_volume a)" "a = grant digest did v p (approved_volume a)"
    by (auto simp: approve_def Let_def vd_approved_def grant_def split: if_splits)
  show en: "engaged_for ks (pp_account_id p) (pp_strategy_id p) = None"
    using ok unfolding v
    by (cases "engaged_for ks (pp_account_id p) (pp_strategy_id p)") (auto simp: evaluate_engaged)
  show "\<forall>c \<in> set (checks recent li p (portfolio_of pf) now). passed c"
    using ok evaluate_open(2) [OF en] unfolding v by blast
  show "v = evaluate li ks recent p pf now" by (rule v)
  show "pp_volume p = Some (approved_volume a)" "a = grant digest did v p (approved_volume a)"
    by (rule a(1), rule a(2))
  show "ap_verdict a = v" by (subst a(2)) (simp add: grant_def)
qed

lemma in_checks_trading_mode:
  "chk Trading_mode (pp_mode p \<in> {''paper'', ''demo''}) [T ''mode '', T (pp_mode p)] \<in> set (checks recent li p pf now)"
  by (simp add: checks_def complete_checks_def stated_checks_def chk_trading_mode_def)

lemma in_checks_size:
  "chk Position_size (case pp_volume p of Some v \<Rightarrow> v > 0 | None \<Rightarrow> False) [T ''volume '', NO (pp_volume p)]
    \<in> set (checks recent li p pf now)"
  by (simp add: checks_def complete_checks_def stated_checks_def chk_position_size_def)

text \<open>The trading-mode check is the only one of its kind.\<close>

lemma trading_mode_only:
  assumes "c \<in> set (checks recent li p pf now)" "co_limit c = Trading_mode"
  shows "passed c \<longleftrightarrow> pp_mode p \<in> {''paper'', ''demo''}"
proof -
  let ?cs = "checks recent li p pf now"
  let ?m = "chk Trading_mode (pp_mode p \<in> {''paper'', ''demo''}) [T ''mode '', T (pp_mode p)]"
  have n: "count_list (map co_limit xs) k = length (filter (\<lambda>c. co_limit c = k) xs)" for xs k
    by (induction xs) auto
  have "count_list (map co_limit ?cs) Trading_mode = 1" by (simp add: checks_count is_kill_def)
  then have "length (filter (\<lambda>c. co_limit c = Trading_mode) ?cs) = 1" unfolding n .
  then obtain d where d: "filter (\<lambda>c. co_limit c = Trading_mode) ?cs = [d]"
    by (metis One_nat_def Suc_length_conv length_0_conv)
  have "?m \<in> set (filter (\<lambda>c. co_limit c = Trading_mode) ?cs)" "c \<in> set (filter (\<lambda>c. co_limit c = Trading_mode) ?cs)"
    using in_checks_trading_mode [of p recent li pf now] assms by auto
  then have "c = ?m" unfolding d by simp
  then show ?thesis by simp
qed

section \<open>Approval\<close>


lemma demo_approved:
  "\<exists>a v. approve id ''d1'' default_limits no_switches [] demo_proposal None 0 = (Some a, v)"
proof -
  have "fst (approve id ''d1'' default_limits no_switches [] demo_proposal None 0) \<noteq> None"
    by code_simp
  then show ?thesis by (cases "approve id ''d1'' default_limits no_switches [] demo_proposal None 0") auto
qed


text \<open>What the three switches stop, said without the order in which the code looks at them.\<close>

definition stops :: "kill_switches \<Rightarrow> order_proposal \<Rightarrow> limit_kind \<Rightarrow> bool" where
  "stops ks p k \<longleftrightarrow> (case k of
     Kill_switch_global \<Rightarrow> global_stop ks
   | Kill_switch_account \<Rightarrow> (\<exists>a. pp_account_id p = Some a \<and> a \<noteq> [] \<and> a \<in> set (stopped_accounts ks))
   | Kill_switch_strategy \<Rightarrow> (\<exists>s. pp_strategy_id p = Some s \<and> s \<noteq> [] \<and> s \<in> set (stopped_strategies ks))
   | _ \<Rightarrow> False)"

lemma engaged_for_stops:
  "engaged_for ks (pp_account_id p) (pp_strategy_id p) = None \<longleftrightarrow> (\<forall>k. \<not> stops ks p k)"
  "engaged_for ks (pp_account_id p) (pp_strategy_id p) = Some (k, d) \<Longrightarrow>
     k = (if stops ks p Kill_switch_global then Kill_switch_global
          else if stops ks p Kill_switch_account then Kill_switch_account else Kill_switch_strategy) \<and> stops ks p k"
proof -
  have all: "(\<forall>k. \<not> stops ks p k) \<longleftrightarrow>
      \<not> stops ks p Kill_switch_global \<and> \<not> stops ks p Kill_switch_account \<and> \<not> stops ks p Kill_switch_strategy"
    by (auto simp: stops_def split: limit_kind.split)
  show "engaged_for ks (pp_account_id p) (pp_strategy_id p) = None \<longleftrightarrow> (\<forall>k. \<not> stops ks p k)"
    unfolding all by (auto simp: engaged_for_def stops_def truthy_def split: option.splits)
  show "engaged_for ks (pp_account_id p) (pp_strategy_id p) = Some (k, d) \<Longrightarrow>
     k = (if stops ks p Kill_switch_global then Kill_switch_global
          else if stops ks p Kill_switch_account then Kill_switch_account else Kill_switch_strategy) \<and> stops ks p k"
    by (auto simp: engaged_for_def stops_def truthy_def split: option.splits if_splits)
qed

text \<open>C10: the kill switches. The order is refused with a halt and a single failed check whenever the
  global switch is on, or the account or the strategy that the proposal names is on its list,
  whatever the limits, the portfolio and the rest of the proposal say; the check names the global
  switch before the account's and the account's before the strategy's. Otherwise the switches have no
  part in the verdict: it is the one without any, and no check of it is a kill switch.\<close>

theorem kill_switch_dominates:
  "let v = evaluate li ks recent p pf now in
     if \<exists>k. stops ks p k then
       (\<exists>d. vd_checks v = [chk (if stops ks p Kill_switch_global then Kill_switch_global
           else if stops ks p Kill_switch_account then Kill_switch_account else Kill_switch_strategy) False d])
       \<and> decision v = Halt \<and> approve digest did li ks recent p pf now = (None, v)
     else v = evaluate li no_switches recent p pf now \<and> list_all (\<lambda>c. \<not> is_kill (co_limit c)) (vd_checks v)"
proof (cases "engaged_for ks (pp_account_id p) (pp_strategy_id p)")
  case None
  have n: "engaged_for no_switches (pp_account_id p) (pp_strategy_id p) = None"
    by (simp add: engaged_for_def no_switches_def)
  have "evaluate li ks recent p pf now = evaluate li no_switches recent p pf now"
    by (simp add: evaluate_def None n)
  moreover have "\<not> is_kill (co_limit c)" if "c \<in> set (checks recent li p (portfolio_of pf) now)" for c
    using that checks_count [of recent li p "portfolio_of pf" now "co_limit c"] by (auto simp: count_list_0_iff)
  ultimately show ?thesis
    using engaged_for_stops(1) [of ks p] None evaluate_open(1) [OF n, of li recent pf now]
    by (simp add: Let_def list_all_iff)
next
  case (Some kd)
  obtain k d where kd: "engaged_for ks (pp_account_id p) (pp_strategy_id p) = Some (k, d)" using Some by (cases kd) simp
  show ?thesis using engaged_for_stops(2) [OF kd]
    by (auto simp: Let_def approve_def evaluate_engaged [OF kd] vd_approved_def)
qed

theorem kill_switch_dominates_witness:
  "\<exists>v d. approve id ''d1'' default_limits (no_switches\<lparr>stopped_accounts := [''acct'']\<rparr>) [] demo_proposal None 0
      = (None, v) \<and> decision v = Halt \<and> vd_checks v = [chk Kill_switch_account False d]"
proof -
  have "stops (no_switches\<lparr>stopped_accounts := [''acct'']\<rparr>) demo_proposal Kill_switch_account"
    "\<not> stops (no_switches\<lparr>stopped_accounts := [''acct'']\<rparr>) demo_proposal Kill_switch_global"
    by (simp_all add: stops_def no_switches_def demo_proposal_def)
  then show ?thesis
    using kill_switch_dominates [of default_limits "no_switches\<lparr>stopped_accounts := [''acct'']\<rparr>" "[]" demo_proposal None 0 id "''d1''"]
    by (auto simp: Let_def split: if_splits)
qed



text \<open>The exceptions: a proposal that states no currency passes the exposure limit, and a cooldown passes
  without a last trade.\<close>

lemma exposure_without_currency_passes:
  "max_exposure_per_currency li = Some mx \<Longrightarrow> currencies p = [] \<Longrightarrow>
     list_all passed (chk_exposure li p pf now)"
  by (simp add: chk_exposure_def)

lemma cooldown_without_trade_passes:
  "last_trade_at pf = None \<Longrightarrow> list_all passed (chk_cooldown li p pf now)"
  by (simp add: chk_cooldown_def)

section \<open>Halts\<close>

text \<open>The three sections whose failure halts look at the portfolio and the limits only.\<close>

definition halting_checks :: "risk_limits \<Rightarrow> portfolio_state \<Rightarrow> check_outcome list" where
  "halting_checks li pf = chk_daily_loss li demo_proposal pf 0 @ chk_weekly_loss li demo_proposal pf 0
     @ chk_drawdown li demo_proposal pf 0"

lemma halting_sections:
  "chk_daily_loss li p pf now = chk_daily_loss li demo_proposal pf 0"
  "chk_weekly_loss li p pf now = chk_weekly_loss li demo_proposal pf 0"
  "chk_drawdown li p pf now = chk_drawdown li demo_proposal pf 0"
  by (simp_all add: chk_daily_loss_def chk_weekly_loss_def chk_drawdown_def)

lemma section_limit: "c \<in> set xs \<Longrightarrow> map co_limit xs = ks \<Longrightarrow> co_limit c \<in> set ks"
  by auto

lemma section_quiet:
  assumes "c \<in> set (f li p pf now)"
    and "f \<in> {chk_trading_mode, chk_duplicate_signal recent, chk_signal_freshness, chk_stop_loss,
      chk_position_size, chk_one_position, chk_open_positions, chk_trades_per_day,
      chk_consecutive_losses, chk_correlated_exposure,
      chk_risk_per_trade, chk_exposure, chk_leverage, chk_spread, chk_account_state, chk_bot_state,
      chk_strategy_state, chk_symbol_state, chk_market_open, chk_market_data,
      chk_max_position_size, chk_concentration, chk_margin, chk_trade_frequency, chk_cooldown,
      chk_risk_reward}"
  shows "\<not> halting (co_limit c)"
  using assms(2,1)
  by (elim insertE emptyE; hypsubst)
     (drule section_limit, rule chk_limits, simp add: halting_def split: if_splits)+

lemma halting_iff:
  "(\<exists>c \<in> set (checks recent li p pf now). \<not> passed c \<and> halting (co_limit c))
   \<longleftrightarrow> (\<exists>c \<in> set (halting_checks li pf). \<not> passed c)"
proof
  assume "\<exists>c \<in> set (checks recent li p pf now). \<not> passed c \<and> halting (co_limit c)"
  then obtain c where c: "c \<in> set (stated_checks recent li p pf now)" "\<not> passed c" "halting (co_limit c)"
    using failed_in_stated by blast
  then have "c \<in> set (chk_daily_loss li p pf now) \<or> c \<in> set (chk_weekly_loss li p pf now)
      \<or> c \<in> set (chk_drawdown li p pf now)"
    using section_quiet [of c _ li p pf now recent] unfolding in_stated by blast
  then show "\<exists>c \<in> set (halting_checks li pf). \<not> passed c"
    using c(2) unfolding halting_checks_def halting_sections [of li p pf now] by auto
next
  assume "\<exists>c \<in> set (halting_checks li pf). \<not> passed c"
  then obtain c where c: "\<not> passed c" "c \<in> set (chk_daily_loss li p pf now) \<or> c \<in> set (chk_weekly_loss li p pf now)
      \<or> c \<in> set (chk_drawdown li p pf now)"
    unfolding halting_checks_def halting_sections [of li p pf now] by auto
  then have "halting (co_limit c)"
    by (auto dest!: section_limit [OF _ limits_configured(5)] section_limit [OF _ limits_configured(6)]
        section_limit [OF _ limits_configured(9)] simp: halting_def split: if_splits)
  moreover have "c \<in> set (stated_checks recent li p pf now)" using c(2) unfolding in_stated by blast
  ultimately show "\<exists>c \<in> set (checks recent li p pf now). \<not> passed c \<and> halting (co_limit c)"
    using c(1) by (auto simp: checks_def complete_checks_def)
qed

text \<open>A halt stops the session. When a loss or drawdown limit halts one order, every other
  order of the session is halted too as long as the portfolio stands as it does, whatever it
  asks for and whenever it is asked; an order that is vetoed for anything else halts nothing.\<close>

theorem halt_stops_the_session:
  assumes "engaged_for ks (pp_account_id p) (pp_strategy_id p) = None"
    and "decision (evaluate li ks recent p pf now) = Halt"
  shows "decision (evaluate li ks recent' q pf now') = Halt"
proof (cases "engaged_for ks (pp_account_id q) (pp_strategy_id q)")
  case None
  have "\<exists>c \<in> set (halting_checks li (portfolio_of pf)). \<not> passed c"
    using assms(2) evaluate_open(3) [OF assms(1), of li recent pf now] halting_iff by blast
  then show ?thesis using evaluate_open(3) [OF None, of li recent' pf now'] halting_iff by blast
next
  case (Some kd)
  then show ?thesis by (cases kd) (simp add: evaluate_engaged)
qed

definition lost_portfolio :: portfolio_state where
  "lost_portfolio = empty_portfolio\<lparr>realised_today := Some (- 150)\<rparr>"

theorem halt_stops_the_session_witness:
  "decision (evaluate (default_limits\<lparr>max_daily_loss := Some 100\<rparr>) no_switches [] demo_proposal
      (Some lost_portfolio) 0) = Halt
   \<and> decision (evaluate (default_limits\<lparr>max_daily_loss := Some 100\<rparr>) no_switches []
      (demo_proposal\<lparr>pp_symbol := ''GBPUSD''\<rparr>) (Some lost_portfolio) (secs 3600)) = Halt"
proof -
  have h: "decision (evaluate (default_limits\<lparr>max_daily_loss := Some 100\<rparr>) no_switches [] demo_proposal
      (Some lost_portfolio) 0) = Halt" by code_simp
  have e: "engaged_for no_switches (pp_account_id demo_proposal) (pp_strategy_id demo_proposal) = None"
    by code_simp
  show ?thesis using h halt_stops_the_session [OF e h] by blast
qed

section \<open>Closing orders\<close>

text \<open>C7: what can refuse a close. \<open>approve_close\<close> grants exactly when the volume is stated and
  positive and either the mode is paper or demo or a kill switch is engaged. So no limit
  ever vetoes a close; but with a kill switch engaged the verdict holds only that switch's
  check, the test of the mode check is over an empty selection, and a close in any mode,
  live included, is granted.\<close>

theorem approve_close_grants_iff:
  "fst (approve_close digest did li ks p pf now) \<noteq> None \<longleftrightarrow>
     (\<exists>x. pp_volume p = Some x \<and> 0 < x)
     \<and> (pp_mode p \<in> {''paper'', ''demo''}
          \<or> (\<exists>kd. engaged_for ks (pp_account_id p) (pp_strategy_id p) = Some kd))"
proof -
  let ?v = "evaluate li ks [] p pf now"
  have "list_all passed (filter (\<lambda>c. co_limit c = Trading_mode) (vd_checks ?v))
    \<longleftrightarrow> pp_mode p \<in> {''paper'', ''demo''} \<or> engaged_for ks (pp_account_id p) (pp_strategy_id p) \<noteq> None"
  proof (cases "engaged_for ks (pp_account_id p) (pp_strategy_id p)")
    case None
    then show ?thesis
      using evaluate_open(1) [OF None, of li "[]" pf now] trading_mode_only [of _ "[]" li p "portfolio_of pf" now]
        in_checks_trading_mode [of p "[]" li "portfolio_of pf" now]
      by (auto simp: list_all_iff)
  next
    case (Some kd)
    then show ?thesis using engaged_kill [of ks]
      by (cases kd) (auto simp: evaluate_engaged is_kill_def)
  qed
  then show ?thesis
    by (auto simp: approve_close_def Let_def not_le split: option.splits)
qed

text \<open>What an overridden close records. The checks of the verdict that a granted close
  carries are those of the evaluation, limit by limit with the same outcome, and each one
  that failed is marked as not enforced, so the record names every limit the close went over.\<close>

theorem close_records_what_it_overrides:
  assumes "approve_close digest did li ks p pf now = (Some a, v)"
  shows "map (\<lambda>c. (co_limit c, passed c, detail c)) (vd_checks v)
      = map (\<lambda>c. (co_limit c, passed c, detail c)) (vd_checks (evaluate li ks [] p pf now))
    \<and> decision v = Approve \<and> ap_verdict a = v \<and> pp_volume p = Some (approved_volume a)
    \<and> (\<forall>c \<in> set (vd_failed v). co_limit c \<in> set (vd_not_enforced v))"
proof -
  let ?e = "evaluate li ks [] p pf now"
  have v: "v = close_verdict ?e p" and a: "a = grant digest did v p (the (pp_volume p))" "pp_volume p \<noteq> None"
    using assms by (auto simp: approve_close_def Let_def split: if_splits option.splits)
  have "decision ?e = Approve \<Longrightarrow> vd_failed ?e = []"
    by (auto simp: evaluate_def vd_failed_def Let_def split: option.splits if_splits)
  then have "\<forall>c \<in> set (vd_failed v). co_limit c \<in> set (vd_not_enforced v)"
    unfolding v by (auto simp: close_verdict_def vd_approved_def vd_failed_def vd_not_enforced_def filter_empty_conv)
  moreover have "map (\<lambda>c. (co_limit c, passed c, detail c)) (vd_checks v)
      = map (\<lambda>c. (co_limit c, passed c, detail c)) (vd_checks ?e)"
    unfolding v by (simp add: close_verdict_def)
  moreover have "decision v = Approve" unfolding v by (simp add: close_verdict_def vd_approved_def)
  moreover have "ap_verdict a = v" "pp_volume p = Some (approved_volume a)" using a by (auto simp: grant_def)
  ultimately show ?thesis by blast
qed

theorem close_records_what_it_overrides_witness:
  "\<exists>a v. approve_close id ''d1'' (default_limits\<lparr>max_daily_loss := Some 100\<rparr>) no_switches demo_proposal
      (Some lost_portfolio) 0 = (Some a, v) \<and> decision v = Approve
      \<and> (\<exists>c \<in> set (vd_checks v). co_limit c = Max_daily_loss)"
proof -
  let ?r = "approve_close id ''d1'' (default_limits\<lparr>max_daily_loss := Some 100\<rparr>) no_switches demo_proposal
      (Some lost_portfolio) 0"
  have "fst ?r \<noteq> None \<and> Max_daily_loss \<in> set (map co_limit (vd_checks (snd ?r)))" by code_simp
  then obtain a v where av: "?r = (Some a, v)" "Max_daily_loss \<in> set (map co_limit (vd_checks v))"
    by (cases ?r) auto
  then obtain c where "c \<in> set (vd_checks v)" "co_limit c = Max_daily_loss" by auto
  moreover have "decision v = Approve" using close_records_what_it_overrides [OF av(1)] by blast
  ultimately show ?thesis using av(1) by blast
qed

section \<open>Binding\<close>

lemma split_at_sep:
  assumes "a @ c # r = b @ c # s" "c \<notin> set a" "c \<notin> set b"
  shows "a = b \<and> r = s"
  using assms
proof (induction a arbitrary: b)
  case Nil then show ?case by (cases b) auto
next
  case (Cons x a) then show ?case by (cases b) auto
qed

lemma two_bars:
  assumes "a @ [c] @ x @ b @ [c] @ y @ m = a' @ [c] @ x @ b' @ [c] @ y @ m'"
    and "c \<notin> set a" "c \<notin> set a'" "c \<notin> set b" "c \<notin> set b'"
  shows "a = a' \<and> b = b' \<and> m = m'"
proof -
  have "a = a' \<and> x @ b @ [c] @ y @ m = x @ b' @ [c] @ y @ m'"
    using assms(1-3) by (intro split_at_sep) simp_all
  then have "a = a'" "b @ c # (y @ m) = b' @ c # (y @ m')" by simp_all
  then show ?thesis using split_at_sep [OF _ assms(4,5)] by blast
qed

lemma hash_text_split:
  "hash_text (bound_of p v) = ''account_id='' @ render (opt_str (pp_account_id p)) @ ''|''
     @ (''symbol='' @ pp_symbol p @ ''|side='' @ pp_side p @ ''|volume='' @ render_dec v @ ''|order_type='')
     @ ''market'' @ ''|''
     @ (''entry_price='' @ render (opt_dec (pp_entry_price p)) @ ''|stop_loss='' @ render (opt_dec (pp_stop_loss p))
        @ ''|take_profit='' @ render (opt_dec (pp_take_profit p)) @ ''|strategy_id=''
        @ render (opt_str (pp_strategy_id p)) @ ''|mode='') @ pp_mode p"
  "hash_text ((bound_of p v)(''account_id'' := F_str acc, ''order_type'' := F_str ot, ''mode'' := F_str md))
   = ''account_id='' @ acc @ ''|''
     @ (''symbol='' @ pp_symbol p @ ''|side='' @ pp_side p @ ''|volume='' @ render_dec v @ ''|order_type='')
     @ ot @ ''|''
     @ (''entry_price='' @ render (opt_dec (pp_entry_price p)) @ ''|stop_loss='' @ render (opt_dec (pp_stop_loss p))
        @ ''|take_profit='' @ render (opt_dec (pp_take_profit p)) @ ''|strategy_id=''
        @ render (opt_str (pp_strategy_id p)) @ ''|mode='') @ md"
  by (simp_all add: hash_text_def BOUND_FIELDS_def bound_of_def render_def)

lemma binds_order_exact:
  assumes "approve digest did li ks recent p pf now = (Some a, v)" "inj digest"
    and "CHR ''|'' \<notin> set acc" "CHR ''|'' \<notin> set ot"
    and "\<forall>s. pp_account_id p = Some s \<longrightarrow> CHR ''|'' \<notin> set s"
  shows "binds_order digest a acc ot md \<longleftrightarrow>
    acc = (case pp_account_id p of Some s \<Rightarrow> s | None \<Rightarrow> []) \<and> ot = ''market'' \<and> md = pp_mode p"
proof -
  let ?acc = "render (opt_str (pp_account_id p))"
  have acc: "?acc = (case pp_account_id p of Some s \<Rightarrow> s | None \<Rightarrow> [])" "CHR ''|'' \<notin> set ?acc"
    using assms(5) by (auto simp: render_def opt_str_def split: option.split)
  have pr: "bound_fields a = bound_of p (approved_volume a)" "ap_proposal a = p"
    using approve_Some(2,6) [OF assms(1)] by (simp_all add: bound_fields_def ap_proposal_def)
  have h: "ap_hash a = Some (request_hash digest (bound_of p (approved_volume a)))"
    by (subst approve_Some(5) [OF assms(1)]) (simp add: grant_def)
  have "binds_order digest a acc ot md \<longleftrightarrow>
     hash_text ((bound_of p (approved_volume a))(''account_id'' := F_str acc, ''order_type'' := F_str ot,
        ''mode'' := F_str md)) = hash_text (bound_of p (approved_volume a))"
    using assms(2) by (simp add: binds_order_def binds_def h pr request_hash_def inj_eq)
  also have "\<dots> \<longleftrightarrow> acc = ?acc \<and> ot = ''market'' \<and> md = pp_mode p"
  proof
    assume e: "hash_text ((bound_of p (approved_volume a))(''account_id'' := F_str acc,
      ''order_type'' := F_str ot, ''mode'' := F_str md)) = hash_text (bound_of p (approved_volume a))"
    show "acc = ?acc \<and> ot = ''market'' \<and> md = pp_mode p"
      by (rule two_bars [OF e [unfolded hash_text_split same_append_eq] assms(3) acc(2) assms(4)]) simp
  next
    assume "acc = ?acc \<and> ot = ''market'' \<and> md = pp_mode p"
    then show "hash_text ((bound_of p (approved_volume a))(''account_id'' := F_str acc,
      ''order_type'' := F_str ot, ''mode'' := F_str md)) = hash_text (bound_of p (approved_volume a))"
      unfolding hash_text_split by simp
  qed
  finally show ?thesis unfolding acc(1) .
qed

text \<open>C8: an approval binds to one order. If the digest does not collide and the account, the
  order type and the mode contain no bar, an approval is accepted for an order exactly when
  the order is booked on the approved account, is a market order and runs in the mode that
  risk evaluated.\<close>

theorem approval_binds_one_order:
  assumes "approve digest did li ks recent p pf now = (Some a, v)" "inj digest"
    and "CHR ''|'' \<notin> set acc" "CHR ''|'' \<notin> set ot"
    and "\<forall>s. pp_account_id p = Some s \<longrightarrow> CHR ''|'' \<notin> set s"
  shows "binds_order digest a acc ot md \<longleftrightarrow>
    acc = (case pp_account_id p of Some s \<Rightarrow> s | None \<Rightarrow> []) \<and> ot = ''market'' \<and> md = pp_mode p"
  by (rule binds_order_exact [OF assms])

theorem approval_binds_one_order_witness:
  "\<exists>a v. approve id ''d1'' default_limits no_switches [] demo_proposal None 0 = (Some a, v)
    \<and> binds_order id a ''acct'' ''market'' ''paper'' \<and> \<not> binds_order id a ''acct'' ''limit'' ''paper''
    \<and> \<not> binds_order id a ''other'' ''market'' ''paper''"
proof -
  obtain a v where r: "approve id ''d1'' default_limits no_switches [] demo_proposal None 0 = (Some a, v)"
    using demo_approved by blast
  have "binds_order id a acc ot md \<longleftrightarrow> acc = ''acct'' \<and> ot = ''market'' \<and> md = ''paper''"
    if "CHR ''|'' \<notin> set acc" "CHR ''|'' \<notin> set ot" for acc ot md
    using approval_binds_one_order [OF r _ that, of md] by (simp add: demo_proposal_def)
  then show ?thesis using r by auto
qed

text \<open>The hypotheses are needed: the fields are joined by bars that are not escaped, so two
  different orders can have one digest, whatever the digest is.\<close>

lemma unescaped_fields_collide:
  "request_hash digest (bound_of (demo_proposal\<lparr>pp_symbol := ''X|side=buy'', pp_side := ''buy''\<rparr>) 1)
   = request_hash digest (bound_of (demo_proposal\<lparr>pp_symbol := ''X'', pp_side := ''buy|side=buy''\<rparr>) 1)"
  by (simp add: request_hash_def hash_text_split demo_proposal_def)

end
