(* ===== verification/Broker.thy ===== *)
theory Broker
  imports Precision
begin

text \<open>
  The vocabulary of the broker interface, \<open>backend/app/brokers/base.py\<close>, and the check of a
  request against the venue's own terms, \<open>backend/app/brokers/validation.py\<close>. The adapters
  themselves (a terminal, a paper venue, a fake) are not modelled: an adapter is the record
  \<open>adapter\<close> of what it answers to each call, so every theorem about the order manager holds
  for every adapter. A call answers with a value, raises a \<open>BrokerError\<close>, which means that the
  adapter is sure nothing was sent, or raises anything else.
\<close>

datatype connection_state =
  Disconnected | Connecting | Connected | Degraded | Reconnecting | Reconciling | Conn_error

datatype broker_status = B_accepted | B_rejected | B_unknown

record symbol_info =
  si_symbol :: string
  si_digits :: int
  si_point :: rat
  si_contract_size :: "rat option"
  si_tick_size :: "rat option"
  si_tick_value :: "rat option"
  volume_min :: "rat option"
  volume_max :: "rat option"
  si_volume_step :: "rat option"

record broker_position =
  bp_id :: string
  bp_symbol :: string
  bp_side :: string
  bp_volume :: rat
  bp_entry_price :: rat
  bp_opened_at :: time
  bp_stop_loss :: "rat option"
  bp_take_profit :: "rat option"
  bp_profit :: "rat option"
  bp_swap :: "rat option"
  bp_magic :: "int option"

record broker_order =
  bo_id :: string
  bo_symbol :: string
  bo_side :: string
  bo_volume :: rat
  bo_price :: "rat option"
  bo_state :: string
  bo_placed_at :: time
  bo_magic :: "int option"

record order_request =
  rq_symbol :: string
  rq_side :: string
  rq_volume :: rat
  rq_stop_loss :: "rat option"
  rq_take_profit :: "rat option"
  rq_comment :: string
  rq_magic :: "int option"
  rq_intent_id :: string

record order_result =
  rs_status :: broker_status
  rs_detail :: string
  rs_order_id :: "string option"
  rs_position_id :: "string option"
  rs_deal_id :: "string option"
  rs_fill_price :: "rat option"
  rs_filled_volume :: "rat option"
  rs_filled_at :: "time option"
  rs_retcode :: "int option"
  rs_fill_source :: string
  rs_realized_pnl :: "rat option"

definition is_accepted :: "order_result \<Rightarrow> bool" where
  "is_accepted r \<longleftrightarrow> rs_status r = B_accepted"

definition is_unknown :: "order_result \<Rightarrow> bool" where
  "is_unknown r \<longleftrightarrow> rs_status r = B_unknown"

datatype 'a answer = Answer 'a | Broker_error string | Other_error string

record adapter =
  get_symbols :: "symbol_info list answer"
  place_order :: "order_request \<Rightarrow> order_result answer"
  close_position :: "string \<Rightarrow> rat \<Rightarrow> order_result answer"
  cancel_order :: "string \<Rightarrow> order_result answer"
  modify_levels :: "string \<Rightarrow> rat option \<Rightarrow> rat option \<Rightarrow> order_result answer"
  get_orders :: "broker_order list answer"
  get_positions :: "broker_position list answer"
  call_ms :: int \<comment> \<open>how long a submission took, by the wall clock\<close>

section \<open>Validation against the venue's terms\<close>

definition SIDES :: "string list" where "SIDES = [''buy'', ''sell'']"

datatype problem =
    P_no_spec string
  | P_side string
  | P_volume_not_positive rat
  | P_below_minimum rat rat
  | P_above_maximum rat rat
  | P_off_step rat rat rat
  | P_level string rat
  | P_bracket string rat rat rat

record validation_report =
  vr_ok :: bool
  vr_problems :: "problem list"

definition truthy_dec :: "rat option \<Rightarrow> bool" where \<comment> \<open>\<open>if x\<close> for a \<open>Decimal | None\<close>\<close>
  "truthy_dec x \<longleftrightarrow> x \<noteq> None \<and> x \<noteq> Some 0"

definition volume_problems :: "rat \<Rightarrow> symbol_info \<Rightarrow> problem list" where
  "volume_problems v info =
     (if v \<le> 0 then [P_volume_not_positive v]
      else (case volume_min info of Some mn \<Rightarrow> if v < mn then [P_below_minimum v mn] else [] | None \<Rightarrow> [])
         @ (case volume_max info of Some mx \<Rightarrow> if v > mx then [P_above_maximum v mx] else [] | None \<Rightarrow> [])
         @ (case si_volume_step info of
              Some st \<Rightarrow> if \<not> is_step_multiple v st then [P_off_step v st (floor_to_step v st)] else []
            | None \<Rightarrow> []))"

definition level_problems :: "string \<Rightarrow> rat option \<Rightarrow> problem list" where
  "level_problems name level =
     (case level of Some l \<Rightarrow> if l \<le> 0 then [P_level name l] else [] | None \<Rightarrow> [])"

definition bracket_problems :: "order_request \<Rightarrow> rat option \<Rightarrow> problem list" where
  "bracket_problems rq quote_bid = (case quote_bid of
     None \<Rightarrow> []
   | Some bid \<Rightarrow>
       if truthy_dec (rq_stop_loss rq) \<and> truthy_dec (rq_take_profit rq) then
         let sl = the (rq_stop_loss rq); tp = the (rq_take_profit rq) in
         (if rq_side rq = ''buy'' \<and> \<not> (sl < bid \<and> bid < tp) then [P_bracket ''buy'' bid sl tp] else [])
         @ (if rq_side rq = ''sell'' \<and> \<not> (tp < bid \<and> bid < sl) then [P_bracket ''sell'' bid sl tp] else [])
       else [])"

definition validate_order :: "order_request \<Rightarrow> symbol_info option \<Rightarrow> rat option \<Rightarrow> validation_report" where
  "validate_order rq info quote_bid = (case info of
     None \<Rightarrow> \<lparr>vr_ok = False, vr_problems = [P_no_spec (rq_symbol rq)]\<rparr>
   | Some i \<Rightarrow>
       let problems =
         (if rq_side rq \<notin> set SIDES then [P_side (rq_side rq)] else [])
         @ volume_problems (rq_volume rq) i
         @ level_problems ''stop_loss'' (rq_stop_loss rq)
         @ level_problems ''take_profit'' (rq_take_profit rq)
         @ bracket_problems rq quote_bid
       in \<lparr>vr_ok = (problems = []), vr_problems = problems\<rparr>)"

text \<open>What an accepted request satisfies.\<close>

lemma validate_order_ok_iff:
  "vr_ok (validate_order rq info None) \<longleftrightarrow>
     (\<exists>i. info = Some i \<and> rq_side rq \<in> {''buy'', ''sell''} \<and> 0 < rq_volume rq
       \<and> (\<forall>mn. volume_min i = Some mn \<longrightarrow> mn \<le> rq_volume rq)
       \<and> (\<forall>mx. volume_max i = Some mx \<longrightarrow> rq_volume rq \<le> mx)
       \<and> (\<forall>st. si_volume_step i = Some st \<longrightarrow> is_step_multiple (rq_volume rq) st)
       \<and> (\<forall>l. rq_stop_loss rq = Some l \<longrightarrow> 0 < l) \<and> (\<forall>l. rq_take_profit rq = Some l \<longrightarrow> 0 < l))"
  by (auto simp: validate_order_def volume_problems_def level_problems_def bracket_problems_def SIDES_def
      split: option.splits if_splits)

end
