(* ===== verification/Oms.thy ===== *)
theory Oms
  imports Managed_Order Risk_Engine Broker
begin

text \<open>
  The order manager, \<open>backend/app/oms/service.py\<close>, with the events of \<open>backend/app/oms/events.py\<close>.

  The manager keeps references to mutable orders in several dictionaries, so its state has a
  heap of orders and the dictionaries map to positions in it. A method is a function from
  the state to a result or exception together with the state as it then is: an exception
  keeps what was written before it. The adapter of a call is the parameter \<open>ad\<close>; the field
  \<open>calls\<close> records, for the theorems only, each call made to it and, for a call that names an
  order, the state in which the order's record was when the call was made. The clock is a
  parameter, and so is the uuid of a new order.
\<close>

section \<open>State\<close>

type_synonym ref = nat

datatype event_type =
    ORDER_CREATED | ORDER_UPDATED | ORDER_SUBMITTED | ORDER_ACKNOWLEDGED | ORDER_PARTIALLY_FILLED
  | ORDER_FILLED | ORDER_CANCELLED | ORDER_REJECTED | ORDER_FAILED | ORDER_UNKNOWN

fun event_for :: "order_status \<Rightarrow> event_type" where
  "event_for Intent = ORDER_CREATED"
| "event_for Submitting = ORDER_UPDATED"
| "event_for Submitted = ORDER_SUBMITTED"
| "event_for Accepted = ORDER_ACKNOWLEDGED"
| "event_for Partially_filled = ORDER_PARTIALLY_FILLED"
| "event_for Filled = ORDER_FILLED"
| "event_for Cancel_requested = ORDER_UPDATED"
| "event_for Cancelled = ORDER_CANCELLED"
| "event_for Rejected = ORDER_REJECTED"
| "event_for Expired = ORDER_CANCELLED"
| "event_for Failed = ORDER_FAILED"
| "event_for Unknown = ORDER_UNKNOWN"

record payload =
  pl_order_id :: string
  pl_client_order_id :: string
  pl_broker_order_id :: "string option"
  pl_account_id :: string
  pl_strategy_id :: "string option"
  pl_signal_id :: "string option"
  pl_symbol :: string
  pl_side :: string
  pl_order_type :: string
  pl_mode :: string
  pl_status :: string
  pl_quantity :: rat
  pl_filled_quantity :: rat
  pl_remaining_quantity :: rat
  pl_average_fill_price :: "rat option"
  pl_stop_loss :: "rat option"
  pl_take_profit :: "rat option"
  pl_risk_decision_id :: "string option"
  pl_reject_reason :: "note_text option"
  pl_error_code :: "note_text option"
  pl_needs_reconciliation :: bool

definition payload_for :: "managed_order \<Rightarrow> payload" where
  "payload_for ord = \<lparr>pl_order_id = oid ord, pl_client_order_id = client_order_id ord,
     pl_broker_order_id = broker_order_id ord, pl_account_id = account_id ord,
     pl_strategy_id = strategy_id ord, pl_signal_id = signal_id ord, pl_symbol = symbol ord,
     pl_side = side ord, pl_order_type = order_type ord, pl_mode = order_mode ord,
     pl_status = status_value (status ord), pl_quantity = quantity ord,
     pl_filled_quantity = filled_quantity (book ord),
     pl_remaining_quantity = remaining_quantity (book ord),
     pl_average_fill_price = average_price (book ord), pl_stop_loss = stop_loss ord,
     pl_take_profit = take_profit ord, pl_risk_decision_id = risk_decision_id ord,
     pl_reject_reason = reject_reason ord, pl_error_code = error_code ord,
     pl_needs_reconciliation = needs_reconciliation ord\<rparr>"

record event =
  ev_type :: event_type
  ev_payload :: payload
  ev_ref :: ref

datatype venue_call =
    Place ref order_request order_status
  | Close ref string rat order_status
  | Cancel ref string order_status
  | Modify ref string "rat option" "rat option" order_status
  | Read_symbols | Read_orders | Read_positions

record oms =
  mgr_mode :: string
  mgr_broker :: "string option"
  spec_cache_seconds :: rat
  heap :: "managed_order list"
  orders :: "string \<Rightarrow> ref option"
  by_intent :: "string \<Rightarrow> ref option"
  by_broker_id :: "string \<Rightarrow> ref option"
  pending :: "event list"
  queued :: "string \<Rightarrow> nat option"
  counts :: "string \<Rightarrow> int"
  specs :: "string \<Rightarrow> symbol_info option"
  specs_read_at :: "time option"
  missing :: "string list"
  calls :: "venue_call list"

definition SPEC_CACHE_SECONDS :: rat where "SPEC_CACHE_SECONDS = 300"

definition new_manager :: "string \<Rightarrow> string option \<Rightarrow> rat \<Rightarrow> oms" where
  "new_manager mode brk cache =
     \<lparr>mgr_mode = mode, mgr_broker = brk, spec_cache_seconds = cache, heap = [], orders = Map.empty,
      by_intent = Map.empty, by_broker_id = Map.empty, pending = [], queued = Map.empty,
      counts = (\<lambda>_. 0), specs = Map.empty, specs_read_at = None, missing = [], calls = []\<rparr>"

section \<open>Exceptions and the composition of calls\<close>

datatype refusal =
    R_verdict risk_decision
  | R_approval_expired "time option"
  | R_binding string string string
  | R_mode string string
  | R_order_type string
  | R_needs_price string
  | R_time_in_force string
  | R_volume rat
  | R_not_discardable order_status
  | R_not_intent order_status
  | R_no_position_id
  | R_unacknowledged order_status
  | R_terminal order_status
  | R_live string order_status
  | R_resolved string order_status
  | R_other_volume
  | R_no_broker_id
  | R_venue string

datatype recon = Q_state order_status | Q_venue_unread string | Q_modify_unclear string | Q_intent string order_status

datatype oms_exc = OrderRefused refusal | ReconciliationRequired recon | OrderExc order_error

type_synonym 'a act = "oms \<Rightarrow> (oms_exc + 'a) \<times> oms"

definition retS :: "'a \<Rightarrow> 'a act" where "retS x = (\<lambda>st. (Inr x, st))"

definition raiseS :: "oms_exc \<Rightarrow> 'a act" where "raiseS e = (\<lambda>st. (Inl e, st))"

definition bindS :: "'a act \<Rightarrow> ('a \<Rightarrow> 'b act) \<Rightarrow> 'b act" where
  "bindS m k = (\<lambda>st. case m st of (Inl e, st') \<Rightarrow> (Inl e, st') | (Inr x, st') \<Rightarrow> k x st')"

definition thenS :: "'a act \<Rightarrow> 'b act \<Rightarrow> 'b act" where "thenS m k = bindS m (\<lambda>_. k)"

definition seqS :: "unit act list \<Rightarrow> unit act" where
  "seqS ms = foldr thenS ms (retS ())"

definition finallyS :: "'a act \<Rightarrow> unit act \<Rightarrow> 'a act" where
  "finallyS m f = (\<lambda>st. case m st of (x, st') \<Rightarrow>
     (case f st' of (Inl e, st'') \<Rightarrow> (Inl e, st'') | (Inr _, st'') \<Rightarrow> (x, st'')))"

definition getS :: "(oms \<Rightarrow> 'a) \<Rightarrow> 'a act" where "getS f = (\<lambda>st. (Inr (f st), st))"

definition updS :: "(oms \<Rightarrow> oms) \<Rightarrow> unit act" where "updS f = (\<lambda>st. (Inr (), f st))"

definition whenS :: "bool \<Rightarrow> unit act \<Rightarrow> unit act" where "whenS b m = (if b then m else retS ())"

definition countS :: "string \<Rightarrow> int \<Rightarrow> unit act" where
  "countS k n = updS (\<lambda>st. st\<lparr>counts := (counts st)(k := counts st k + n)\<rparr>)"

definition ordS :: "ref \<Rightarrow> managed_order act" where "ordS r = getS (\<lambda>st. heap st ! r)"

definition set_ord :: "ref \<Rightarrow> (managed_order \<Rightarrow> managed_order) \<Rightarrow> unit act" where
  "set_ord r f = updS (\<lambda>st. st\<lparr>heap := (heap st)[r := f (heap st ! r)]\<rparr>)"

definition callS :: "venue_call \<Rightarrow> unit act" where
  "callS c = updS (\<lambda>st. st\<lparr>calls := calls st @ [c]\<rparr>)"

text \<open>\<open>order.move\<close> and \<open>order.record_fill\<close> on the order object.\<close>

definition moveS :: "ref \<Rightarrow> order_status \<Rightarrow> time \<Rightarrow> string \<Rightarrow> note_text \<Rightarrow> int option \<Rightarrow> unit act" where
  "moveS r w t src reason rc = (\<lambda>st. case move_order (heap st ! r) w t src reason rc of
     (x, ord) \<Rightarrow> (map_sum OrderExc id x, st\<lparr>heap := (heap st)[r := ord]\<rparr>))"

definition fillS :: "ref \<Rightarrow> fill_record \<Rightarrow> time \<Rightarrow> string \<Rightarrow> bool act" where
  "fillS r f t src = (\<lambda>st. case record_fill (heap st ! r) f t src of
     (x, ord) \<Rightarrow> (map_sum OrderExc id x, st\<lparr>heap := (heap st)[r := ord]\<rparr>))"

section \<open>Events\<close>

definition drain_events :: "event list act" where
  "drain_events = (\<lambda>st. (Inr (pending st), st\<lparr>pending := []\<rparr>))"

definition queue_events :: "ref \<Rightarrow> unit act" where
  "queue_events r = updS (\<lambda>st.
     let ord = heap st ! r; seen = (case queued st (oid ord) of Some n \<Rightarrow> n | None \<Rightarrow> 0) in
     st\<lparr>pending := pending st @ map (\<lambda>e. \<lparr>ev_type = event_for (tr_new e), ev_payload = payload_for ord, ev_ref = r\<rparr>)
           (drop seen (transition_log ord)),
        queued := (queued st)(oid ord \<mapsto> length (transition_log ord))\<rparr>)"

text \<open>\<open>flush_events\<close>: every event is offered to the sink once, and what the sink raises is
  swallowed. The result is the list of the events offered.\<close>

definition flush_events :: "bool \<Rightarrow> event list act" where
  "flush_events has_sink = bindS drain_events (\<lambda>es. retS (if has_sink then es else []))"

section \<open>Creation\<close>

definition validate_approval :: "'h approval \<Rightarrow> time \<Rightarrow> unit act" where
  "validate_approval ap now =
     (if \<not> vd_approved (ap_verdict ap) then raiseS (OrderRefused (R_verdict (decision (ap_verdict ap))))
      else if expired ap now then raiseS (OrderRefused (R_approval_expired (ap_expires_at ap)))
      else retS ())"

definition validate_binding :: "(string \<Rightarrow> 'h) \<Rightarrow> 'h approval \<Rightarrow> string \<Rightarrow> string \<Rightarrow> unit act" where
  "validate_binding digest ap acc ot = bindS (getS mgr_mode) (\<lambda>m.
     if \<not> binds_order digest ap acc ot m then raiseS (OrderRefused (R_binding acc ot m)) else retS ())"

record create_args =
  ca_intent_id :: string
  ca_account_id :: string
  ca_order_id :: "string option"
  ca_order_type :: string
  ca_time_in_force :: string
  ca_bot_id :: "string option"
  ca_expires_at :: "time option"

definition order_of :: "oms \<Rightarrow> 'h approval \<Rightarrow> create_args \<Rightarrow> string \<Rightarrow> time \<Rightarrow> managed_order" where
  "order_of st ap ca new_id now = (let p = ap_proposal ap in
     \<lparr>oid = (case ca_order_id ca of Some i \<Rightarrow> if i = [] then new_id else i | None \<Rightarrow> new_id),
      client_order_id = ca_intent_id ca, account_id = ca_account_id ca, symbol = pp_symbol p,
      side = pp_side p, quantity = approved_volume ap, order_mode = mgr_mode st, created_at = now,
      order_type = ca_order_type ca, time_in_force = ca_time_in_force ca, status = Intent,
      broker_order_id = None, order_broker = mgr_broker st, requested_price = pp_entry_price p,
      stop_loss = pp_stop_loss p, take_profit = pp_take_profit p, signal_id = pp_signal_id p,
      strategy_id = pp_strategy_id p, bot_id = ca_bot_id ca, risk_decision_id = Some (decision_id ap),
      expires_at = ca_expires_at ca, submitted_at = None, acknowledged_at = None,
      order_filled_at = None, cancelled_at = None, reject_reason = None, error_code = None,
      transition_log = [], book = \<lparr>requested = approved_volume ap, fills = []\<rparr>\<rparr>)"

definition register :: "managed_order \<Rightarrow> ref act" where
  "register ord = (\<lambda>st. let r = length (heap st) in
     (Inr r, st\<lparr>heap := heap st @ [ord], orders := (orders st)(oid ord \<mapsto> r),
        by_intent := (by_intent st)(client_order_id ord \<mapsto> r)\<rparr>))"

text \<open>The result is a \<open>Submission\<close>: the order and whether it existed already.\<close>

definition create ::
    "(string \<Rightarrow> 'h) \<Rightarrow> 'h approval \<Rightarrow> create_args \<Rightarrow> string \<Rightarrow> time \<Rightarrow> (ref \<times> bool) act" where
  "create digest ap ca new_id now =
     bindS (validate_approval ap now) (\<lambda>_.
     bindS (getS (\<lambda>st. by_intent st (ca_intent_id ca))) (\<lambda>existing.
     case existing of
       Some r \<Rightarrow> thenS (countS ''duplicate_orders_prevented'' 1) (retS (r, True))
     | None \<Rightarrow> (let p = ap_proposal ap in
         bindS (getS mgr_mode) (\<lambda>m.
         if pp_mode p \<noteq> m then raiseS (OrderRefused (R_mode (pp_mode p) m))
         else if ca_order_type ca \<notin> {''market'', ''limit'', ''stop''}
         then raiseS (OrderRefused (R_order_type (ca_order_type ca)))
         else if ca_order_type ca \<in> {''limit'', ''stop''} \<and> pp_entry_price p = None
         then raiseS (OrderRefused (R_needs_price (ca_order_type ca)))
         else if ca_time_in_force ca \<notin> {''gtc'', ''ioc'', ''fok'', ''day''}
         then raiseS (OrderRefused (R_time_in_force (ca_time_in_force ca)))
         else bindS (validate_binding digest ap (ca_account_id ca) (ca_order_type ca)) (\<lambda>_.
         if approved_volume ap \<le> 0 then raiseS (OrderRefused (R_volume (approved_volume ap)))
         else bindS (getS (\<lambda>st. order_of st ap ca new_id now)) (\<lambda>ord.
           bindS (register ord) (\<lambda>r.
           thenS (countS ''orders_created'' 1)
           (thenS (updS (\<lambda>st. st\<lparr>pending := pending st @
              [\<lparr>ev_type = ORDER_CREATED, ev_payload = payload_for ord, ev_ref = r\<rparr>]\<rparr>))
           (thenS (queue_events r) (retS (r, False)))))))))))"

definition discard :: "ref \<Rightarrow> unit act" where
  "discard r = bindS (ordS r) (\<lambda>ord.
     if status ord \<noteq> Intent \<or> truthy (broker_order_id ord)
     then raiseS (OrderRefused (R_not_discardable (status ord)))
     else thenS (updS (\<lambda>st. st\<lparr>
          orders := (orders st)(oid ord := None),
          by_intent := (if by_intent st (client_order_id ord) = Some r
            then (by_intent st)(client_order_id ord := None) else by_intent st),
          queued := (queued st)(oid ord := None),
          pending := filter (\<lambda>e. ev_ref e \<noteq> r) (pending st)\<rparr>))
       (thenS (countS ''orders_created'' (- 1)) (countS ''orders_discarded_unrecorded'' 1)))"

section \<open>The ways a submission ends\<close>

definition fail :: "ref \<Rightarrow> time \<Rightarrow> note_text \<Rightarrow> string \<Rightarrow> unit act" where
  "fail r now reason code = seqS
     [moveS r Failed now ''broker'' reason None,
      set_ord r (\<lambda>ord. ord\<lparr>reject_reason := Some reason, error_code := Some [Txt code]\<rparr>),
      countS ''orders_failed'' 1, queue_events r]"

definition truthy_text :: "note_text option \<Rightarrow> bool" where
  "truthy_text x \<longleftrightarrow> x \<noteq> None \<and> x \<noteq> Some []"

text \<open>An illegal move to \<open>unknown\<close> is swallowed.\<close>

definition park_unknown :: "ref \<Rightarrow> time \<Rightarrow> note_text \<Rightarrow> unit act" where
  "park_unknown r now reason = seqS
     [(\<lambda>st. case moveS r Unknown now ''broker'' reason None st of
         (Inl (OrderExc (IllegalOrderTransition _ _)), st') \<Rightarrow> (Inr (), st') | (x, st') \<Rightarrow> (x, st')),
      set_ord r (\<lambda>ord. if truthy_text (error_code ord) then ord
        else ord\<lparr>error_code := Some [Txt ''UNKNOWN_VENUE_STATE'']\<rparr>),
      countS ''orders_unknown'' 1, queue_events r]"

definition observe_latency :: "adapter \<Rightarrow> unit act" where
  "observe_latency ad = seqS
     [countS ''broker_submission_ms_total'' (call_ms ad), countS ''broker_submissions'' 1]"

text \<open>\<open>_record\<close>: an overfill is counted and raised again.\<close>

definition record_exec :: "ref \<Rightarrow> fill_record \<Rightarrow> time \<Rightarrow> bool act" where
  "record_exec r f now = (\<lambda>st. case fillS r f now ''broker'' st of
     (Inl (OrderExc (FillRefused e)), st') \<Rightarrow>
       bindS (countS ''fill_discrepancies'' 1) (\<lambda>_. raiseS (OrderExc (FillRefused e))) st'
   | (Inl e, st') \<Rightarrow> (Inl e, st')
   | (Inr False, st') \<Rightarrow> thenS (countS ''duplicate_fills_ignored'' 1) (retS False) st'
   | (Inr True, st') \<Rightarrow>
       bindS (ordS r) (\<lambda>ord.
       thenS (countS (if status ord = Filled then ''orders_filled'' else ''orders_partially_filled'') 1)
       (thenS (queue_events r) (retS True))) st')"

text \<open>\<open>FillRecord(...)\<close>, whose constructor may raise.\<close>

definition new_fill ::
    "rat \<Rightarrow> rat \<Rightarrow> time \<Rightarrow> string \<Rightarrow> string option \<Rightarrow> rat \<Rightarrow> rat \<Rightarrow> rat option \<Rightarrow> fill_record act" where
  "new_fill q p t src deal comm swp pnl =
     (case make_fill (Fin q) (Fin p) t src deal comm swp None pnl of
        Inl e \<Rightarrow> raiseS (OrderExc (FillRefused e)) | Inr f \<Rightarrow> retS f)"

definition text_or :: "string \<Rightarrow> string \<Rightarrow> note_text" where \<comment> \<open>\<open>a or b\<close>\<close>
  "text_or a b = [Txt (if a \<noteq> [] then a else b)]"

definition apply_result :: "ref \<Rightarrow> order_result \<Rightarrow> time \<Rightarrow> unit act" where
  "apply_result r res now =
     thenS (whenS (truthy (rs_order_id res)) (seqS
        [set_ord r (\<lambda>ord. ord\<lparr>broker_order_id := rs_order_id res\<rparr>),
         updS (\<lambda>st. st\<lparr>by_broker_id := (by_broker_id st)(the (rs_order_id res) \<mapsto> r)\<rparr>)]))
     (if is_unknown res
      then park_unknown r now (text_or (rs_detail res) ''the venue's answer was unclear'')
      else if rs_status res = B_rejected then seqS
        [moveS r Submitted now ''pipeline'' [Txt ''transmitted''] (rs_retcode res),
         moveS r Rejected now ''broker'' [Txt (rs_detail res)] (rs_retcode res),
         set_ord r (\<lambda>ord. ord\<lparr>reject_reason := Some [Txt (rs_detail res)],
           error_code := map_option (\<lambda>n. [Whole n]) (rs_retcode res)\<rparr>),
         countS ''orders_rejected'' 1]
      else thenS (moveS r Submitted now ''pipeline'' [Txt ''transmitted''] (rs_retcode res))
       (thenS (moveS r Accepted now ''broker'' (text_or (rs_detail res) ''accepted by the venue'') (rs_retcode res))
       (case (rs_filled_volume res, rs_fill_price res) of
          (Some q, Some p) \<Rightarrow>
            bindS (new_fill q p (case rs_filled_at res of Some t \<Rightarrow> t | None \<Rightarrow> now)
               (if rs_fill_source res \<noteq> [] then rs_fill_source res else ''broker'')
               (str_or (str_or (rs_deal_id res) (rs_position_id res)) (rs_order_id res)) 0 0
               (rs_realized_pnl res)) (\<lambda>f.
            bindS (record_exec r f now) (\<lambda>_. retS ()))
        | _ \<Rightarrow> retS ())))"

section \<open>Submission\<close>

text \<open>\<open>_venue_spec\<close>: the venue's terms for a symbol, or the exception of the read.\<close>

definition spec_stale :: "oms \<Rightarrow> string \<Rightarrow> time \<Rightarrow> bool" where
  "spec_stale st sy now = (case specs_read_at st of
     None \<Rightarrow> True
   | Some t \<Rightarrow> seconds (now - t) \<ge> spec_cache_seconds st \<or> specs st sy = None \<and> sy \<notin> set (missing st))"

definition spec_lookup :: "string \<Rightarrow> (string + symbol_info option) act" where
  "spec_lookup sy = thenS (updS (\<lambda>st. if specs st sy = None \<and> sy \<notin> set (missing st)
       then st\<lparr>missing := sy # missing st\<rparr> else st))
     (getS (\<lambda>st. Inr (specs st sy)))"

definition venue_spec :: "adapter \<Rightarrow> string \<Rightarrow> time \<Rightarrow> (string + symbol_info option) act" where
  "venue_spec ad sy now = bindS (getS (\<lambda>st. spec_stale st sy now)) (\<lambda>stale.
     if stale then thenS (callS Read_symbols) (case get_symbols ad of
        Answer rows \<Rightarrow> thenS (updS (\<lambda>st. st\<lparr>specs := map_of (rev (map (\<lambda>i. (si_symbol i, i)) rows)),
            specs_read_at := Some now, missing := []\<rparr>)) (spec_lookup sy)
      | Broker_error e \<Rightarrow> retS (Inl e)
      | Other_error e \<Rightarrow> retS (Inl e))
     else spec_lookup sy)"

definition request_of :: "managed_order \<Rightarrow> order_request" where
  "request_of ord = \<lparr>rq_symbol = symbol ord, rq_side = side ord, rq_volume = quantity ord,
     rq_stop_loss = stop_loss ord, rq_take_profit = take_profit ord,
     rq_comment = take 31 (''oms:'' @ client_order_id ord), rq_magic = None,
     rq_intent_id = client_order_id ord\<rparr>"

fun problem_text :: "problem \<Rightarrow> note_text" where
  "problem_text (P_no_spec sy) = [Txt ''no symbol specification for '', Txt sy]"
| "problem_text (P_side sd) = [Txt ''side must be one of buy, sell, not '', Txt sd]"
| "problem_text (P_volume_not_positive v) = [Txt ''volume must be positive, not '', Num v]"
| "problem_text (P_below_minimum v mn) = [Txt ''volume '', Num v, Txt '' is below the venue minimum '', Num mn]"
| "problem_text (P_above_maximum v mx) = [Txt ''volume '', Num v, Txt '' is above the venue maximum '', Num mx]"
| "problem_text (P_off_step v st n) = [Txt ''volume '', Num v, Txt '' is not a multiple of the step '', Num st,
     Txt ''; the nearest valid volume at or below it is '', Num n]"
| "problem_text (P_level name l) = [Txt name, Txt '' must be a positive price level, not '', Num l]"
| "problem_text (P_bracket sd bid sl tp) = [Txt sd, Txt '' bracket does not straddle the quote '', Num bid,
     Txt '': sl='', Num sl, Txt '' tp='', Num tp]"

definition due :: "time option \<Rightarrow> time \<Rightarrow> bool" where
  "due t now = (case t of None \<Rightarrow> False | Some e \<Rightarrow> now \<ge> e)"

text \<open>The call itself and the three readings of its answer; the latency is observed last unless
  the venue answered.\<close>

definition settle :: "adapter \<Rightarrow> ref \<Rightarrow> order_result answer \<Rightarrow> time \<Rightarrow> unit act" where
  "settle ad r ans now = (case ans of
     Broker_error e \<Rightarrow> finallyS (fail r now [Txt e] ''BROKER_ERROR'') (observe_latency ad)
   | Other_error e \<Rightarrow> finallyS (park_unknown r now [Txt e]) (observe_latency ad)
   | Answer res \<Rightarrow> seqS [observe_latency ad, apply_result r res now, queue_events r])"

definition transmit :: "adapter \<Rightarrow> ref \<Rightarrow> order_request \<Rightarrow> time \<Rightarrow> unit act" where
  "transmit ad r rq now = seqS
     [moveS r Submitting now ''pipeline''
        [Txt ''persisted before transmission; a crash here is reconcilable''] None,
      countS ''orders_submitted'' 1,
      bindS (ordS r) (\<lambda>ord. callS (Place r rq (status ord))),
      settle ad r (place_order ad rq) now]"

definition submit :: "adapter \<Rightarrow> ref \<Rightarrow> time \<Rightarrow> unit act" where
  "submit ad r now = bindS (ordS r) (\<lambda>ord.
     if status ord \<noteq> Intent then raiseS (OrderRefused (R_not_intent (status ord)))
     else if due (expires_at ord) now then seqS
       [moveS r Failed now ''expiry'' [Txt ''the order expired before it was sent; nothing was transmitted''] None,
        set_ord r (\<lambda>ord. ord\<lparr>error_code := Some [Txt ''EXPIRED_BEFORE_SUBMIT'']\<rparr>),
        queue_events r]
     else let rq = request_of ord in
       bindS (venue_spec ad (symbol ord) now) (\<lambda>info. case info of
         Inl e \<Rightarrow> seqS [countS ''orders_refused_on_venue_spec'' 1,
             fail r now [Txt ''the venue's contract terms for '', Txt (symbol ord),
               Txt '' could not be read ('', Txt e, Txt '')''] ''VENUE_SPEC_UNREADABLE'']
       | Inr i \<Rightarrow> (let report = validate_order rq i None in
           if \<not> vr_ok report then seqS [countS ''orders_refused_on_venue_spec'' 1,
             fail r now (concat (map problem_text (vr_problems report))) ''VENUE_SPEC_REFUSED'']
           else transmit ad r rq now)))"

definition close :: "adapter \<Rightarrow> ref \<Rightarrow> string \<Rightarrow> time \<Rightarrow> unit act" where
  "close ad r pid now = bindS (ordS r) (\<lambda>ord.
     if status ord \<noteq> Intent then raiseS (OrderRefused (R_not_intent (status ord)))
     else if pid = [] then raiseS (OrderRefused R_no_position_id)
     else seqS
       [moveS r Submitting now ''pipeline''
          [Txt ''close persisted before transmission; a crash here is reconcilable''] None,
        countS ''closes_submitted'' 1,
        bindS (ordS r) (\<lambda>ord'. callS (Close r pid (quantity ord') (status ord'))),
        settle ad r (close_position ad pid (quantity ord)) now])"

section \<open>Execution reports, cancel, modify\<close>

definition apply_execution_report ::
    "ref \<Rightarrow> rat \<Rightarrow> rat \<Rightarrow> string option \<Rightarrow> rat \<Rightarrow> rat \<Rightarrow> string \<Rightarrow> time \<Rightarrow> bool act" where
  "apply_execution_report r q p deal comm swp src now = bindS (ordS r) (\<lambda>ord.
     if status ord \<in> {Intent, Submitting} then raiseS (OrderRefused (R_unacknowledged (status ord)))
     else bindS (new_fill q p now src deal comm swp None) (\<lambda>f. record_exec r f now))"

definition cancel :: "adapter \<Rightarrow> ref \<Rightarrow> string \<Rightarrow> time \<Rightarrow> unit act" where
  "cancel ad r reason now = bindS (ordS r) (\<lambda>ord.
     if order_terminal ord then raiseS (OrderRefused (R_terminal (status ord)))
     else if needs_reconciliation ord then raiseS (ReconciliationRequired (Q_state (status ord)))
     else thenS (moveS r Cancel_requested now ''operator'' (text_or reason ''cancel requested'') None)
      (case broker_order_id ord of
         None \<Rightarrow> park_unknown r now [Txt ''no broker order id; the venue cannot be asked about this order'']
       | Some bid \<Rightarrow>
           thenS (bindS (ordS r) (\<lambda>o'. callS (Cancel r bid (status o'))))
           (case cancel_order ad bid of
              Broker_error e \<Rightarrow> park_unknown r now [Txt ''cancel failed: '', Txt e]
            | Other_error e \<Rightarrow> park_unknown r now [Txt ''cancel outcome unclear: '', Txt e]
            | Answer res \<Rightarrow>
                if is_unknown res then park_unknown r now (text_or (rs_detail res) ''cancel outcome unclear'')
                else if rs_status res = B_rejected then
                  moveS r Accepted now ''broker'' [Txt ''the venue refused the cancel: '', Txt (rs_detail res)]
                    (rs_retcode res)
                else seqS
                  [moveS r Cancelled now ''broker'' (text_or (rs_detail res) ''cancelled at the venue'')
                     (rs_retcode res),
                   countS ''orders_cancelled'' 1, queue_events r])))"

definition modification :: "managed_order \<Rightarrow> time \<Rightarrow> string \<Rightarrow> int option \<Rightarrow> order_transition" where
  "modification ord now det rc = \<lparr>tr_at = now, tr_previous = status ord, tr_new = status ord,
     tr_source = ''operator'', tr_reason = [Txt ''modified: '', Txt det],
     tr_broker_order_id = broker_order_id ord, tr_retcode = rc\<rparr>"

definition apply_levels :: "rat option \<Rightarrow> rat option \<Rightarrow> string \<Rightarrow> managed_order \<Rightarrow> managed_order" where
  "apply_levels sl tp did ord = ord\<lparr>
     stop_loss := (if sl \<noteq> None then sl else stop_loss ord),
     take_profit := (if tp \<noteq> None then tp else take_profit ord),
     risk_decision_id := Some did\<rparr>"

definition modify ::
    "(string \<Rightarrow> 'h) \<Rightarrow> adapter \<Rightarrow> ref \<Rightarrow> 'h approval \<Rightarrow> rat option \<Rightarrow> rat option \<Rightarrow> time \<Rightarrow> unit act" where
  "modify digest ad r ap sl tp now = bindS (ordS r) (\<lambda>ord.
     if order_terminal ord then raiseS (OrderRefused (R_terminal (status ord)))
     else if needs_reconciliation ord then raiseS (ReconciliationRequired (Q_state (status ord)))
     else bindS (validate_approval ap now) (\<lambda>_.
          bindS (validate_binding digest ap (account_id ord) (order_type ord)) (\<lambda>_.
     if approved_volume ap \<noteq> quantity ord then raiseS (OrderRefused R_other_volume)
     else (case broker_order_id ord of
         None \<Rightarrow> raiseS (OrderRefused R_no_broker_id)
       | Some bid \<Rightarrow>
           thenS (callS (Modify r bid sl tp (status ord)))
           (case modify_levels ad bid sl tp of
              Broker_error e \<Rightarrow> raiseS (OrderRefused (R_venue e))
            | Other_error e \<Rightarrow> thenS (park_unknown r now [Txt ''modify outcome unclear: '', Txt e])
                (raiseS (ReconciliationRequired (Q_modify_unclear e)))
            | Answer res \<Rightarrow>
                if is_unknown res then
                  thenS (park_unknown r now (text_or (rs_detail res) ''modify outcome unclear''))
                    (raiseS (ReconciliationRequired (Q_modify_unclear (rs_detail res))))
                else if rs_status res = B_rejected then raiseS (OrderRefused (R_venue (rs_detail res)))
                else seqS
                  [set_ord r (apply_levels sl tp (decision_id ap)),
                   set_ord r (\<lambda>o'. o'\<lparr>transition_log := transition_log o' @
                      [modification o' now (rs_detail res) (rs_retcode res)]\<rparr>),
                   countS ''orders_modified'' 1, queue_events r])))))"

section \<open>Reconciliation\<close>

text \<open>\<open>_match_order\<close> and \<open>_match_position\<close>; \<open>PLATFORM_MAGIC\<close> is \<open>MAGIC\<close> of \<open>brokers/mt5.py\<close>.\<close>

definition match_order :: "managed_order \<Rightarrow> broker_order list \<Rightarrow> broker_order option" where
  "match_order ord venue_orders =
     find (\<lambda>c. truthy (broker_order_id ord) \<and> Some (bo_id c) = broker_order_id ord) venue_orders"

definition PLATFORM_MAGIC :: int where "PLATFORM_MAGIC = 770316"

definition match_position :: "managed_order \<Rightarrow> broker_position list \<Rightarrow> broker_position option" where
  "match_position ord positions =
     (if truthy (broker_order_id ord) then find (\<lambda>c. Some (bp_id c) = broker_order_id ord) positions
      else let wanted = (if side ord = ''buy'' then ''long'' else ''short'') in
        find (\<lambda>c. bp_symbol c = symbol ord \<and> bp_side c = wanted
          \<and> (bp_magic c = None \<or> bp_magic c = Some PLATFORM_MAGIC)) positions)"

definition conclude :: "ref \<Rightarrow> broker_order list \<Rightarrow> broker_position list \<Rightarrow> time \<Rightarrow> unit act" where
  "conclude r os ps now = bindS (ordS r) (\<lambda>ord.
     case match_order ord os of
       Some fo \<Rightarrow> seqS
         [set_ord r (\<lambda>o'. o'\<lparr>broker_order_id :=
             (if truthy (broker_order_id o') then broker_order_id o' else Some (bo_id fo))\<rparr>),
          moveS r (if fills (book ord) \<noteq> [] then Partially_filled
                   else if match_position ord ps \<noteq> None then Filled else Accepted)
            now ''reconciliation'' [Txt ''the venue holds order '', Txt (bo_id fo), Txt '' in state '', Txt (bo_state fo)]
            None,
          countS ''orders_reconciled'' 1, queue_events r]
     | None \<Rightarrow> (case match_position ord ps of
         Some pos \<Rightarrow>
           bindS (new_fill (bp_volume pos) (bp_entry_price pos) (bp_opened_at pos) ''broker'' (Some (bp_id pos)) 0 0 None) (\<lambda>f.
           bindS (record_exec r f now) (\<lambda>applied.
           bindS (ordS r) (\<lambda>o'. seqS
             [whenS (\<not> applied \<and> \<not> order_terminal o')
                (moveS r Filled now ''reconciliation'' [Txt ''the venue holds position '', Txt (bp_id pos)] None),
              countS ''orders_reconciled'' 1, queue_events r])))
       | None \<Rightarrow> seqS
           [moveS r Failed now ''reconciliation''
              [Txt ''the venue holds no order and no position for this intent; it never landed''] None,
            set_ord r (\<lambda>o'. o'\<lparr>error_code := Some [Txt ''NOT_AT_VENUE'']\<rparr>),
            countS ''orders_reconciled'' 1, queue_events r]))"

definition unread :: "string \<Rightarrow> unit act" where
  "unread e = thenS (countS ''reconciliation_failures'' 1) (raiseS (ReconciliationRequired (Q_venue_unread e)))"

definition reconcile :: "adapter \<Rightarrow> ref \<Rightarrow> time \<Rightarrow> unit act" where
  "reconcile ad r now = bindS (ordS r) (\<lambda>ord.
     if \<not> needs_reconciliation ord then retS ()
     else thenS (callS Read_orders) (case get_orders ad of
       Broker_error e \<Rightarrow> unread e
     | Other_error e \<Rightarrow> unread e
     | Answer os \<Rightarrow> thenS (callS Read_positions) (case get_positions ad of
           Broker_error e \<Rightarrow> unread e
         | Other_error e \<Rightarrow> unread e
         | Answer ps \<Rightarrow>
             thenS (whenS (status ord = Submitting)
               (moveS r Unknown now ''recovery'' [Txt ''found mid-submission after a restart''] None))
             (conclude r os ps now))))"

section \<open>Expiry, recovery and the guard\<close>

definition expire :: "ref \<Rightarrow> time \<Rightarrow> unit act" where
  "expire r now = bindS (ordS r) (\<lambda>ord.
     if needs_reconciliation ord then raiseS (ReconciliationRequired (Q_state (status ord)))
     else seqS [moveS r Expired now ''expiry''
          (Txt ''expired at '' # (case expires_at ord of None \<Rightarrow> [Txt ''None''] | Some t \<Rightarrow> [Whole t])) None,
        countS ''orders_expired'' 1, queue_events r])"

text \<open>\<open>resume\<close>: orders read back from the database are registered, and the ones that need
  reconciling are returned.\<close>

fun resume_orders :: "managed_order list \<Rightarrow> ref list act" where
  "resume_orders [] = retS []"
| "resume_orders (ord # os) = bindS (register ord) (\<lambda>r.
     thenS (updS (\<lambda>st. if truthy (broker_order_id ord)
         then st\<lparr>by_broker_id := (by_broker_id st)(the (broker_order_id ord) \<mapsto> r)\<rparr> else st))
     (bindS (resume_orders os) (\<lambda>rs. retS (if needs_reconciliation ord then r # rs else rs))))"

definition resume :: "managed_order list \<Rightarrow> ref list act" where
  "resume os = bindS (resume_orders os) (\<lambda>needs.
     thenS (whenS (needs \<noteq> [])
       (countS ''orders_recovered_needing_reconciliation'' (int (length needs)))) (retS needs))"

definition guard_resend :: "string \<Rightarrow> unit act" where
  "guard_resend intent = bindS (getS (\<lambda>st. map_option (\<lambda>r. heap st ! r) (by_intent st intent))) (\<lambda>previous.
     case previous of
       None \<Rightarrow> retS ()
     | Some ord \<Rightarrow>
         if needs_reconciliation ord then raiseS (ReconciliationRequired (Q_intent intent (status ord)))
         else if \<not> order_terminal ord then raiseS (OrderRefused (R_live intent (status ord)))
         else if \<not> can_resend (status ord) then raiseS (OrderRefused (R_resolved intent (status ord)))
         else retS ())"

end
