(* ===== verification/Oms_Laws.thy ===== *)
theory Oms_Laws
  imports Oms
begin

text \<open>
  What every operation of the order manager keeps. \<open>venue_safe\<close> is the contract between the
  order objects and the manager: a relation between a state and a later one that is kept by
  each thing the manager may do to an order (move it, record a fill, write a bookkeeping
  field, log a modification) and by each change that leaves the orders, the registers and
  the sends alone. Every operation except registration and the send itself then keeps it.
  The interpretations are at the end: the history of each order only grows along legal
  moves, a sound audit trail stays sound, and the registers and the sends stay as they are.
\<close>

definition holds :: "(oms \<Rightarrow> oms \<Rightarrow> bool) \<Rightarrow> 'a act \<Rightarrow> bool" where
  "holds ok m \<longleftrightarrow> (\<forall>st. ok st (snd (m st)))"

text \<open>Running the primitives.\<close>

named_theorems run_simps "running the primitives on a state"

lemma run_basic [run_simps]:
  "retS x st = (Inr x, st)" "raiseS e st = (Inl e, st)" "getS f st = (Inr (f st), st)"
  "updS u st = (Inr (), u st)" "ordS r st = (Inr (heap st ! r), st)"
  "countS k n st = (Inr (), st\<lparr>counts := (counts st)(k := counts st k + n)\<rparr>)"
  "callS c st = (Inr (), st\<lparr>calls := calls st @ [c]\<rparr>)"
  "set_ord r g st = (Inr (), st\<lparr>heap := (heap st)[r := g (heap st ! r)]\<rparr>)"
  by (simp_all add: retS_def raiseS_def getS_def updS_def ordS_def countS_def callS_def set_ord_def)

lemma run_bind [run_simps]:
  "bindS (retS x) k st = k x st" "bindS (raiseS e) k' st = (Inl e, st)" "bindS (getS f) k2 st = k2 (f st) st"
  "bindS (updS g) u st = u () (g st)" "bindS (ordS r) k3 st = k3 (heap st ! r) st"
  "bindS (countS c n) u st = u () (st\<lparr>counts := (counts st)(c := counts st c + n)\<rparr>)"
  "bindS (callS vc) u st = u () (st\<lparr>calls := calls st @ [vc]\<rparr>)"
  "bindS (set_ord r h) u st = u () (st\<lparr>heap := (heap st)[r := h (heap st ! r)]\<rparr>)"
  by (simp_all add: bindS_def run_basic)

lemma run_then [run_simps]: "thenS m k st = bindS m (\<lambda>_. k) st"
  by (simp add: thenS_def)

lemma run_when [run_simps]: "whenS b m st = (if b then m st else (Inr (), st))"
  by (simp add: whenS_def run_simps)

lemma run_seq [run_simps]: "seqS [] st = (Inr (), st)" "seqS (m # ms) st = bindS m (\<lambda>_. seqS ms) st"
  by (simp_all add: seqS_def run_simps thenS_def)

lemma run_bind_eq: "m st = (Inr x, st') \<Longrightarrow> bindS m k st = k x st'" "m st = (Inl e, st') \<Longrightarrow> bindS m k st = (Inl e, st')"
  by (simp_all add: bindS_def)

fun is_send :: "venue_call \<Rightarrow> bool" where
  "is_send (Place _ _ _) = True"
| "is_send (Close _ _ _ _) = True"
| "is_send _ = False"

fun send_ref :: "venue_call \<Rightarrow> ref" where
  "send_ref (Place r _ _) = r"
| "send_ref (Close r _ _ _) = r"
| "send_ref _ = 0"

fun send_status :: "venue_call \<Rightarrow> order_status" where
  "send_status (Place _ _ s) = s"
| "send_status (Close _ _ _ s) = s"
| "send_status _ = Unknown"

definition sends :: "oms \<Rightarrow> venue_call list" where
  "sends st = filter is_send (calls st)"

text \<open>Two states with the same orders, registers and sends.\<close>

definition same_core :: "oms \<Rightarrow> oms \<Rightarrow> bool" where
  "same_core st st' \<longleftrightarrow> heap st' = heap st \<and> orders st' = orders st \<and> by_intent st' = by_intent st
     \<and> mgr_mode st' = mgr_mode st \<and> sends st' = sends st"

text \<open>An order whose identity, terms, state, log and book are as they were.\<close>

definition bookkeeping :: "managed_order \<Rightarrow> managed_order \<Rightarrow> bool" where
  "bookkeeping a b \<longleftrightarrow> oid b = oid a \<and> client_order_id b = client_order_id a \<and> account_id b = account_id a
     \<and> symbol b = symbol a \<and> side b = side a \<and> quantity b = quantity a \<and> order_mode b = order_mode a
     \<and> order_type b = order_type a \<and> status b = status a \<and> transition_log b = transition_log a
     \<and> book b = book a"

abbreviation put :: "oms \<Rightarrow> ref \<Rightarrow> managed_order \<Rightarrow> oms" where
  "put st r ord \<equiv> st\<lparr>heap := (heap st)[r := ord]\<rparr>"

locale venue_safe =
  fixes ok :: "oms \<Rightarrow> oms \<Rightarrow> bool"
  assumes ok_refl: "ok st st"
    and ok_trans: "ok st st' \<Longrightarrow> ok st' st'' \<Longrightarrow> ok st st''"
    and ok_core: "same_core st st' \<Longrightarrow> ok st st'"
    and ok_move: "ok st (put st r (snd (move_order (heap st ! r) w t src reason rc)))"
    and ok_fill: "ok st (put st r (snd (record_fill (heap st ! r) f t src)))"
    and ok_book: "bookkeeping (heap st ! r) ord \<Longrightarrow> ok st (put st r ord)"
    and ok_modified: "ok st (put st r ((heap st ! r)\<lparr>transition_log :=
        transition_log (heap st ! r) @ [modification (heap st ! r) t d rc]\<rparr>))"
begin

lemma ret: "holds ok (retS x)"
  by (simp add: holds_def retS_def ok_refl)

lemma exc: "holds ok (raiseS e)"
  by (simp add: holds_def raiseS_def ok_refl)

lemma get: "holds ok (getS f)"
  by (simp add: holds_def getS_def ok_refl)

lemma bind:
  assumes "holds ok m" "\<And>x. holds ok (k x)"
  shows "holds ok (bindS m k)"
  unfolding holds_def
proof
  fix st
  have m: "ok st (snd (m st))" using assms(1) by (simp add: holds_def)
  show "ok st (snd (bindS m k st))"
  proof (cases "m st")
    case (Pair x st')
    then show ?thesis using m assms(2) ok_trans
      by (cases x) (auto simp: bindS_def holds_def)
  qed
qed

lemma then_: "holds ok m \<Longrightarrow> holds ok k \<Longrightarrow> holds ok (thenS m k)"
  unfolding thenS_def by (rule bind)

lemma seq: "\<forall>m \<in> set ms. holds ok m \<Longrightarrow> holds ok (seqS ms)"
  unfolding seqS_def by (induction ms) (auto intro: ret then_)

lemma fin:
  assumes "holds ok m" "holds ok f"
  shows "holds ok (finallyS m f)"
  unfolding holds_def
proof
  fix st
  have "ok st (snd (m st))" "ok (snd (m st)) (snd (f (snd (m st))))"
    using assms by (simp_all add: holds_def)
  then show "ok st (snd (finallyS m f st))"
    using ok_trans by (auto simp: finallyS_def split: prod.splits sum.splits)
qed

lemma when_: "holds ok m \<Longrightarrow> holds ok (whenS b m)"
  by (simp add: whenS_def ret)

lemma upd: "(\<And>st. same_core st (f st)) \<Longrightarrow> holds ok (updS f)"
  by (simp add: holds_def updS_def ok_core)

lemma count: "holds ok (countS k n)"
  unfolding countS_def by (rule upd) (simp add: same_core_def sends_def)

lemma call: "\<not> is_send c \<Longrightarrow> holds ok (callS c)"
  unfolding callS_def by (rule upd) (simp add: same_core_def sends_def)

lemma ord: "holds ok (ordS r)"
  unfolding ordS_def by (rule get)

lemma set: "(\<And>x. bookkeeping x (f x)) \<Longrightarrow> holds ok (set_ord r f)"
  by (simp add: holds_def set_ord_def updS_def ok_book)

lemma move: "holds ok (moveS r w t src reason rc)"
  using ok_move by (simp add: holds_def moveS_def split: prod.split) (metis snd_conv)

lemma fill: "holds ok (fillS r f t src)"
  using ok_fill by (simp add: holds_def fillS_def split: prod.split) (metis snd_conv)

lemma queue: "holds ok (queue_events r)"
  unfolding queue_events_def by (rule upd) (simp add: same_core_def sends_def Let_def)

lemma drain: "holds ok drain_events"
  by (simp add: holds_def drain_events_def ok_core same_core_def sends_def)

lemma flush: "holds ok (flush_events b)"
  unfolding flush_events_def by (intro bind drain ret)

lemmas steps = ret exc get bind then_ seq fin when_ count ord move fill queue

lemma fail: "holds ok (fail r now reason code)"
  unfolding fail_def by (rule seq) (auto intro!: steps set simp: bookkeeping_def)

lemma swallow:
  "holds ok m \<Longrightarrow> holds ok (\<lambda>st. case m st of
     (Inl (OrderExc (IllegalOrderTransition _ _)), st') \<Rightarrow> (Inr (), st') | (x, st') \<Rightarrow> (x, st'))"
  by (auto simp: holds_def split: prod.splits sum.splits oms_exc.splits order_error.splits) (metis snd_conv)+

lemma park: "holds ok (park_unknown r now reason)"
  unfolding park_unknown_def by (rule seq) (auto intro!: steps set swallow simp: bookkeeping_def)

lemma observe: "holds ok (observe_latency ad)"
  unfolding observe_latency_def by (rule seq) (auto intro: steps)

lemma exec: "holds ok (record_exec r f now)"
  unfolding holds_def
proof
  fix st
  have f: "ok st (snd (fillS r f now ''broker'' st))" using fill by (simp add: holds_def)
  have c: "holds ok (bindS (countS ''fill_discrepancies'' 1) (\<lambda>_. raiseS (OrderExc (FillRefused e)) :: bool act))" for e
    by (intro steps)
  have d: "holds ok (thenS (countS ''duplicate_fills_ignored'' 1) (retS False))" by (intro steps)
  have t: "holds ok (bindS (ordS r) (\<lambda>ord.
       thenS (countS (if status ord = Filled then ''orders_filled'' else ''orders_partially_filled'') 1)
       (thenS (queue_events r) (retS True))))" by (intro steps)
  show "ok st (snd (record_exec r f now st))"
  proof (cases "fillS r f now ''broker'' st")
    case (Pair x st')
    have s: "ok st st'" using f Pair by simp
    show ?thesis using s ok_trans [OF s] c d t Pair
      unfolding record_exec_def holds_def
      by (auto split: sum.split bool.split oms_exc.split order_error.split)
  qed
qed

lemma new_fill: "holds ok (new_fill q p t src deal comm swp pnl)"
  by (simp add: new_fill_def ret exc split: sum.split)

lemma apply_result: "holds ok (apply_result r res now)"
  unfolding apply_result_def
  by (auto intro!: steps set park exec new_fill upd simp: bookkeeping_def same_core_def sends_def split: option.split)

lemma settle: "holds ok (settle ad r ans now)"
  by (auto simp: settle_def intro!: steps fail park observe apply_result split: answer.split)

lemma lookup: "holds ok (spec_lookup sy)"
  unfolding spec_lookup_def by (intro steps upd) (simp add: same_core_def sends_def)

lemma spec: "holds ok (venue_spec ad sy now)"
  unfolding venue_spec_def
  by (auto intro!: steps call upd lookup simp: same_core_def sends_def split: answer.split)

lemma report: "holds ok (apply_execution_report r q p deal comm swp src now)"
  unfolding apply_execution_report_def by (auto intro!: steps new_fill exec)

lemma cancel: "holds ok (cancel ad r reason now)"
  unfolding cancel_def
  by (auto intro!: steps park call split: option.split answer.split)

lemma approval: "holds ok (validate_approval ap now)"
  by (simp add: validate_approval_def ret exc)

lemma binding: "holds ok (validate_binding digest ap acc ot)"
  unfolding validate_binding_def by (auto intro!: steps)

lemma modified: "holds ok (set_ord r (\<lambda>o'. o'\<lparr>transition_log := transition_log o' @ [modification o' t d rc]\<rparr>))"
  by (simp add: holds_def set_ord_def updS_def ok_modified)

lemma modify: "holds ok (modify digest ad r ap sl tp now)"
  unfolding modify_def
  by (auto intro!: steps approval binding park call modified set simp: bookkeeping_def apply_levels_def
      split: option.split answer.split)

lemma conclude: "holds ok (conclude r os ps now)"
  unfolding conclude_def
  by (auto intro!: steps set new_fill exec simp: bookkeeping_def split: option.split)

lemma unread: "holds ok (unread e :: unit act)"
  unfolding unread_def by (intro steps)

lemma reconcile: "holds ok (reconcile ad r now)"
  unfolding reconcile_def by (auto intro!: steps call unread conclude split: answer.split)

lemma expire: "holds ok (expire r now)"
  unfolding expire_def by (auto intro!: steps)

lemmas operations = drain flush report cancel modify reconcile expire

end

text \<open>A relation that a call to the venue respects as well is respected by the two operations
  that send.\<close>

locale send_safe = venue_safe +
  assumes ok_call: "ok st (st\<lparr>calls := calls st @ [c]\<rparr>)"
begin

lemma send: "holds ok (callS c)"
  by (simp add: holds_def run_simps ok_call)

lemma transmit: "holds ok (transmit ad r rq now)"
  unfolding transmit_def by (intro seq) (auto intro: steps send settle)

lemma submit: "holds ok (submit ad r now)"
  unfolding submit_def Let_def
  by (auto intro!: steps set fail spec transmit simp: bookkeeping_def split: sum.split)

lemma close: "holds ok (close ad r pid now)"
  unfolding close_def by (auto intro!: bind exc ord seq) (auto intro: steps send settle)

end

section \<open>The history of an order\<close>

text \<open>An order's later version: the same identity and terms, more log, more fills, a state
  reached by legal moves, and an audit trail that is sound if it was sound before.\<close>

definition grows :: "managed_order \<Rightarrow> managed_order \<Rightarrow> bool" where
  "grows a b \<longleftrightarrow> oid b = oid a \<and> client_order_id b = client_order_id a \<and> account_id b = account_id a
     \<and> symbol b = symbol a \<and> side b = side a \<and> quantity b = quantity a \<and> order_mode b = order_mode a
     \<and> order_type b = order_type a \<and> requested (book b) = requested (book a)
     \<and> (\<exists>es. transition_log b = transition_log a @ es) \<and> (\<exists>fs. fills (book b) = fills (book a) @ fs)
     \<and> ostep\<^sup>*\<^sup>* (status a) (status b) \<and> (audit_ok a \<longrightarrow> audit_ok b)"

lemma grows_refl [simp]: "grows a a"
  by (simp add: grows_def)

lemma grows_trans: "grows a b \<Longrightarrow> grows b c \<Longrightarrow> grows a c"
  unfolding grows_def by (elim conjE exE) (intro conjI; (force intro: rtranclp_trans)?)

lemma grows_bookkeeping: "bookkeeping a b \<Longrightarrow> grows a b"
  by (simp add: bookkeeping_def grows_def audit_ok_def)

lemma grows_move: "grows a (snd (move_order a w t src r rc))"
  using move_order_log_prefix [of a w t src r rc] move_order_audit [of a w t src r rc]
  by (auto simp: grows_def move_order_status ostep_transitions)

text \<open>A fill either leaves the order as it is or appends to its book and moves it.\<close>

lemma record_fill_shape:
  obtains (same) "snd (record_fill a f t src) = a"
  | (added) b where
      "snd (record_fill a f t src) = snd (move_order (a\<lparr>book := b\<rparr>) (fill_state b) t src (fill_detail a b f) None)"
      "requested b = requested (book a)" "\<exists>fs. fills b = fills (book a) @ fs"
proof (cases "already_recorded (book a) (fr_deal f)")
  case True
  with that(1) show ?thesis by (simp add: record_fill_duplicate)
next
  case False
  show ?thesis
  proof (cases "add_fill (book a) f")
    case (Inl e)
    with False that(1) show ?thesis by (simp add: record_fill_refused)
  next
    case (Inr b)
    show ?thesis
      by (rule that(2) [of b])
        (use Inr in \<open>auto simp: record_fill_added [OF False Inr] Let_def add_fill_def split: if_splits\<close>)
  qed
qed

lemma grows_fill: "grows a (snd (record_fill a f t src))"
proof (cases rule: record_fill_shape [of a f t src])
  case same
  then show ?thesis by simp
next
  case (added b)
  have "grows a (a\<lparr>book := b\<rparr>)" using added(2,3) by (simp add: grows_def audit_ok_def)
  then show ?thesis unfolding added(1) by (rule grows_trans) (rule grows_move)
qed

lemma grows_modified: "grows a (a\<lparr>transition_log := transition_log a @ [modification a t d rc]\<rparr>)"
  by (auto simp: grows_def audit_ok_def log_chain_append modification_def SOURCES_def)

definition evolves :: "oms \<Rightarrow> oms \<Rightarrow> bool" where
  "evolves st st' \<longleftrightarrow> length (heap st) \<le> length (heap st')
     \<and> (\<forall>r < length (heap st). grows (heap st ! r) (heap st' ! r))"

lemma evolves_put:
  assumes "grows (heap st ! r) ord"
  shows "evolves st (put st r ord)"
proof -
  have "grows (heap st ! q) ((heap st)[r := ord] ! q)" if "q < length (heap st)" for q
    using assms that by (cases "q = r") simp_all
  then show ?thesis by (simp add: evolves_def)
qed

lemma evolves_trans: "evolves st st' \<Longrightarrow> evolves st' st'' \<Longrightarrow> evolves st st''"
  by (force simp: evolves_def intro: grows_trans)

lemma evolves_refl: "evolves st st"
  by (simp add: evolves_def)

lemma evolves_core: "same_core st st' \<Longrightarrow> evolves st st'"
  by (simp add: same_core_def evolves_def)

interpretation history: venue_safe evolves
  by unfold_locales
    (rule evolves_refl, erule evolves_trans, assumption, erule evolves_core,
     rule evolves_put, rule grows_move, rule evolves_put, rule grows_fill,
     rule evolves_put, erule grows_bookkeeping, rule evolves_put, rule grows_modified)

text \<open>The registers and the sends, and how many orders there are.\<close>

definition framed :: "oms \<Rightarrow> oms \<Rightarrow> bool" where
  "framed st st' \<longleftrightarrow> orders st' = orders st \<and> by_intent st' = by_intent st \<and> mgr_mode st' = mgr_mode st
     \<and> sends st' = sends st \<and> length (heap st') = length (heap st)"

interpretation frame: venue_safe framed
  by unfold_locales (auto simp: framed_def same_core_def sends_def)

text \<open>What a manager has sent stays sent, for the same order.\<close>

definition remembers :: "oms \<Rightarrow> oms \<Rightarrow> bool" where
  "remembers st st' \<longleftrightarrow> evolves st st' \<and> set (sends st) \<subseteq> set (sends st')"

interpretation memory: send_safe remembers
proof
  show "remembers st (put st r (snd (move_order (heap st ! r) w t src reason rc)))" for st r w t src reason rc
    using history.ok_move by (simp add: remembers_def sends_def)
  show "remembers st (put st r (snd (record_fill (heap st ! r) f t src)))" for st r f t src
    using history.ok_fill by (simp add: remembers_def sends_def)
  show "remembers st (put st r ((heap st ! r)\<lparr>transition_log :=
      transition_log (heap st ! r) @ [modification (heap st ! r) t d rc]\<rparr>))" for st r t d rc
    using history.ok_modified by (simp add: remembers_def sends_def)
  show "bookkeeping (heap st ! r) ord \<Longrightarrow> remembers st (put st r ord)" for st r ord
    using history.ok_book by (simp add: remembers_def sends_def)
  show "same_core st st' \<Longrightarrow> remembers st st'" for st st'
    using evolves_core by (simp add: remembers_def same_core_def)
  show "remembers st st' \<Longrightarrow> remembers st' st'' \<Longrightarrow> remembers st st''" for st st' st''
    using evolves_trans unfolding remembers_def by blast
qed (auto simp: remembers_def evolves_refl sends_def evolves_def)

text \<open>No operation changes the mode of a manager.\<close>

definition same_mode :: "oms \<Rightarrow> oms \<Rightarrow> bool" where
  "same_mode st st' \<longleftrightarrow> mgr_mode st' = mgr_mode st"

interpretation mode: send_safe same_mode
  by unfold_locales (auto simp: same_mode_def same_core_def)

end
