(* ===== verification/Oms_Manager.thy ===== *)
theory Oms_Manager
  imports Oms_Laws
begin

text \<open>
  The order manager as a transition system. A step is one call of one of its methods, with any
  adapter, any approval and any clock, on an order it holds: one that its registers still lead
  to. Orders read back from the database may be registered at any time, whatever identifiers
  and intents they carry and whichever registrations they displace, as long as they are past
  \<open>intent\<close> (\<open>load_unresolved\<close> reads only those). The states reached from a new manager are those
  any sequence of calls can produce, exceptions included. The invariant ties the registers to
  the orders and says of every send which order it was for.
\<close>

definition held :: "oms \<Rightarrow> ref \<Rightarrow> bool" where
  "held st r \<longleftrightarrow> r \<in> ran (orders st) \<union> ran (by_intent st)"

lemma heldI [intro]: "orders st i = Some r \<Longrightarrow> held st r" "by_intent st i = Some r \<Longrightarrow> held st r"
  by (auto simp: held_def ran_def)

inductive mgr_step :: "(string \<Rightarrow> 'h) \<Rightarrow> oms \<Rightarrow> oms \<Rightarrow> bool" for digest :: "string \<Rightarrow> 'h" where
  create: "mgr_step digest st (snd (create digest ap ca new_id now st))"
| discard: "held st r \<Longrightarrow> mgr_step digest st (snd (discard r st))"
| submit: "held st r \<Longrightarrow> mgr_step digest st (snd (submit ad r now st))"
| close: "held st r \<Longrightarrow> mgr_step digest st (snd (close ad r pid now st))"
| report: "held st r \<Longrightarrow> mgr_step digest st (snd (apply_execution_report r q p deal comm swp src now st))"
| cancel: "held st r \<Longrightarrow> mgr_step digest st (snd (cancel ad r reason now st))"
| modify: "held st r \<Longrightarrow> mgr_step digest st (snd (modify digest ad r ap sl tp now st))"
| reconcile: "held st r \<Longrightarrow> mgr_step digest st (snd (reconcile ad r now st))"
| expire: "held st r \<Longrightarrow> mgr_step digest st (snd (expire r now st))"
| resume: "(\<And>ord. ord \<in> set os \<Longrightarrow> status ord \<noteq> Intent) \<Longrightarrow> mgr_step digest st (snd (resume os st))"
| flush: "mgr_step digest st (snd (flush_events b st))"

inductive_cases mgr_stepE: "mgr_step digest st st'"

definition managed :: "(string \<Rightarrow> 'h) \<Rightarrow> oms \<Rightarrow> bool" where
  "managed digest st \<longleftrightarrow> (\<exists>m brk cache. (mgr_step digest)\<^sup>*\<^sup>* (new_manager m brk cache) st)"

section \<open>The invariant\<close>

fun request_matches :: "managed_order \<Rightarrow> venue_call \<Rightarrow> bool" where
  "request_matches ord (Place r rq s) \<longleftrightarrow> rq_intent_id rq = client_order_id ord \<and> rq_symbol rq = symbol ord
     \<and> rq_side rq = side ord \<and> rq_volume rq = quantity ord"
| "request_matches ord (Close r pid v s) \<longleftrightarrow> v = quantity ord"
| "request_matches ord _ \<longleftrightarrow> True"

definition intent_of :: "oms \<Rightarrow> venue_call \<Rightarrow> string" where
  "intent_of st c = client_order_id (heap st ! send_ref c)"

definition sent_ok :: "oms \<Rightarrow> venue_call \<Rightarrow> bool" where
  "sent_ok st c \<longleftrightarrow> (let r = send_ref c; ord = heap st ! r in
     r < length (heap st) \<and> status ord \<noteq> Intent \<and> by_intent st (intent_of st c) \<noteq> None
     \<and> send_status c = Submitting \<and> request_matches ord c)"

definition registers_ok :: "oms \<Rightarrow> bool" where
  "registers_ok st \<longleftrightarrow>
     (\<forall>i r. by_intent st i = Some r \<longrightarrow> r < length (heap st) \<and> client_order_id (heap st ! r) = i)
   \<and> (\<forall>i r. orders st i = Some r \<longrightarrow> r < length (heap st) \<and> oid (heap st ! r) = i)"

text \<open>An order that is held and still to be sent: its intent is taken, nothing was sent for it
  and no other such order is for it.\<close>

definition unsent :: "oms \<Rightarrow> ref \<Rightarrow> bool" where
  "unsent st r \<longleftrightarrow> held st r \<and> status (heap st ! r) = Intent"

definition unsent_ok :: "oms \<Rightarrow> bool" where
  "unsent_ok st \<longleftrightarrow> (\<forall>r. unsent st r \<longrightarrow>
     (let i = client_order_id (heap st ! r) in by_intent st i \<noteq> None \<and> (\<forall>c \<in> set (sends st). intent_of st c \<noteq> i)
       \<and> (\<forall>q. unsent st q \<and> client_order_id (heap st ! q) = i \<longrightarrow> q = r)))"

definition manager_inv :: "oms \<Rightarrow> bool" where
  "manager_inv st \<longleftrightarrow> registers_ok st \<and> unsent_ok st
     \<and> distinct (map (intent_of st) (sends st)) \<and> (\<forall>c \<in> set (sends st). sent_ok st c)"

lemmas manager_inv_parts = manager_inv_def registers_ok_def sent_ok_def Let_def

lemma manager_inv_new: "manager_inv (new_manager m brk cache)"
  by (simp add: manager_inv_def registers_ok_def unsent_ok_def unsent_def held_def new_manager_def sends_def)

lemma held_length: "manager_inv st \<Longrightarrow> held st r \<Longrightarrow> r < length (heap st)"
  by (auto simp: manager_inv_parts held_def ran_def)

lemma unsentD:
  assumes "manager_inv st" "unsent st r"
  shows "by_intent st (client_order_id (heap st ! r)) \<noteq> None"
    "c \<in> set (sends st) \<Longrightarrow> intent_of st c \<noteq> client_order_id (heap st ! r)"
    "unsent st q \<Longrightarrow> client_order_id (heap st ! q) = client_order_id (heap st ! r) \<Longrightarrow> q = r"
  using assms unfolding manager_inv_def unsent_ok_def Let_def by (blast, blast, blast)

lemma unsent_okI:
  assumes "\<And>r. unsent st r \<Longrightarrow> by_intent st (client_order_id (heap st ! r)) \<noteq> None"
    and "\<And>r c. unsent st r \<Longrightarrow> c \<in> set (sends st) \<Longrightarrow> intent_of st c \<noteq> client_order_id (heap st ! r)"
    and "\<And>r q. unsent st r \<Longrightarrow> unsent st q \<Longrightarrow> client_order_id (heap st ! q) = client_order_id (heap st ! r) \<Longrightarrow> q = r"
  shows "unsent_ok st"
  using assms unfolding unsent_ok_def Let_def by blast

lemma Intent_unreachable: "ostep\<^sup>*\<^sup>* s t \<Longrightarrow> s \<noteq> Intent \<Longrightarrow> t \<noteq> Intent"
proof (induction rule: rtranclp_induct)
  case (step y z)
  then show ?case by (cases y) (auto simp: ostep_transitions)
qed

lemma request_matches_grows: "grows a b \<Longrightarrow> request_matches a c \<Longrightarrow> request_matches b c"
  by (cases c) (auto simp: grows_def)

text \<open>Whatever keeps both contracts keeps the invariant.\<close>

lemma manager_inv_kept:
  assumes "evolves st st'" "framed st st'" "manager_inv st"
  shows "manager_inv st'"
proof -
  have len: "length (heap st') = length (heap st)" and reg: "orders st' = orders st" "by_intent st' = by_intent st"
    and snd: "sends st' = sends st" using assms(2) by (auto simp: framed_def)
  have g: "grows (heap st ! r) (heap st' ! r)" if "r < length (heap st)" for r
    using assms(1) that by (simp add: evolves_def)
  have ids: "client_order_id (heap st' ! r) = client_order_id (heap st ! r)" "oid (heap st' ! r) = oid (heap st ! r)"
    "status (heap st' ! r) = Intent \<Longrightarrow> status (heap st ! r) = Intent" if "r < length (heap st)" for r
    using g [OF that] Intent_unreachable by (auto simp: grows_def)
  have held: "held st' r \<longleftrightarrow> held st r" for r by (simp add: held_def reg)
  have un: "unsent st r \<and> client_order_id (heap st' ! r) = client_order_id (heap st ! r)" if "unsent st' r" for r
    using that ids held held_length [OF assms(3)] by (auto simp: unsent_def)
  have sent: "send_ref c < length (heap st)" if "c \<in> set (sends st)" for c
    using assms(3) that by (auto simp: manager_inv_parts)
  then have int: "intent_of st' c = intent_of st c" if "c \<in> set (sends st)" for c
    using that ids by (simp add: intent_of_def)
  then have int': "map (intent_of st') (sends st) = map (intent_of st) (sends st)" by simp
  have "registers_ok st'" using assms(3) ids len reg by (auto simp: manager_inv_parts)
  moreover have "unsent_ok st'"
  proof (rule unsent_okI)
    fix r assume "unsent st' r"
    note r = un [OF this]
    show "by_intent st' (client_order_id (heap st' ! r)) \<noteq> None" using unsentD(1) [OF assms(3)] r reg(2) by simp
    show "intent_of st' c \<noteq> client_order_id (heap st' ! r)" if "c \<in> set (sends st')" for c
      using unsentD(2) [OF assms(3)] r that int snd by simp
    show "q = r" if "unsent st' q" "client_order_id (heap st' ! q) = client_order_id (heap st' ! r)" for q
      using unsentD(3) [OF assms(3)] r un [OF that(1)] that(2) by simp
  qed
  moreover have "sent_ok st' c" if "c \<in> set (sends st)" for c
    using assms(3) that sent [OF that] ids(3) int [OF that] request_matches_grows [OF g] len reg(2)
    by (auto simp: manager_inv_parts)
  ultimately show ?thesis using assms(3) unfolding manager_inv_def snd int' by blast
qed

lemma manager_inv_op:
  assumes "holds evolves m" "holds framed m" "manager_inv st"
  shows "manager_inv (snd (m st))"
  by (rule manager_inv_kept [of st]) (use assms in \<open>simp_all add: holds_def\<close>)

text \<open>A send of an order in \<open>intent\<close>: its record is moved to \<open>submitting\<close> first.\<close>

lemma manager_inv_send:
  assumes inv: "manager_inv st" and reg: "held st r" and st: "status (heap st ! r) = Intent"
    and c: "is_send c" "send_ref c = r" "send_status c = Submitting" "request_matches (heap st ! r) c"
    and ord: "grows (heap st ! r) ord" "status ord = Submitting"
    and st2: "heap st2 = (heap st)[r := ord]" "orders st2 = orders st" "by_intent st2 = by_intent st"
      "sends st2 = sends st @ [c]"
  shows "manager_inv st2"
proof -
  let ?mid = "put st r ord"
  have r: "r < length (heap st)" "unsent st r" using held_length [OF inv reg] reg st by (simp_all add: unsent_def)
  have mid: "manager_inv ?mid"
    by (rule manager_inv_kept [OF evolves_put [OF ord(1)] _ inv]) (simp add: framed_def sends_def)
  have same: "sent_ok st2 = sent_ok ?mid" "intent_of st2 = intent_of ?mid" "unsent st2 = unsent ?mid"
    by (intro ext, simp add: sent_ok_def intent_of_def unsent_def held_def st2 Let_def)+
  have id: "client_order_id ord = client_order_id (heap st ! r)" using ord(1) by (simp add: grows_def)
  have own: "intent_of ?mid d = (if send_ref d = r then client_order_id ord else intent_of st d)" for d
    using r(1) by (auto simp: intent_of_def)
  have new: "intent_of ?mid d \<noteq> client_order_id ord" if "d \<in> set (sends st)" for d
    using unsentD(2) [OF inv r(2) that] own id by (auto simp: intent_of_def)
  have fresh: "intent_of ?mid c \<notin> intent_of ?mid ` set (sends st)"
    using new own [of c] c(2) by (metis imageE)
  have "sent_ok ?mid c"
    using c r ord id unsentD(1) [OF inv r(2)] request_matches_grows [OF ord(1) c(4)]
    by (simp add: sent_ok_def own Let_def)
  moreover have sm: "sends ?mid = sends st" by (simp add: sends_def)
  moreover have "registers_ok st2" using mid st2 by (simp add: manager_inv_parts)
  moreover have "unsent_ok st2"
  proof -
    have other: "client_order_id (heap ?mid ! q) \<noteq> client_order_id ord" if "unsent ?mid q" for q
    proof -
      have q: "q \<noteq> r" "unsent st q" using that r(1) ord(2) by (auto simp: unsent_def held_def nth_list_update split: if_splits)
      then show ?thesis using unsentD(3) [OF inv r(2) q(2)] id by auto
    qed
    have h: "heap st2 = heap ?mid" "by_intent st2 = by_intent ?mid" using st2 by simp_all
    show ?thesis
    proof (rule unsent_okI, unfold same h)
      fix q assume q: "unsent ?mid q"
      show "by_intent ?mid (client_order_id (heap ?mid ! q)) \<noteq> None" by (rule unsentD(1) [OF mid q])
      show "intent_of ?mid d \<noteq> client_order_id (heap ?mid ! q)" if "d \<in> set (sends st2)" for d
      proof (cases "d = c")
        case True
        then show ?thesis using other [OF q] own [of c] c(2) by simp
      next
        case False
        then show ?thesis using unsentD(2) [OF mid q] that st2(4) sm by simp
      qed
      show "p = q" if "unsent ?mid p" "client_order_id (heap ?mid ! p) = client_order_id (heap ?mid ! q)" for p
        by (rule unsentD(3) [OF mid q that])
    qed
  qed
  ultimately show ?thesis
    using mid fresh st2(4) unfolding manager_inv_def same sm by simp
qed

section \<open>Sending\<close>

lemma spec_lookup_core: "same_core st (snd (spec_lookup sy st))"
  by (simp add: spec_lookup_def thenS_def bindS_def updS_def getS_def same_core_def sends_def)

lemma venue_spec_core: "same_core st (snd (venue_spec ad sy now st))"
proof -
  let ?f = "\<lambda>rows st. st\<lparr>specs := map_of (rev (map (\<lambda>i. (si_symbol i, i)) rows)), specs_read_at := Some now, missing := []\<rparr>"
  have c: "same_core st' (snd (spec_lookup sy (?f rows (st'\<lparr>calls := calls st' @ [Read_symbols]\<rparr>))))" for st' rows
    using spec_lookup_core [of "?f rows (st'\<lparr>calls := calls st' @ [Read_symbols]\<rparr>)" sy]
    by (simp add: same_core_def sends_def)
  show ?thesis using c [of st] spec_lookup_core [of st sy]
    by (auto simp: venue_spec_def bindS_def thenS_def getS_def callS_def updS_def retS_def same_core_def sends_def
        split: answer.split)
qed

lemma venue_spec_Inr: "\<exists>x st1. venue_spec ad sy now st = (Inr x, st1)"
  by (auto simp: venue_spec_def spec_lookup_def run_simps split: answer.split)

lemma moveS_submitting:
  assumes "status (heap st ! r) = Intent"
  obtains ord where "moveS r Submitting now ''pipeline'' reason None st = (Inr (), put st r ord)"
    "grows (heap st ! r) ord" "status ord = Submitting"
proof -
  let ?m = "move_order (heap st ! r) Submitting now ''pipeline'' reason None"
  have m: "?m = (Inr (), snd ?m)" by (rule move_order_ok) (simp_all add: assms SOURCES_def)
  have "status (snd ?m) = Submitting" using assms by (simp add: move_order_status SOURCES_def)
  moreover have "moveS r Submitting now ''pipeline'' reason None st = (Inr (), put st r (snd ?m))"
    unfolding moveS_def by (subst m) simp
  ultimately show ?thesis using grows_move that by blast
qed

text \<open>What both sends do: move, count, call, settle.\<close>

lemma send_and_settle:
  assumes inv: "manager_inv st" and reg: "held st r" and st: "status (heap st ! r) = Intent"
    and c: "\<And>s. is_send (mkc s)" "\<And>s. send_ref (mkc s) = r" "\<And>s. send_status (mkc s) = s"
      "\<And>s. request_matches (heap st ! r) (mkc s)"
    and mkc: "mk_call = bindS (ordS r) (\<lambda>ord. callS (mkc' ord))" "\<And>ord. grows (heap st ! r) ord \<Longrightarrow> mkc' ord = mkc (status ord)"
  shows "manager_inv (snd (seqS [moveS r Submitting now ''pipeline'' reason None, countS k 1, mk_call,
      settle ad r ans now'] st))" (is ?inv)
    and "sends (snd (seqS [moveS r Submitting now ''pipeline'' reason None, countS k 1, mk_call,
      settle ad r ans now'] st)) = sends st @ [mkc Submitting]" (is ?snd)
proof -
  obtain ord where m: "moveS r Submitting now ''pipeline'' reason None st = (Inr (), put st r ord)"
    and ord: "grows (heap st ! r) ord" "status ord = Submitting"
    by (rule moveS_submitting [OF st])
  have r: "r < length (heap st)" by (rule held_length [OF inv reg])
  let ?st2 = "(put st r ord)\<lparr>counts := (counts st)(k := counts st k + 1), calls := calls st @ [mkc Submitting]\<rparr>"
  have "manager_inv ?st2"
    by (rule manager_inv_send [OF inv reg st c(1,2,3,4) ord])
      (simp_all add: sends_def c(1))
  then have "manager_inv (snd (settle ad r ans now' ?st2))"
    by (rule manager_inv_op [OF history.settle frame.settle])
  moreover have "sends (snd (settle ad r ans now' ?st2)) = sends st @ [mkc Submitting]"
    using frame.settle by (simp add: holds_def framed_def) (simp add: sends_def c(1))
  moreover have "snd (seqS [moveS r Submitting now ''pipeline'' reason None, countS k 1, mk_call,
      settle ad r ans now'] st) = snd (settle ad r ans now' ?st2)"
    using m mkc(2) [OF ord(1)] ord(2) r
    by (simp add: seqS_def thenS_def bindS_def mkc(1) ordS_def getS_def callS_def countS_def updS_def retS_def
        split: prod.split sum.split)
  ultimately show ?inv ?snd by simp_all
qed

lemma manager_inv_submit:
  assumes "manager_inv st" "held st r"
  shows "manager_inv (snd (submit ad r now st))"
proof -
  let ?ord = "heap st ! r" let ?rq = "request_of (heap st ! r)"
  have q: "holds evolves m \<Longrightarrow> holds framed m \<Longrightarrow> manager_inv st' \<Longrightarrow> manager_inv (snd (m st'))" for m :: "unit act" and st'
    by (rule manager_inv_op)
  have due: "manager_inv (snd (seqS
       [moveS r Failed now ''expiry'' [Txt ''the order expired before it was sent; nothing was transmitted''] None,
        set_ord r (\<lambda>ord. ord\<lparr>error_code := Some [Txt ''EXPIRED_BEFORE_SUBMIT'']\<rparr>), queue_events r] st))"
    by (intro q assms(1) history.seq frame.seq)
       (auto intro!: history.steps frame.steps history.set frame.set simp: bookkeeping_def)
  obtain x st1 where sp: "venue_spec ad (symbol ?ord) now st = (Inr x, st1)"
    using venue_spec_Inr by blast
  then have b: "bindS (venue_spec ad (symbol ?ord) now) k st = k x st1" for k :: "_ \<Rightarrow> unit act"
    by (simp add: bindS_def)
  have core: "same_core st st1" using sp venue_spec_core [of st ad "symbol ?ord" now] by simp
  have inv1: "manager_inv st1" and reg1: "held st1 r" and h1: "heap st1 = heap st"
    using core assms history.ok_core [OF core] frame.ok_core [OF core] manager_inv_kept by (auto simp: same_core_def held_def)
  have refuse: "manager_inv (snd (seqS [countS k 1, fail r now why code] st1))" for k why code
    by (intro q inv1 history.seq frame.seq) (auto intro: history.steps frame.steps history.fail frame.fail)
  have send: "manager_inv (snd (transmit ad r ?rq now st1))" if "status ?ord = Intent"
    unfolding transmit_def
    by (rule send_and_settle(1) [OF inv1 reg1, where mkc = "Place r ?rq" and mkc' = "\<lambda>o'. Place r ?rq (status o')"])
       (simp_all add: that h1 request_of_def)
  show ?thesis
    using assms(1) due refuse send b unfolding submit_def run_bind(5) Let_def
    by (auto simp: run_basic(2) split: sum.split)
qed

lemma manager_inv_close:
  assumes "manager_inv st" "held st r"
  shows "manager_inv (snd (close ad r pid now st))"
proof -
  let ?ord = "heap st ! r"
  have "manager_inv (snd (seqS
       [moveS r Submitting now ''pipeline'' [Txt ''close persisted before transmission; a crash here is reconcilable''] None,
        countS ''closes_submitted'' 1,
        bindS (ordS r) (\<lambda>ord'. callS (Close r pid (quantity ord') (status ord'))),
        settle ad r (close_position ad pid (quantity ?ord)) now] st))" if "status ?ord = Intent"
    by (rule send_and_settle(1) [OF assms, where mkc = "Close r pid (quantity ?ord)"
        and mkc' = "\<lambda>o'. Close r pid (quantity o') (status o')"])
       (simp_all add: that grows_def)
  with assms(1) show ?thesis unfolding close_def run_bind(5) by (auto simp: run_basic(2))
qed

section \<open>Registration\<close>

lemma manager_inv_register:
  assumes inv: "manager_inv st" and new: "status ord = Intent \<Longrightarrow> by_intent st (client_order_id ord) = None"
  shows "manager_inv (snd (register ord st))"
proof -
  let ?st = "snd (register ord st)" let ?n = "length (heap st)"
  have st: "heap ?st = heap st @ [ord]" "orders ?st = (orders st)(oid ord \<mapsto> ?n)"
    "by_intent ?st = (by_intent st)(client_order_id ord \<mapsto> ?n)" "sends ?st = sends st"
    by (simp_all add: register_def Let_def sends_def)
  have sent: "send_ref c < ?n" "by_intent st (intent_of st c) \<noteq> None" if "c \<in> set (sends st)" for c
    using inv that by (auto simp: manager_inv_parts)
  then have int: "intent_of ?st c = intent_of st c" if "c \<in> set (sends st)" for c
    using that by (simp add: intent_of_def st nth_append)
  then have int': "map (intent_of ?st) (sends st) = map (intent_of st) (sends st)" by simp
  have un: "(if q = ?n then status ord = Intent else unsent st q)" "q < Suc ?n" if "unsent ?st q" for q
    using that held_length [OF inv] by (auto simp: unsent_def held_def st ran_def nth_append split: if_splits)
  have "registers_ok ?st" using inv by (auto simp: manager_inv_parts st nth_append less_SucI split: if_splits)
  moreover have "unsent_ok ?st"
  proof (rule unsent_okI)
    fix r assume r: "unsent ?st r"
    have old: "client_order_id (heap ?st ! q) = client_order_id (heap st ! q)" "unsent st q"
      if "unsent ?st q" "q \<noteq> ?n" for q
      using un [OF that(1)] that(2) by (simp_all add: st nth_append)
    have here: "client_order_id (heap ?st ! ?n) = client_order_id ord" by (simp add: st)
    have free: "by_intent st (client_order_id ord) = None" if "unsent ?st ?n" using un(1) [OF that] new by simp
    show "by_intent ?st (client_order_id (heap ?st ! r)) \<noteq> None"
    proof (cases "r = ?n")
      case False
      then show ?thesis using unsentD(1) [OF inv old(2) [OF r False]] old(1) [OF r False] by (simp add: st(3))
    qed (simp add: here st(3))
    show "intent_of ?st c \<noteq> client_order_id (heap ?st ! r)" if "c \<in> set (sends ?st)" for c
    proof (cases "r = ?n")
      case True
      have c: "c \<in> set (sends st)" using that by (simp add: st(4))
      have "by_intent st (client_order_id ord) = None" using free r True by simp
      then have "intent_of st c \<noteq> client_order_id ord" using sent(2) [OF c] by metis
      then show ?thesis unfolding True here int [OF c] .
    next
      case False
      then show ?thesis
        using unsentD(2) [OF inv old(2) [OF r False]] old(1) [OF r False] that int by (simp add: st(4))
    qed
    have apart: "client_order_id (heap ?st ! q) \<noteq> client_order_id ord" if "unsent ?st ?n" "unsent ?st q" "q \<noteq> ?n" for q
      using free [OF that(1)] unsentD(1) [OF inv old(2) [OF that(2,3)]] old(1) [OF that(2,3)] by metis
    fix q assume q: "unsent ?st q" and eq: "client_order_id (heap ?st ! q) = client_order_id (heap ?st ! r)"
    show "q = r"
    proof (cases "r = ?n \<or> q = ?n")
      case True
      then show ?thesis using apart [of q] apart [of r] q r eq here by metis
    next
      case False
      then have n: "r \<noteq> ?n" "q \<noteq> ?n" by simp_all
      show ?thesis
        using eq unfolding old(1) [OF r n(1)] old(1) [OF q n(2)]
        by (rule unsentD(3) [OF inv old(2) [OF r n(1)] old(2) [OF q n(2)]])
    qed
  qed
  moreover have "sent_ok ?st c" if "c \<in> set (sends st)" for c
    using inv that sent [OF that] int [OF that] by (auto simp: manager_inv_parts st nth_append)
  ultimately show ?thesis using inv unfolding manager_inv_def st(4) int' by blast
qed

text \<open>Orders read back from the database: each is registered, and none of them is sent.\<close>

lemma manager_inv_bind:
  assumes "manager_inv (snd (m st))" "\<And>x. holds evolves (k x)" "\<And>x. holds framed (k x)"
  shows "manager_inv (snd (bindS m k st))"
  using manager_inv_op [OF assms(2,3,1)] assms(1) by (auto simp: bindS_def split: prod.split sum.split)

lemma manager_inv_resume:
  assumes "manager_inv st" "\<And>ord. ord \<in> set os \<Longrightarrow> status ord \<noteq> Intent"
  shows "manager_inv (snd (resume os st))"
proof -
  have "manager_inv (snd (resume_orders os st))" using assms
  proof (induction os arbitrary: st)
    case (Cons ord os)
    let ?m = "\<lambda>r. updS (\<lambda>st. if truthy (broker_order_id ord)
         then st\<lparr>by_broker_id := (by_broker_id st)(the (broker_order_id ord) \<mapsto> r)\<rparr> else st)"
    obtain r st1 where reg: "register ord st = (Inr r, st1)" by (simp add: register_def Let_def)
    have "manager_inv st1" using manager_inv_register [OF Cons.prems(1), of ord] Cons.prems(2) [of ord] reg by simp
    then have "manager_inv (snd (?m r st1))"
      by (rule manager_inv_op [rotated 2]) (auto intro!: history.upd frame.upd simp: same_core_def sends_def)
    then have "manager_inv (snd (resume_orders os (snd (?m r st1))))" by (rule Cons.IH) (simp add: Cons.prems(2))
    then have "manager_inv (snd (bindS (resume_orders os) k (snd (?m r st1))))" if "k = (\<lambda>rs. retS (f rs))"
      for k and f :: "ref list \<Rightarrow> ref list"
      unfolding that by (rule manager_inv_bind) (simp_all add: history.ret frame.ret)
    from this [OF HOL.refl] show ?case by (simp add: run_bind_eq(1) [where m = "register ord", OF reg] run_then run_bind(4) run_basic(4))
  qed (simp add: run_basic)
  then show ?thesis unfolding resume_def
    by (rule manager_inv_bind) (auto simp: thenS_def intro!: history.bind history.when_ history.count history.ret
        frame.bind frame.when_ frame.count frame.ret)
qed

lemma queue_events_core: "same_core st (snd (queue_events r st))"
  by (simp add: queue_events_def run_simps same_core_def sends_def Let_def)

definition creatable :: "(string \<Rightarrow> 'h) \<Rightarrow> 'h approval \<Rightarrow> create_args \<Rightarrow> time \<Rightarrow> oms \<Rightarrow> bool" where
  "creatable digest ap ca now st \<longleftrightarrow> vd_approved (ap_verdict ap) \<and> \<not> expired ap now
     \<and> by_intent st (ca_intent_id ca) = None \<and> pp_mode (ap_proposal ap) = mgr_mode st
     \<and> ca_order_type ca \<in> {''market'', ''limit'', ''stop''}
     \<and> \<not> (ca_order_type ca \<in> {''limit'', ''stop''} \<and> pp_entry_price (ap_proposal ap) = None)
     \<and> ca_time_in_force ca \<in> {''gtc'', ''ioc'', ''fok'', ''day''}
     \<and> binds_order digest ap (ca_account_id ca) (ca_order_type ca) (mgr_mode st) \<and> 0 < approved_volume ap"

text \<open>The registration at the end of \<open>create\<close>.\<close>

definition enrol :: "managed_order \<Rightarrow> oms \<Rightarrow> oms" where
  "enrol ord st = (let r = length (heap st); st1 = snd (register ord st) in
     snd (queue_events r (st1\<lparr>counts := (counts st1)(''orders_created'' := counts st1 ''orders_created'' + 1),
       pending := pending st1 @ [\<lparr>ev_type = ORDER_CREATED, ev_payload = payload_for ord, ev_ref = r\<rparr>]\<rparr>)))"

lemma enrol_core: "same_core (snd (register ord st)) (enrol ord st)"
  by (simp add: enrol_def register_def queue_events_def run_simps same_core_def sends_def Let_def)

lemma run_validate:
  "bindS (validate_approval ap now) k st =
     (if \<not> vd_approved (ap_verdict ap) then (Inl (OrderRefused (R_verdict (decision (ap_verdict ap)))), st)
      else if expired ap now then (Inl (OrderRefused (R_approval_expired (ap_expires_at ap))), st) else k () st)"
  "bindS (validate_binding digest ap acc ot) k st =
     (if \<not> binds_order digest ap acc ot (mgr_mode st)
      then (Inl (OrderRefused (R_binding acc ot (mgr_mode st))), st) else k () st)"
  by (simp_all add: validate_approval_def validate_binding_def bindS_def run_basic)

lemma run_register: "bindS (register ord) k st = k (length (heap st)) (snd (register ord st))"
  by (simp add: bindS_def register_def Let_def)

lemma run_enrol:
  "bindS (register ord) (\<lambda>r. thenS (countS ''orders_created'' 1)
     (thenS (updS (\<lambda>st. st\<lparr>pending := pending st @
              [\<lparr>ev_type = ORDER_CREATED, ev_payload = payload_for ord, ev_ref = r\<rparr>]\<rparr>))
           (thenS (queue_events r) (retS (r, False))))) st = (Inr (length (heap st), False), enrol ord st)"
  unfolding run_register by (simp add: enrol_def run_simps queue_events_def Let_def)

lemma create_new:
  assumes "creatable digest ap ca now st"
  shows "create digest ap ca new_id now st = (Inr (length (heap st), False), enrol (order_of st ap ca new_id now) st)"
  using assms unfolding creatable_def create_def
  by (cases "pp_entry_price (ap_proposal ap)")
     (simp_all add: run_validate run_bind run_enrol Let_def del: insert_iff)

lemma create_kept:
  assumes "\<not> creatable digest ap ca now st"
  shows "same_core st (snd (create digest ap ca new_id now st))
    \<and> (\<forall>r. fst (create digest ap ca new_id now st) \<noteq> Inr (r, False))"
proof (cases "by_intent st (ca_intent_id ca)")
  case (Some r)
  then show ?thesis
    unfolding create_def by (simp add: run_validate run_bind run_then run_basic same_core_def sends_def)
next
  case None
  have c: "same_core st st" by (simp add: same_core_def)
  show ?thesis using assms None unfolding create_def creatable_def
    by (cases "pp_entry_price (ap_proposal ap)")
       (simp_all add: run_validate run_bind run_basic Let_def not_less c del: insert_iff, blast+)
qed

lemma manager_inv_create:
  assumes "manager_inv st"
  shows "manager_inv (snd (create digest ap ca new_id now st))"
proof (cases "creatable digest ap ca now st")
  case True
  have "manager_inv (snd (register (order_of st ap ca new_id now) st))"
    by (rule manager_inv_register [OF assms]) (use True in \<open>simp add: creatable_def order_of_def Let_def\<close>)
  from manager_inv_kept [OF history.ok_core frame.ok_core this] enrol_core
  show ?thesis unfolding create_new [OF True] by simp
next
  case False
  from create_kept [OF False, of new_id] have "same_core st (snd (create digest ap ca new_id now st))" ..
  with manager_inv_kept [OF history.ok_core frame.ok_core assms] show ?thesis by blast
qed

lemma manager_inv_discard:
  assumes inv: "manager_inv st" and reg: "held st r"
  shows "manager_inv (snd (discard r st))"
proof (cases "status (heap st ! r) \<noteq> Intent \<or> truthy (broker_order_id (heap st ! r))")
  case True
  then show ?thesis using inv by (auto simp: discard_def run_simps)
next
  case False
  let ?o = "heap st ! r" let ?st = "snd (discard r st)"
  have r: "unsent st r" using reg False by (simp add: unsent_def)
  have st: "heap ?st = heap st" "orders ?st = (orders st)(oid ?o := None)" "sends ?st = sends st"
    "by_intent ?st = (if by_intent st (client_order_id ?o) = Some r then (by_intent st)(client_order_id ?o := None)
       else by_intent st)"
    using False by (auto simp: discard_def run_simps sends_def)
  have int: "intent_of ?st = intent_of st" by (simp add: intent_of_def st fun_eq_iff)
  have ok: "by_intent st i = Some q \<Longrightarrow> client_order_id (heap st ! q) = i" "orders st i = Some q \<Longrightarrow> oid (heap st ! q) = i" for i q
    using inv by (auto simp: manager_inv_parts)
  have un: "unsent st q" "client_order_id (heap st ! q) \<noteq> client_order_id ?o" if "unsent ?st q" for q
  proof -
    show q: "unsent st q" using that by (auto simp: unsent_def held_def st ran_def split: if_splits)
    have "\<not> held ?st r"
    proof
      assume "held ?st r"
      then consider i where "orders ?st i = Some r" | i where "by_intent ?st i = Some r" by (auto simp: held_def ran_def)
      then show False
      proof cases
        case 1
        then show False using ok(2) [of i r] by (simp add: st(2) split: if_splits)
      next
        case 2
        then show False using ok(1) [of i r] by (simp add: st(4) split: if_splits)
      qed
    qed
    then have "q \<noteq> r" using that by (auto simp: unsent_def)
    then show "client_order_id (heap st ! q) \<noteq> client_order_id ?o" using unsentD(3) [OF inv r q] by blast
  qed
  have less: "by_intent ?st i = Some q \<Longrightarrow> by_intent st i = Some q" "orders ?st i = Some q \<Longrightarrow> orders st i = Some q" for i q
    by (simp_all add: st(2,4) split: if_splits)
  have "registers_ok st" using inv by (simp add: manager_inv_def)
  then have "registers_ok ?st" unfolding registers_ok_def st(1) using less by blast
  moreover have "unsent_ok ?st"
  proof (rule unsent_okI, unfold int st(1,3))
    fix q assume q: "unsent ?st q"
    show "by_intent ?st (client_order_id (heap st ! q)) \<noteq> None"
      using un(2) [OF q] unsentD(1) [OF inv un(1) [OF q]] by (simp add: st(4))
    show "intent_of st c \<noteq> client_order_id (heap st ! q)" if "c \<in> set (sends st)" for c
      by (rule unsentD(2) [OF inv un(1) [OF q] that])
    show "p = q" if "unsent ?st p" "client_order_id (heap st ! p) = client_order_id (heap st ! q)" for p
      by (rule unsentD(3) [OF inv un(1) [OF q] un(1) [OF that(1)] that(2)])
  qed
  moreover have "sent_ok ?st c" if "c \<in> set (sends st)" for c
  proof -
    have "by_intent ?st (intent_of st c) = by_intent st (intent_of st c)"
      using unsentD(2) [OF inv r that] by (simp add: st(4))
    then show ?thesis using inv that by (simp add: manager_inv_def sent_ok_def Let_def int st(1))
  qed
  ultimately show ?thesis using inv by (simp add: manager_inv_def int st(3))
qed

lemma manager_inv_step: "mgr_step digest st st' \<Longrightarrow> manager_inv st \<Longrightarrow> manager_inv st'"
  by (induction rule: mgr_step.induct)
     (auto intro!: manager_inv_resume intro: manager_inv_create manager_inv_discard manager_inv_submit manager_inv_close
        manager_inv_op history.operations frame.operations)

lemma managed_inv: "managed digest st \<Longrightarrow> manager_inv st"
proof -
  have "(mgr_step digest)\<^sup>*\<^sup>* s t \<Longrightarrow> manager_inv s \<Longrightarrow> manager_inv t" for s t
    by (induction rule: rtranclp_induct) (auto intro: manager_inv_step)
  then show "managed digest st \<Longrightarrow> manager_inv st" using manager_inv_new by (auto simp: managed_def)
qed

lemma managed_step: "managed digest st \<Longrightarrow> mgr_step digest st st' \<Longrightarrow> managed digest st'"
  unfolding managed_def by (meson rtranclp.rtrancl_into_rtrancl)

section \<open>What is sent stays sent\<close>

lemma remembers_register: "remembers st (snd (register ord st))"
  by (auto simp: remembers_def evolves_def register_def Let_def sends_def nth_append)

lemma remembers_create: "remembers st (snd (create digest ap ca n now st))"
proof (cases "creatable digest ap ca now st")
  case True
  show ?thesis unfolding create_new [OF True] snd_conv
    by (rule memory.ok_trans [OF remembers_register memory.ok_core [OF enrol_core]])
next
  case False
  then show ?thesis using create_kept [OF False, of n] memory.ok_core by blast
qed

lemma remembers_resume: "holds remembers (resume os)"
proof -
  have "holds remembers (resume_orders os)"
  proof (induction os)
    case (Cons ord os)
    have "holds remembers (register ord)" using remembers_register by (simp add: holds_def)
    then show ?case using Cons.IH
      by (auto intro!: memory.bind memory.then_ memory.upd memory.ret simp: same_core_def sends_def)
  qed (simp add: memory.ret)
  then show ?thesis unfolding resume_def by (intro memory.bind memory.then_ memory.when_ memory.count memory.ret)
qed

lemma remembers_discard: "remembers st (snd (discard r st))"
  by (simp add: discard_def run_simps remembers_def evolves_def sends_def)

lemma step_remembers: "mgr_step digest st st' \<Longrightarrow> remembers st st'"
proof (induction rule: mgr_step.induct)
  case (resume os st)
  then show ?case using remembers_resume by (simp add: holds_def)
next
  case (modify st r ad ap sl tp now)
  show ?case by (rule memory.modify [unfolded holds_def, rule_format])
qed (use memory.operations memory.submit memory.close in
  \<open>auto simp: holds_def remembers_create remembers_discard\<close>)

text \<open>An intent for which something was sent is taken: it stays so, and nothing is created for it.\<close>

definition taken :: "oms \<Rightarrow> string \<Rightarrow> bool" where
  "taken st i \<longleftrightarrow> (\<exists>c \<in> set (sends st). intent_of st c = i)"

lemma taken_remembered:
  assumes "manager_inv st" "remembers st st'" "taken st i"
  shows "taken st' i"
proof -
  obtain c where c: "c \<in> set (sends st)" "intent_of st c = i" using assms(3) by (auto simp: taken_def)
  then have "send_ref c < length (heap st)" using assms(1) by (auto simp: manager_inv_parts)
  then have "intent_of st' c = i" using assms(2) c(2) by (simp add: remembers_def evolves_def grows_def intent_of_def)
  then show ?thesis using assms(2) c(1) by (auto simp: taken_def remembers_def)
qed

text \<open>The order registered for a taken intent is past \<open>intent\<close>.\<close>

lemma taken_settled:
  assumes "manager_inv st" "taken st i"
  obtains q where "by_intent st i = Some q" "q < length (heap st)" "client_order_id (heap st ! q) = i"
    "status (heap st ! q) \<noteq> Intent"
proof -
  obtain c where c: "c \<in> set (sends st)" "intent_of st c = i" using assms(2) by (auto simp: taken_def)
  have "sent_ok st c" using assms(1) c(1) unfolding manager_inv_def by blast
  have reg: "registers_ok st" using assms(1) unfolding manager_inv_def by blast
  from \<open>sent_ok st c\<close> have "by_intent st (intent_of st c) \<noteq> None" unfolding sent_ok_def Let_def by blast
  then obtain q where q: "by_intent st i = Some q" unfolding c(2) by blast
  note o = conjunct1 [OF reg [unfolded registers_ok_def], rule_format, OF q, THEN conjunct1]
    conjunct1 [OF reg [unfolded registers_ok_def], rule_format, OF q, THEN conjunct2]
  have "\<not> unsent st q" using unsentD(2) [OF assms(1) _ c(1), of q] unfolding c(2) o(2) by blast
  moreover have "held st q" using q by (rule heldI)
  ultimately have "status (heap st ! q) \<noteq> Intent" by (simp add: unsent_def)
  then show thesis by (rule that [OF q o])
qed

end
