(* ===== verification/Oms_Props.thy ===== *)
theory Oms_Props
  imports Oms_Manager
begin

text \<open>
  The properties of the order manager: one send for an intent, nothing sent for an intent
  that is not settled, what a reconciliation concludes, and that only the venue's word
  cancels an order or changes its levels.
\<close>

section \<open>One send for an intent\<close>

text \<open>C13: one intent is sent at most once. In every state a sequence of calls can reach, with
  any adapters, approvals and clocks, with exceptions at any point, and with orders past
  \<open>intent\<close> read back from the database and registered at any time, no two sends are for
  orders of one intent; each send was made after its order's record had been moved to
  \<open>submitting\<close> and asks for the terms on that record; and an order of its intent that is past
  \<open>intent\<close> is registered under it, so a later call finds that order and cannot send it.\<close>

theorem one_send_per_intent:
  assumes "managed digest st"
  shows "distinct (map (\<lambda>c. client_order_id (heap st ! send_ref c)) (sends st))
    \<and> (\<forall>c \<in> set (sends st). send_status c = Submitting \<and> request_matches (heap st ! send_ref c) c
         \<and> (\<exists>q. by_intent st (client_order_id (heap st ! send_ref c)) = Some q \<and> q < length (heap st)
              \<and> client_order_id (heap st ! q) = client_order_id (heap st ! send_ref c)
              \<and> status (heap st ! q) \<noteq> Intent))"
proof -
  have inv: "manager_inv st" using assms by (rule managed_inv)
  have "\<exists>q. by_intent st (intent_of st c) = Some q \<and> q < length (heap st)
      \<and> client_order_id (heap st ! q) = intent_of st c \<and> status (heap st ! q) \<noteq> Intent"
    if "c \<in> set (sends st)" for c
    using taken_settled [OF inv, of "intent_of st c"] that by (auto simp: taken_def)
  moreover have "distinct (map (intent_of st) (sends st))" using inv by (simp add: manager_inv_def)
  moreover have "send_status c = Submitting \<and> request_matches (heap st ! send_ref c) c" if "c \<in> set (sends st)" for c
    using inv that by (simp add: manager_inv_parts)
  ultimately show ?thesis unfolding intent_of_def by blast
qed

section \<open>Running the operations\<close>

lemma moveS_ok:
  assumes "w \<in> transitions (status (heap st ! r))" "src \<in> set SOURCES"
  obtains ord where "moveS r w t src reason rc st = (Inr (), put st r ord)"
    "grows (heap st ! r) ord" "status ord = w" "broker_order_id ord = broker_order_id (heap st ! r)"
    "book ord = book (heap st ! r)"
proof -
  let ?m = "move_order (heap st ! r) w t src reason rc"
  have m: "?m = (Inr (), snd ?m)" by (rule move_order_ok [OF assms])
  have "moveS r w t src reason rc st = (Inr (), put st r (snd ?m))" unfolding moveS_def by (subst m) simp
  moreover have "status (snd ?m) = w" using assms by (simp add: move_order_status)
  ultimately show ?thesis using grows_move that by simp
qed

definition announced :: "ref \<Rightarrow> oms \<Rightarrow> oms" where
  "announced r st = snd (queue_events r st)"

lemma queue_events_run: "queue_events r st = (Inr (), announced r st)" "heap (announced r st) = heap st"
  by (simp_all add: announced_def queue_events_def run_simps Let_def)

text \<open>Unfolding a sequence whose steps are known.\<close>

lemmas run_all = bindS_def run_basic run_then run_when run_seq queue_events_run

lemma broker_source [simp]: "src \<in> {''broker'', ''pipeline'', ''reconciliation'', ''recovery'', ''operator''} \<Longrightarrow> src \<in> set SOURCES"
  by (auto simp: SOURCES_def)

text \<open>A move, the counter and the events.\<close>

lemma move_count_queue:
  assumes "r < length (heap st)" "w \<in> transitions (status (heap st ! r))" "src \<in> set SOURCES"
  shows "\<exists>st' ord. seqS [moveS r w t src reason rc, countS k n, queue_events r] st = (Inr (), st')
    \<and> heap st' = (heap st)[r := ord] \<and> status ord = w"
proof -
  obtain ord where m: "moveS r w t src reason rc st = (Inr (), put st r ord)" and w: "status ord = w"
    by (rule moveS_ok [OF assms(2,3)])
  show ?thesis using assms(1) w
    by (simp add: run_all m) blast
qed

lemma record_exec_run:
  assumes r: "r < length (heap st)" and st: "status (heap st ! r) \<in> takes_fills"
  shows "(\<exists>fe st'. record_exec r f now st = (Inl (OrderExc (FillRefused fe)), st') \<and> heap st' = heap st)
    \<or> (\<exists>st'. record_exec r f now st = (Inr False, st') \<and> heap st' = heap st)
    \<or> (\<exists>st' ord. record_exec r f now st = (Inr True, st') \<and> heap st' = (heap st)[r := ord]
          \<and> status ord \<in> {Filled, Partially_filled})"
proof (cases "already_recorded (book (heap st ! r)) (fr_deal f)")
  case True
  then have "fillS r f now ''broker'' st = (Inr False, st)"
    by (simp add: fillS_def record_fill_duplicate)
  then show ?thesis by (simp add: record_exec_def run_all)
next
  case new: False
  show ?thesis
  proof (cases "add_fill (book (heap st ! r)) f")
    case (Inl e)
    then have "fillS r f now ''broker'' st = (Inl (OrderExc (FillRefused e)), st)"
      by (simp add: fillS_def record_fill_refused [OF new Inl])
    then show ?thesis by (simp add: record_exec_def run_all)
  next
    case (Inr b)
    obtain ord where rf: "record_fill (heap st ! r) f now ''broker'' = (Inr True, ord)" "status ord = fill_state b"
      by (rule record_fill_applied [OF new Inr st, of "''broker''" now]) simp_all
    then have "fillS r f now ''broker'' st = (Inr True, put st r ord)" by (simp add: fillS_def)
    then have "record_exec r f now st = (Inr True, snd (record_exec r f now st))"
      "heap (snd (record_exec r f now st)) = (heap st)[r := ord]"
      by (simp_all add: record_exec_def run_all)
    moreover have "status ord \<in> {Filled, Partially_filled}" using rf(2) by (simp add: fill_state_def)
    ultimately show ?thesis by blast
  qed
qed

lemma conclude_settles:
  assumes r: "r < length (heap st)" and u: "status (heap st ! r) = Unknown"
  shows "\<exists>ord. heap (snd (conclude r os ps now st)) = (heap st)[r := ord] \<and> (case fst (conclude r os ps now st) of
      Inr _ \<Rightarrow> \<not> needs_reconciliation ord
    | Inl e \<Rightarrow> (\<exists>fe. e = OrderExc (FillRefused fe)) \<and> status ord = Unknown \<and> book ord = book (heap st ! r))"
proof (cases "match_order (heap st ! r) os")
  case (Some fo)
  let ?o = "(heap st ! r)\<lparr>broker_order_id := if truthy (broker_order_id (heap st ! r))
      then broker_order_id (heap st ! r) else Some (bo_id fo)\<rparr>"
  let ?w = "if fills (book (heap st ! r)) \<noteq> [] then Partially_filled
      else if match_position (heap st ! r) ps \<noteq> None then Filled else Accepted"
  let ?st = "put st r ?o"
  have w: "?w \<in> transitions Unknown" "?w \<noteq> Unknown \<and> ?w \<noteq> Submitting" by simp_all
  have h: "r < length (heap ?st)" "status (heap ?st ! r) = Unknown" using r u by simp_all
  obtain st' ord where m: "seqS [moveS r ?w now ''reconciliation'' [Txt ''the venue holds order '', Txt (bo_id fo),
      Txt '' in state '', Txt (bo_state fo)] None, countS ''orders_reconciled'' 1, queue_events r] ?st = (Inr (), st')"
    "heap st' = (heap ?st)[r := ord]" "status ord = ?w"
    using move_count_queue [of r ?st ?w "''reconciliation''" now] h w(1) by (simp only: broker_source insertI1 insertI2) blast
  have "conclude r os ps now st = (Inr (), st')"
    using m(1) unfolding conclude_def run_bind run_seq Some option.case by simp
  then show ?thesis
    using m(2,3) w(2) by (intro exI [of _ ord]) (simp add: needs_reconciliation_def NEEDS_RECONCILIATION_def split del: if_split)
next
  case no: None
  show ?thesis
  proof (cases "match_position (heap st ! r) ps")
    case None
    let ?why = "[Txt ''the venue holds no order and no position for this intent; it never landed'']"
    obtain ord where m: "moveS r Failed now ''reconciliation'' ?why None st = (Inr (), put st r ord)"
      and w: "status ord = Failed"
      by (rule moveS_ok [of Failed st r "''reconciliation''"]) (simp_all add: u)
    show ?thesis using no None r w
      by (intro exI [of _ "ord\<lparr>error_code := Some [Txt ''NOT_AT_VENUE'']\<rparr>"])
        (simp add: conclude_def run_all m needs_reconciliation_def NEEDS_RECONCILIATION_def)
  next
    case (Some pos)
    let ?mk = "make_fill (Fin (bp_volume pos)) (Fin (bp_entry_price pos)) (bp_opened_at pos) ''broker''
      (Some (bp_id pos)) 0 0 None None"
    show ?thesis
    proof (cases ?mk)
      case (Inl e)
      with no Some u show ?thesis
        by (intro exI [of _ "heap st ! r"]) (simp add: conclude_def run_simps new_fill_def)
    next
      case (Inr f)
      have c: "conclude r os ps now st = bindS (record_exec r f now) (\<lambda>applied. bindS (ordS r) (\<lambda>o'. seqS
             [whenS (\<not> applied \<and> \<not> order_terminal o')
                (moveS r Filled now ''reconciliation'' [Txt ''the venue holds position '', Txt (bp_id pos)] None),
              countS ''orders_reconciled'' 1, queue_events r])) st"
        using no Some Inr by (simp add: conclude_def run_simps new_fill_def)
      have "status (heap st ! r) \<in> takes_fills" by (simp add: u takes_fills_def)
      from record_exec_run [OF r this, of f now] consider
        (refused) fe st' where "record_exec r f now st = (Inl (OrderExc (FillRefused fe)), st')" "heap st' = heap st"
        | (dup) st' where "record_exec r f now st = (Inr False, st')" "heap st' = heap st"
        | (new) st' ord where "record_exec r f now st = (Inr True, st')" "heap st' = (heap st)[r := ord]"
            "status ord \<in> {Filled, Partially_filled}" by blast
      then show ?thesis
      proof cases
        case refused
        then show ?thesis using u by (intro exI [of _ "heap st ! r"]) (simp add: c bindS_def)
      next
        case dup
        obtain st2 o2 where "seqS [moveS r Filled now ''reconciliation'' [Txt ''the venue holds position '', Txt (bp_id pos)]
            None, countS ''orders_reconciled'' 1, queue_events r] st' = (Inr (), st2)" "heap st2 = (heap st')[r := o2]" "status o2 = Filled"
          using move_count_queue [of r st' Filled "''reconciliation''" now] r u dup(2) by fastforce
        then show ?thesis using dup u
          by (intro exI [of _ o2]) (simp add: c bindS_def [of "record_exec r f now"] run_simps order_terminal_def TERMINAL_def whenS_def
              needs_reconciliation_def NEEDS_RECONCILIATION_def)
      next
        case new
        then show ?thesis using r
          by (intro exI [of _ ord]) (auto simp: c run_all needs_reconciliation_def NEEDS_RECONCILIATION_def)
      qed
    qed
  qed
qed

section \<open>Reconciliation\<close>

text \<open>With a venue that can be read, the order is first moved to \<open>unknown\<close> if need be.\<close>

lemma reconcile_run:
  assumes r: "r < length (heap st)" and nr: "needs_reconciliation (heap st ! r)"
    and ad: "get_orders ad = Answer os" "get_positions ad = Answer ps"
  obtains ord where "reconcile ad r now st = conclude r os ps now
      (st\<lparr>calls := calls st @ [Read_orders, Read_positions], heap := (heap st)[r := ord]\<rparr>)"
    "grows (heap st ! r) ord" "status ord = Unknown" "broker_order_id ord = broker_order_id (heap st ! r)"
    "book ord = book (heap st ! r)"
proof (cases "status (heap st ! r) = Submitting")
  case True
  let ?st = "st\<lparr>calls := calls st @ [Read_orders, Read_positions]\<rparr>"
  obtain ord where m: "moveS r Unknown now ''recovery'' [Txt ''found mid-submission after a restart''] None ?st
      = (Inr (), put ?st r ord)" and ord: "grows (heap st ! r) ord" "status ord = Unknown"
      "broker_order_id ord = broker_order_id (heap st ! r)" "book ord = book (heap st ! r)"
    using moveS_ok [of Unknown ?st r "''recovery''" now] True by auto
  show ?thesis
    by (rule that [OF _ ord]) (use nr ad m True in \<open>simp add: reconcile_def run_all\<close>)
next
  case False
  then have "status (heap st ! r) = Unknown" using nr by (auto simp: needs_reconciliation_def NEEDS_RECONCILIATION_def)
  then show ?thesis
    by (intro that [of "heap st ! r"]) (use nr ad in \<open>simp_all add: reconcile_def run_all\<close>)
qed

text \<open>C14: a reconciliation that can read the venue settles the order. It sends nothing and changes no
  other order. Either it ends with the order in a state that needs no reconciliation, or it raises,
  for the one reason that the venue's own figures are not a fill the order can take; then the order
  is left unknown, so that it still needs reconciling, with its book as it was.\<close>

theorem reconcile_settles:
  assumes "r < length (heap st)" "needs_reconciliation (heap st ! r)"
    and "get_orders ad = Answer os" "get_positions ad = Answer ps"
  shows "\<exists>ord. heap (snd (reconcile ad r now st)) = (heap st)[r := ord]
   \<and> (case fst (reconcile ad r now st) of
        Inr _ \<Rightarrow> \<not> needs_reconciliation ord
      | Inl e \<Rightarrow> (\<exists>fe. e = OrderExc (FillRefused fe)) \<and> status ord = Unknown \<and> book ord = book (heap st ! r))
   \<and> sends (snd (reconcile ad r now st)) = sends st"
proof -
  obtain ord where c: "reconcile ad r now st = conclude r os ps now
      (st\<lparr>calls := calls st @ [Read_orders, Read_positions], heap := (heap st)[r := ord]\<rparr>)" "status ord = Unknown"
      "book ord = book (heap st ! r)"
    by (rule reconcile_run [OF assms])
  let ?st = "st\<lparr>calls := calls st @ [Read_orders, Read_positions], heap := (heap st)[r := ord]\<rparr>"
  have "framed st (snd (reconcile ad r now st))" using frame.reconcile by (simp add: holds_def)
  then have s: "sends (snd (reconcile ad r now st)) = sends st" by (simp add: framed_def)
  have h: "heap ?st ! r = ord" "r < length (heap ?st)" "(heap ?st)[r := o2] = (heap st)[r := o2]" for o2
    using assms(1) by simp_all
  have u: "status (heap ?st ! r) = Unknown" using h(1) c(2) by simp
  from conclude_settles [OF h(2) u, of os ps now] show ?thesis
    unfolding h(1,3) c(1) [symmetric] c(3) using s by blast
qed

definition demo_venue :: adapter where
  "demo_venue = \<lparr>get_symbols = Answer [], place_order = (\<lambda>_. Other_error ''timeout''),
     close_position = (\<lambda>_ _. Other_error ''timeout''), cancel_order = (\<lambda>_. Other_error ''timeout''),
     modify_levels = (\<lambda>_ _ _. Other_error ''timeout''), get_orders = Answer [], get_positions = Answer [],
     call_ms = 0\<rparr>"

definition lost_order :: managed_order where
  "lost_order = demo_order\<lparr>status := Unknown\<rparr>"

definition lost_manager :: oms where
  "lost_manager = snd (resume [lost_order] (new_manager ''demo'' None 300))"

lemma lost_manager_heap: "heap lost_manager = [lost_order]" "by_intent lost_manager ''i1'' = Some 0"
  by code_simp+

lemma lost_order_sel: "needs_reconciliation lost_order" "\<not> truthy (broker_order_id lost_order)" "status lost_order = Unknown"
  by code_simp+

theorem reconcile_settles_witness:
  "\<exists>ord. heap (snd (reconcile demo_venue 0 1 lost_manager)) = [ord]
    \<and> (case fst (reconcile demo_venue 0 1 lost_manager) of Inr _ \<Rightarrow> \<not> needs_reconciliation ord
       | Inl e \<Rightarrow> (\<exists>fe. e = OrderExc (FillRefused fe)) \<and> status ord = Unknown)"
proof -
  have "get_orders demo_venue = Answer []" "get_positions demo_venue = Answer []" by (simp_all add: demo_venue_def)
  from reconcile_settles [OF _ _ this, of 0 lost_manager 1] show ?thesis
    by (auto simp: lost_manager_heap lost_order_sel split: sum.splits)
qed

text \<open>An order that the venue is working is given up as lost. When the record of an
  unresolved order has no broker id and no position matches it, the reconciliation concludes
  that it never landed, whatever working orders the venue reports: the order becomes
  \<open>failed\<close>, after which the guard lets its intent be sent again.\<close>

theorem reconcile_gives_up_working_order:
  assumes "r < length (heap st)" "needs_reconciliation (heap st ! r)"
    and "\<not> truthy (broker_order_id (heap st ! r))"
    and "get_orders ad = Answer os" "get_positions ad = Answer ps"
    and "match_position (heap st ! r) ps = None"
    and "by_intent st intent = Some r"
  shows "\<exists>st'. reconcile ad r now st = (Inr (), st') \<and> status (heap st' ! r) = Failed
    \<and> fst (guard_resend intent st') = Inr ()"
proof -
  obtain ord where c: "reconcile ad r now st = conclude r os ps now
      (st\<lparr>calls := calls st @ [Read_orders, Read_positions], heap := (heap st)[r := ord]\<rparr>)"
    and o: "grows (heap st ! r) ord" "status ord = Unknown" "broker_order_id ord = broker_order_id (heap st ! r)"
    by (rule reconcile_run [OF assms(1,2,4,5)])
  let ?st = "st\<lparr>calls := calls st @ [Read_orders, Read_positions], heap := (heap st)[r := ord]\<rparr>"
  have no: "match_order ord os = None" "match_position ord ps = None"
    using assms(3,6) o(1,3) by (auto simp: match_order_def match_position_def grows_def find_None_iff Let_def)
  let ?why = "[Txt ''the venue holds no order and no position for this intent; it never landed'']"
  obtain ord2 where m: "moveS r Failed now ''reconciliation'' ?why None ?st = (Inr (), put ?st r ord2)"
    and w: "status ord2 = Failed"
    using moveS_ok [of Failed ?st r "''reconciliation''" now ?why None] assms(1) o(2) by auto
  let ?st' = "snd (reconcile ad r now st)"
  have run: "reconcile ad r now st = (Inr (), ?st')" "status (heap ?st' ! r) = Failed"
    using no assms(1) m w by (simp_all add: c conclude_def run_all)
  have "framed st ?st'" using frame.reconcile by (simp add: holds_def)
  then have "by_intent ?st' intent = Some r" using assms(7) by (simp add: framed_def)
  then have "fst (guard_resend intent ?st') = Inr ()"
    using run(2) by (simp add: guard_resend_def run_simps needs_reconciliation_def NEEDS_RECONCILIATION_def
        order_terminal_def TERMINAL_def can_resend_def SAFE_TO_RESEND_def)
  then show ?thesis using run by blast
qed

definition working_order :: broker_order where
  "working_order = \<lparr>bo_id = ''7001'', bo_symbol = ''EURUSD'', bo_side = ''buy'', bo_volume = 100,
     bo_price = Some 1, bo_state = ''placed'', bo_placed_at = 0, bo_magic = Some 770316\<rparr>"

theorem reconcile_gives_up_working_order_witness:
  "\<exists>st'. reconcile (demo_venue\<lparr>get_orders := Answer [working_order]\<rparr>) 0 1 lost_manager = (Inr (), st')
    \<and> status (heap st' ! 0) = Failed"
proof -
  let ?ad = "demo_venue\<lparr>get_orders := Answer [working_order]\<rparr>"
  have "get_orders ?ad = Answer [working_order]" "get_positions ?ad = Answer []" by (simp_all add: demo_venue_def)
  moreover have "match_position (heap lost_manager ! 0) [] = None"
    by (simp add: match_position_def Let_def)
  ultimately show ?thesis
    using reconcile_gives_up_working_order [of 0 lost_manager ?ad "[working_order]" "[]" "''i1''" 1]
    by (simp add: lost_manager_heap lost_order_sel) blast
qed

section \<open>Nothing is sent for an unresolved intent\<close>

text \<open>C15: an unresolved order blocks its intent. While the order of an intent is \<open>unknown\<close> or
  \<open>submitting\<close>, the guard demands a reconciliation, submitting or closing with that order is
  refused without touching anything, a cancel is refused the same way, and creating an order
  for the intent hands back the unresolved one and sends nothing.\<close>

theorem unresolved_blocks_the_intent:
  assumes "by_intent st intent = Some r" "needs_reconciliation (heap st ! r)"
  shows "fst (guard_resend intent st) = Inl (ReconciliationRequired (Q_intent intent (status (heap st ! r))))
    \<and> submit ad r now st = (Inl (OrderRefused (R_not_intent (status (heap st ! r)))), st)
    \<and> close ad r pid now st = (Inl (OrderRefused (R_not_intent (status (heap st ! r)))), st)
    \<and> cancel ad r why now st = (Inl (ReconciliationRequired (Q_state (status (heap st ! r)))), st)
    \<and> (ca_intent_id ca = intent \<longrightarrow> fst (create digest ap ca new_id now st) \<noteq> Inr (k, False)
        \<and> sends (snd (create digest ap ca new_id now st)) = sends st)"
proof (intro conjI impI)
  have s: "status (heap st ! r) \<noteq> Intent" "\<not> order_terminal (heap st ! r)"
    using assms(2) by (auto simp: needs_reconciliation_def NEEDS_RECONCILIATION_def order_terminal_def TERMINAL_def)
  show "fst (guard_resend intent st) = Inl (ReconciliationRequired (Q_intent intent (status (heap st ! r))))"
    using assms by (simp add: guard_resend_def run_simps)
  show "submit ad r now st = (Inl (OrderRefused (R_not_intent (status (heap st ! r)))), st)"
    "close ad r pid now st = (Inl (OrderRefused (R_not_intent (status (heap st ! r)))), st)"
    "cancel ad r why now st = (Inl (ReconciliationRequired (Q_state (status (heap st ! r)))), st)"
    using assms(2) s by (simp_all add: submit_def close_def cancel_def run_simps)
  assume i: "ca_intent_id ca = intent"
  then have n: "\<not> creatable digest ap ca now st" using assms(1) by (simp add: creatable_def)
  show "fst (create digest ap ca new_id now st) \<noteq> Inr (k, False)" using create_kept [OF n] by blast
  show "sends (snd (create digest ap ca new_id now st)) = sends st"
    using create_kept [OF n, of new_id] by (simp add: same_core_def)
qed

theorem unresolved_blocks_the_intent_witness:
  "fst (guard_resend ''i1'' lost_manager) = Inl (ReconciliationRequired (Q_intent ''i1'' Unknown))
    \<and> submit demo_venue 0 1 lost_manager = (Inl (OrderRefused (R_not_intent Unknown)), lost_manager)"
proof -
  have "by_intent lost_manager ''i1'' = Some 0" "needs_reconciliation (heap lost_manager ! 0)"
    by (simp_all add: lost_manager_heap lost_order_sel)
  from unresolved_blocks_the_intent [OF this] show ?thesis
    unfolding lost_manager_heap nth_Cons_0 lost_order_sel(3) by blast
qed

section \<open>Only the venue's word\<close>

lemma park_status:
  assumes "r < length (heap st)"
  shows "status (heap (snd (park_unknown r now reason st)) ! r)
      = (if Unknown \<in> transitions (status (heap st ! r)) then Unknown else status (heap st ! r))"
    "stop_loss (heap (snd (park_unknown r now reason st)) ! r) = stop_loss (heap st ! r)"
    "take_profit (heap (snd (park_unknown r now reason st)) ! r) = take_profit (heap st ! r)"
proof -
  let ?m = "moveS r Unknown now ''broker'' reason None st"
  let ?st = "put st r (snd (move_order (heap st ! r) Unknown now ''broker'' reason None))"
  have "?m = (Inr (), ?st) \<or> (\<exists>a b. ?m = (Inl (OrderExc (IllegalOrderTransition a b)), ?st))"
    by (cases rule: move_order_cases [of "heap st ! r" Unknown now "''broker''" reason None])
       (auto simp: moveS_def)
  then have "heap (snd (park_unknown r now reason st)) = (heap ?st)[r := (let o' = heap ?st ! r in
      if truthy_text (error_code o') then o' else o'\<lparr>error_code := Some [Txt ''UNKNOWN_VENUE_STATE'']\<rparr>)]"
    using assms by (auto simp: park_unknown_def run_all Let_def)
  then show "status (heap (snd (park_unknown r now reason st)) ! r)
      = (if Unknown \<in> transitions (status (heap st ! r)) then Unknown else status (heap st ! r))"
    "stop_loss (heap (snd (park_unknown r now reason st)) ! r) = stop_loss (heap st ! r)"
    "take_profit (heap (snd (park_unknown r now reason st)) ! r) = take_profit (heap st ! r)"
    using assms by (simp_all add: Let_def move_order_status)
qed

lemma moveS_cases:
  obtains (ok) ord where "moveS r w t src reason rc st = (Inr (), put st r ord)" "status ord = w"
  | (err) e where "moveS r w t src reason rc st = (Inl e, put st r (heap st ! r))"
  by (cases rule: move_order_cases [of "heap st ! r" w t src reason rc]) (auto simp: moveS_def)

text \<open>C16: only the venue cancels. If a cancel leaves an order cancelled that was not, the order
  had a broker id, the venue was asked about that id and answered that it accepted.\<close>

theorem cancelled_only_by_the_venue:
  assumes "r < length (heap st)" "status (heap st ! r) \<noteq> Cancelled"
    and "status (heap (snd (cancel ad r why now st)) ! r) = Cancelled"
  shows "\<exists>bid res. broker_order_id (heap st ! r) = Some bid \<and> cancel_order ad bid = Answer res
    \<and> rs_status res = B_accepted"
proof (rule ccontr)
  assume no: "\<not> ?thesis"
  let ?o = "heap st ! r"
  show False
  proof (cases "order_terminal ?o \<or> needs_reconciliation ?o")
    case True
    then show False using assms by (cases "order_terminal ?o") (auto simp: cancel_def run_simps)
  next
    case False
    show False
    proof (cases rule: moveS_cases [of r Cancel_requested now "''operator''" "text_or why ''cancel requested''" None st])
      case (err e)
      then show False using assms False by (simp add: cancel_def run_all)
    next
      case (ok ord)
      let ?st = "put st r ord"
      have r: "r < length (heap ?st)" using assms(1) by simp
      have p: "status (heap (snd (park_unknown r now reason (?st\<lparr>calls := cs\<rparr>))) ! r) = Unknown" for reason cs
        using park_status(1) [of r "?st\<lparr>calls := cs\<rparr>" now reason] r ok(2) by simp
      show False
      proof (cases "broker_order_id ?o")
        case None
        then show False using assms(3) False p [of _ "calls ?st"] by (simp add: cancel_def run_all ok(1))
      next
        case (Some bid)
        have c: "cancel ad r why now st = (case cancel_order ad bid of
              Broker_error e \<Rightarrow> park_unknown r now [Txt ''cancel failed: '', Txt e]
            | Other_error e \<Rightarrow> park_unknown r now [Txt ''cancel outcome unclear: '', Txt e]
            | Answer res \<Rightarrow>
                if is_unknown res then park_unknown r now (text_or (rs_detail res) ''cancel outcome unclear'')
                else if rs_status res = B_rejected then
                  moveS r Accepted now ''broker'' [Txt ''the venue refused the cancel: '', Txt (rs_detail res)]
                    (rs_retcode res)
                else seqS
                  [moveS r Cancelled now ''broker'' (text_or (rs_detail res) ''cancelled at the venue'')
                     (rs_retcode res),
                   countS ''orders_cancelled'' 1, queue_events r])
            (?st\<lparr>calls := calls st @ [Cancel r bid Cancel_requested]\<rparr>)"
          using False Some assms(1) ok(2) by (simp add: cancel_def run_all ok(1))
        show False
        proof (cases "cancel_order ad bid")
          case (Answer res)
          then have "is_unknown res \<or> rs_status res = B_rejected"
            using no Some by (cases "rs_status res") (auto simp: is_unknown_def)
          then show False
            using assms(1,3) p ok(2) unfolding c Answer
            by (cases rule: moveS_cases [of r Accepted now "''broker''" "[Txt ''the venue refused the cancel: '', Txt (rs_detail res)]"
                  "rs_retcode res" "?st\<lparr>calls := calls st @ [Cancel r bid Cancel_requested]\<rparr>"])
               (auto split: if_splits)
        qed (use assms(3) p c in auto)
      qed
    qed
  qed
qed

definition accepted_result :: order_result where
  "accepted_result = \<lparr>rs_status = B_accepted, rs_detail = [], rs_order_id = None, rs_position_id = None,
     rs_deal_id = None, rs_fill_price = None, rs_filled_volume = None, rs_filled_at = None,
     rs_retcode = None, rs_fill_source = [], rs_realized_pnl = None\<rparr>"

definition half_filled :: managed_order where
  "half_filled = demo_order\<lparr>status := Partially_filled, broker_order_id := Some ''7001'',
     transition_log := [\<lparr>tr_at = 0, tr_previous = Intent, tr_new = Submitted, tr_source = ''pipeline'',
       tr_reason = [], tr_broker_order_id = None, tr_retcode = None\<rparr>,
      \<lparr>tr_at = 0, tr_previous = Submitted, tr_new = Partially_filled, tr_source = ''broker'',
       tr_reason = [], tr_broker_order_id = None, tr_retcode = None\<rparr>],
     book := \<lparr>requested = 100, fills = [demo_fill 40 1 (Some ''d1'')]\<rparr>\<rparr>"

definition working_manager :: oms where
  "working_manager = snd (queue_events 0 (snd (resume [half_filled] (new_manager ''paper'' None 300))))"

definition yes_venue :: adapter where
  "yes_venue = demo_venue\<lparr>cancel_order := (\<lambda>_. Answer accepted_result),
     modify_levels := (\<lambda>_ _ _. Answer accepted_result), place_order := (\<lambda>_. Answer accepted_result),
     get_symbols := Answer [\<lparr>si_symbol = ''EURUSD'', si_digits = 5, si_point = 1/100000, si_contract_size = None,
       si_tick_size = None, si_tick_value = None, volume_min = None, volume_max = None, si_volume_step = None\<rparr>]\<rparr>"

theorem cancelled_only_by_the_venue_witness:
  "status (heap (snd (cancel yes_venue 0 [] 1 working_manager)) ! 0) = Cancelled
   \<and> (\<exists>bid res. broker_order_id (heap working_manager ! 0) = Some bid \<and> cancel_order yes_venue bid = Answer res
        \<and> rs_status res = B_accepted)"
proof -
  have a: "0 < length (heap working_manager)" "status (heap working_manager ! 0) \<noteq> Cancelled" by code_simp+
  have c: "status (heap (snd (cancel yes_venue 0 [] 1 working_manager)) ! 0) = Cancelled" by code_simp
  show ?thesis using cancelled_only_by_the_venue [OF a c] c by blast
qed

section \<open>Modification\<close>

lemma levels_frame:
  assumes "r < length (heap st)"
  shows "stop_loss (heap (snd (bindS (park_unknown r now reason) (\<lambda>_. raiseS e) st)) ! r) = stop_loss (heap st ! r)"
    "take_profit (heap (snd (bindS (park_unknown r now reason) (\<lambda>_. raiseS e) st)) ! r) = take_profit (heap st ! r)"
  using park_status(2,3) [OF assms, of now reason]
  by (auto simp: bindS_def raiseS_def split: prod.split sum.split)

text \<open>Protective levels change only with a fresh approval and the venue's word. If a
  modification leaves an order with another stop or target, the approval was valid, was
  bound to the order's account and type and to the manager's mode, and is for the order's
  volume, and the venue accepted these levels for the order's broker id.\<close>

theorem levels_only_by_the_venue:
  assumes "r < length (heap st)"
    and "stop_loss (heap (snd (modify digest ad r ap sl tp now st)) ! r) \<noteq> stop_loss (heap st ! r)
      \<or> take_profit (heap (snd (modify digest ad r ap sl tp now st)) ! r) \<noteq> take_profit (heap st ! r)"
  shows "vd_approved (ap_verdict ap) \<and> \<not> expired ap now \<and> approved_volume ap = quantity (heap st ! r)
    \<and> binds_order digest ap (account_id (heap st ! r)) (order_type (heap st ! r)) (mgr_mode st)
    \<and> (\<exists>bid res. broker_order_id (heap st ! r) = Some bid \<and> modify_levels ad bid sl tp = Answer res
        \<and> rs_status res = B_accepted)"
proof (rule ccontr)
  assume no: "\<not> ?thesis"
  let ?o = "heap st ! r" let ?st = "snd (modify digest ad r ap sl tp now st)"
  have same: "heap ?st = heap st \<Longrightarrow> False" using assms(2) by auto
  show False
  proof (cases "order_terminal ?o \<or> needs_reconciliation ?o \<or> \<not> vd_approved (ap_verdict ap) \<or> expired ap now
      \<or> \<not> binds_order digest ap (account_id ?o) (order_type ?o) (mgr_mode st) \<or> approved_volume ap \<noteq> quantity ?o
      \<or> broker_order_id ?o = None")
    case True
    then have "heap ?st = heap st"
      by (cases "order_terminal ?o"; cases "needs_reconciliation ?o"; cases "vd_approved (ap_verdict ap)")
         (auto simp: modify_def run_validate run_simps)
    then show False by (rule same)
  next
    case False
    then obtain bid where bid: "broker_order_id ?o = Some bid" by auto
    let ?sc = "st\<lparr>calls := calls st @ [Modify r bid sl tp (status ?o)]\<rparr>"
    note m = modify_def [of digest ad r ap sl tp now]
    have r: "r < length (heap ?sc)" using assms(1) by simp
    show False
    proof (cases "modify_levels ad bid sl tp")
      case (Answer res)
      then have "rs_status res \<noteq> B_accepted" using no False bid by auto
      then show False using False bid Answer assms
        by (cases "rs_status res") (simp_all add: m run_validate run_simps is_unknown_def levels_frame [OF r])
    next
      case (Broker_error e)
      then show False using False bid assms by (simp add: m run_validate run_simps)
    next
      case (Other_error e)
      then show False using False bid assms by (simp add: m run_validate run_simps levels_frame [OF r])
    qed
  qed
qed

abbreviation one_hash :: "string \<Rightarrow> unit" where "one_hash \<equiv> (\<lambda>_. ())"

definition demo_approval :: "unit approval" where
  "demo_approval = grant one_hash ''d1''
     \<lparr>decision = Approve, vd_reason = All_passed, vd_checks = [], vd_at = 0,
      vd_proposal = demo_proposal\<lparr>pp_volume := Some 100, pp_account_id := Some ''a1''\<rparr>\<rparr>
     (demo_proposal\<lparr>pp_volume := Some 100, pp_account_id := Some ''a1''\<rparr>) 100"

lemma half_filled_sel:
  "\<not> order_terminal half_filled" "\<not> needs_reconciliation half_filled" "broker_order_id half_filled = Some ''7001''"
  "account_id half_filled = ''a1''" "order_type half_filled = ''market''" "quantity half_filled = 100"
  "stop_loss half_filled = Some 1" "oid half_filled = ''o1''" "length (transition_log half_filled) = 2"
  "status half_filled = Partially_filled"
  by code_simp+

lemma working_manager_sel:
  "heap working_manager = [half_filled]" "mgr_mode working_manager = ''paper''" "queued working_manager ''o1'' = Some 2"
  by code_simp+

lemma demo_approval_sel:
  "vd_approved (ap_verdict demo_approval)" "approved_volume demo_approval = 100" "\<not> expired demo_approval 1"
  "binds_order one_hash demo_approval acc ot md"
  by (simp_all add: demo_approval_def grant_def vd_approved_def secs_def APPROVAL_TTL_SECONDS_def expired_def
      binds_order_def binds_def)

lemma yes_modify: "modify_levels yes_venue b sl tp = Answer accepted_result" "\<not> is_unknown accepted_result"
  "rs_status accepted_result = B_accepted" "rs_detail accepted_result = []" "rs_retcode accepted_result = None"
  by (simp_all add: yes_venue_def accepted_result_def is_unknown_def)

lemma run_valid:
  "validate_approval ap now st = (if \<not> vd_approved (ap_verdict ap) then (Inl (OrderRefused (R_verdict (decision (ap_verdict ap)))), st)
      else if expired ap now then (Inl (OrderRefused (R_approval_expired (ap_expires_at ap))), st) else (Inr (), st))"
  "validate_binding digest ap acc ot st =
     (if \<not> binds_order digest ap acc ot (mgr_mode st)
      then (Inl (OrderRefused (R_binding acc ot (mgr_mode st))), st) else (Inr (), st))"
  by (simp_all add: validate_approval_def validate_binding_def run_simps)

lemma announced_pending:
  "pending (announced r st) = pending st @ map (\<lambda>e. \<lparr>ev_type = event_for (tr_new e), ev_payload = payload_for (heap st ! r),
      ev_ref = r\<rparr>) (drop (case queued st (oid (heap st ! r)) of Some n \<Rightarrow> n | None \<Rightarrow> 0) (transition_log (heap st ! r)))"
  by (simp add: announced_def queue_events_def run_simps Let_def)

theorem levels_only_by_the_venue_witness:
  "\<exists>bid res. broker_order_id (heap working_manager ! 0) = Some bid
     \<and> modify_levels yes_venue bid (Some 2) None = Answer res \<and> rs_status res = B_accepted
     \<and> \<not> expired demo_approval 1"
proof -
  have a: "0 < length (heap working_manager)" by (simp add: working_manager_sel)
  have c: "stop_loss (heap (snd (modify one_hash yes_venue 0 demo_approval (Some 2) None 1 working_manager)) ! 0)
      \<noteq> stop_loss (heap working_manager ! 0)"
    by (simp add: modify_def run_valid run_all working_manager_sel half_filled_sel demo_approval_sel yes_modify
        apply_levels_def)
  show ?thesis using levels_only_by_the_venue [OF a disjI1 [OF c]] by blast
qed

text \<open>A modification announces a fill that did not happen. It is logged as a transition from
  the order's state to itself, and the events of an order are one for each logged
  transition, so changing the stop of a partially filled order publishes
  \<open>ORDER_PARTIALLY_FILLED\<close> again although no deal was added to its book.\<close>

theorem modify_announces_a_fill:
  "let st = snd (flush_events True working_manager);
       st' = snd (modify one_hash yes_venue 0 demo_approval (Some 2) None 1 st)
   in map ev_type (pending st) = [] \<and> map ev_type (pending st') = [ORDER_PARTIALLY_FILLED]
     \<and> book (heap st' ! 0) = book (heap st ! 0)"
  by (simp add: modify_def flush_events_def drain_events_def run_valid run_all working_manager_sel half_filled_sel
      demo_approval_sel yes_modify apply_levels_def announced_pending modification_def)

definition demo_args :: create_args where
  "demo_args = \<lparr>ca_intent_id = ''i9'', ca_account_id = ''a1'', ca_order_id = None, ca_order_type = ''market'',
     ca_time_in_force = ''gtc'', ca_bot_id = None, ca_expires_at = None\<rparr>"

definition sent_manager :: oms where
  "sent_manager = snd (submit yes_venue 0 1 (snd (create one_hash demo_approval demo_args ''o9'' 1
     (new_manager ''paper'' None 300))))"

lemma created_manager:
  "creatable one_hash demo_approval demo_args 1 (new_manager ''paper'' None 300)"
  "orders (snd (create one_hash demo_approval demo_args ''o9'' 1 (new_manager ''paper'' None 300))) ''o9'' = Some 0"
proof -
  show c: "creatable one_hash demo_approval demo_args 1 (new_manager ''paper'' None 300)"
    unfolding creatable_def
    by (simp add: demo_approval_sel) (simp add: demo_approval_def grant_def demo_args_def new_manager_def
        ap_proposal_def demo_proposal_def)
  show "orders (snd (create one_hash demo_approval demo_args ''o9'' 1 (new_manager ''paper'' None 300))) ''o9'' = Some 0"
    unfolding create_new [OF c] using enrol_core [of "order_of (new_manager ''paper'' None 300) demo_approval demo_args ''o9'' 1"]
    by (simp add: same_core_def register_def Let_def order_of_def demo_args_def new_manager_def)
qed

lemma sent_manager_managed: "managed one_hash sent_manager"
proof -
  let ?st = "snd (create one_hash demo_approval demo_args ''o9'' 1 (new_manager ''paper'' None 300))"
  have "mgr_step one_hash (new_manager ''paper'' None 300) ?st" by (rule mgr_step.create)
  moreover have "mgr_step one_hash ?st sent_manager"
    unfolding sent_manager_def by (rule mgr_step.submit [OF heldI(1) [OF created_manager(2)]])
  ultimately have "(mgr_step one_hash)\<^sup>*\<^sup>* (new_manager ''paper'' None 300) sent_manager" by auto
  then show ?thesis unfolding managed_def by blast
qed

lemma sent_manager_sends: "length (sends sent_manager) = 1"
proof -
  let ?o = "order_of (new_manager ''paper'' None 300) demo_approval demo_args ''o9'' 1"
  let ?st = "enrol ?o (new_manager ''paper'' None 300)"
  have core: "heap ?st = [?o]" "specs_read_at ?st = None" "sends ?st = []" "calls ?st = []"
    by (simp_all add: enrol_def register_def queue_events_def run_simps Let_def new_manager_def sends_def)
  have o: "status ?o = Intent" "expires_at ?o = None" "symbol ?o = ''EURUSD''" "side ?o = ''buy''" "quantity ?o = 100"
    "stop_loss ?o = Some 1" "take_profit ?o = None"
    by (simp_all add: order_of_def demo_args_def Let_def demo_approval_def grant_def ap_proposal_def demo_proposal_def)
  let ?i = "\<lparr>si_symbol = ''EURUSD'', si_digits = 5, si_point = 1/100000, si_contract_size = None,
       si_tick_size = None, si_tick_value = None, volume_min = None, volume_max = None, si_volume_step = None\<rparr>"
  obtain st1 where sp: "venue_spec yes_venue ''EURUSD'' 1 ?st = (Inr (Inr (Some ?i)), st1)"
    by (auto simp: venue_spec_def spec_stale_def core spec_lookup_def run_all yes_venue_def)
  have c1: "same_core ?st st1" using venue_spec_core [of ?st yes_venue "''EURUSD''" 1] sp by simp
  have ok: "vr_ok (validate_order (request_of ?o) (Some ?i) None)"
    by (simp add: validate_order_ok_iff request_of_def o)
  have run: "submit yes_venue 0 1 ?st = transmit yes_venue 0 (request_of ?o) 1 st1"
    using sp ok o by (simp add: submit_def run_all core due_def Let_def)
  have "manager_inv ?st" using manager_inv_create [OF manager_inv_new, of one_hash demo_approval demo_args "''o9''" 1 "''paper''" None 300]
    unfolding create_new [OF created_manager(1)] by simp
  then have inv: "manager_inv st1" using manager_inv_kept [OF history.ok_core [OF c1] frame.ok_core [OF c1]] by blast
  have "orders st1 ''o9'' = Some 0"
    using c1 created_manager(2) unfolding create_new [OF created_manager(1)] by (simp add: same_core_def)
  then have reg: "held st1 0" by (rule heldI)
  have "sends (snd (transmit yes_venue 0 (request_of ?o) 1 st1)) = sends st1 @ [Place 0 (request_of ?o) Submitting]"
    unfolding transmit_def
    by (rule send_and_settle(2) [OF inv reg, where mkc = "Place 0 (request_of ?o)" and mkc' = "\<lambda>o'. Place 0 (request_of ?o) (status o')"])
       (use c1 core o in \<open>simp_all add: same_core_def request_of_def\<close>)
  moreover have "sent_manager = snd (transmit yes_venue 0 (request_of ?o) 1 st1)"
    unfolding sent_manager_def create_new [OF created_manager(1)] using run by simp
  ultimately show ?thesis using c1 core(3) by (simp add: same_core_def)
qed

theorem one_send_per_intent_witness:
  "length (sends sent_manager) = 1
    \<and> list_all (\<lambda>c. send_status c = Submitting
        \<and> by_intent sent_manager (client_order_id (heap sent_manager ! send_ref c)) \<noteq> None)
       (sends sent_manager)"
  using one_send_per_intent [OF sent_manager_managed] sent_manager_sends by (auto simp: list_all_iff)

end
