(* ===== verification/Strategy_Definition.thy ===== *)
theory Strategy_Definition
  imports Prelude
begin

text \<open>
  The declarative strategies of the builder: the definition and its parser,
  \<open>backend/app/strategies/definition.py\<close>, with the indicator catalogue of
  \<open>backend/app/strategies/indicators.py\<close>, the signal types of \<open>strategies/base.py\<close> and the
  timeframes of \<open>marketdata/types.py\<close>.

  A payload is a JSON value. Python's floats are a type parameter \<open>'f\<close> with a record \<open>'f floats\<close>
  of the operations the code uses on them, so the theorems hold for every arithmetic, rounding,
  infinities and NaN included. Dictionary keys are distinct in Python; the lookup here takes the
  first entry of a key. Messages are kept as a place and a reason.
\<close>

section \<open>Numbers and JSON\<close>

datatype 'f number = N_int int | N_float 'f

record 'f floats =
  fadd :: "'f \<Rightarrow> 'f \<Rightarrow> 'f"
  fsub :: "'f \<Rightarrow> 'f \<Rightarrow> 'f"
  fmul :: "'f \<Rightarrow> 'f \<Rightarrow> 'f"
  fdiv :: "'f \<Rightarrow> 'f \<Rightarrow> 'f"
  fneg :: "'f \<Rightarrow> 'f"
  fabs :: "'f \<Rightarrow> 'f"
  fmaximum :: "'f \<Rightarrow> 'f \<Rightarrow> 'f" \<comment> \<open>\<open>np.maximum\<close>\<close>
  fmean :: "'f list \<Rightarrow> 'f" \<comment> \<open>\<open>ndarray.mean\<close>\<close>
  flt :: "'f \<Rightarrow> 'f \<Rightarrow> bool"
  fle :: "'f \<Rightarrow> 'f \<Rightarrow> bool"
  feq :: "'f \<Rightarrow> 'f \<Rightarrow> bool"
  is_nan :: "'f \<Rightarrow> bool"
  of_dec :: "rat \<Rightarrow> 'f" \<comment> \<open>\<open>float(d)\<close> of a \<open>Decimal\<close>, and the literals of the code\<close>
  of_num :: "int \<Rightarrow> 'f option" \<comment> \<open>\<open>float(n)\<close> of an \<open>int\<close>; None is \<open>OverflowError\<close>\<close>
  to_int :: "'f \<Rightarrow> int" \<comment> \<open>\<open>int(x)\<close>\<close>
  mixed_le :: "'f number \<Rightarrow> 'f number \<Rightarrow> bool" \<comment> \<open>\<open><=\<close> with a float on one side at least\<close>

datatype 'f json =
    J_null | J_bool bool | J_int int | J_float 'f | J_str string
  | J_list "'f json list" | J_dict "(string \<times> 'f json) list"

definition num_le :: "'f floats \<Rightarrow> 'f number \<Rightarrow> 'f number \<Rightarrow> bool" where
  "num_le F a b = (case (a, b) of (N_int m, N_int n) \<Rightarrow> m \<le> n | _ \<Rightarrow> mixed_le F a b)"

definition int_of_number :: "'f floats \<Rightarrow> 'f number \<Rightarrow> int" where
  "int_of_number F a = (case a of N_int n \<Rightarrow> n | N_float x \<Rightarrow> to_int F x)"

definition json_number :: "'f number \<Rightarrow> 'f json" where
  "json_number a = (case a of N_int n \<Rightarrow> J_int n | N_float x \<Rightarrow> J_float x)"

text \<open>\<open>payload.get(key)\<close>, and the truth test of a value.\<close>

definition jget :: "(string \<times> 'f json) list \<Rightarrow> string \<Rightarrow> 'f json" where
  "jget d k = (case map_of d k of Some v \<Rightarrow> v | None \<Rightarrow> J_null)"

definition jtrue :: "'f floats \<Rightarrow> 'f json \<Rightarrow> bool" where
  "jtrue F v = (case v of J_null \<Rightarrow> False | J_bool b \<Rightarrow> b | J_int n \<Rightarrow> n \<noteq> 0
     | J_float x \<Rightarrow> \<not> feq F x (of_dec F 0) | J_str s \<Rightarrow> s \<noteq> [] | J_list xs \<Rightarrow> xs \<noteq> [] | J_dict d \<Rightarrow> d \<noteq> [])"

lemma jget_Cons [simp]: "jget ((k, v) # d) k' = (if k = k' then v else jget d k')"
  by (simp add: jget_def)

lemma jget_Nil [simp]: "jget [] k = J_null"
  by (simp add: jget_def)

section \<open>Vocabularies\<close>

datatype comparison =
    Greater_than | Less_than | Greater_or_equal | Less_or_equal | Equal_to | Crosses_above | Crosses_below

fun comparison_value :: "comparison \<Rightarrow> string" where
  "comparison_value Greater_than = ''GREATER_THAN''"
| "comparison_value Less_than = ''LESS_THAN''"
| "comparison_value Greater_or_equal = ''GREATER_OR_EQUAL''"
| "comparison_value Less_or_equal = ''LESS_OR_EQUAL''"
| "comparison_value Equal_to = ''EQUAL''"
| "comparison_value Crosses_above = ''CROSSES_ABOVE''"
| "comparison_value Crosses_below = ''CROSSES_BELOW''"

definition all_comparisons :: "comparison list" where
  "all_comparisons = [Greater_than, Less_than, Greater_or_equal, Less_or_equal, Equal_to, Crosses_above, Crosses_below]"

definition needs_previous_bar :: "comparison \<Rightarrow> bool" where
  "needs_previous_bar c \<longleftrightarrow> c \<in> {Crosses_above, Crosses_below}"

datatype logical = L_and | L_or | L_not

fun logical_value :: "logical \<Rightarrow> string" where
  "logical_value L_and = ''AND''"
| "logical_value L_or = ''OR''"
| "logical_value L_not = ''NOT''"

datatype operand_kind = K_indicator | K_price | K_constant

fun kind_value :: "operand_kind \<Rightarrow> string" where
  "kind_value K_indicator = ''indicator''"
| "kind_value K_price = ''price''"
| "kind_value K_constant = ''constant''"

datatype signal_type = Entry_long | Entry_short | Exit_long | Exit_short | Close_all | Hold | No_signal

fun signal_value :: "signal_type \<Rightarrow> string" where
  "signal_value Entry_long = ''ENTRY_LONG''"
| "signal_value Entry_short = ''ENTRY_SHORT''"
| "signal_value Exit_long = ''EXIT_LONG''"
| "signal_value Exit_short = ''EXIT_SHORT''"
| "signal_value Close_all = ''CLOSE''"
| "signal_value Hold = ''HOLD''"
| "signal_value No_signal = ''NO_SIGNAL''"

definition is_actionable :: "signal_type \<Rightarrow> bool" where
  "is_actionable s \<longleftrightarrow> s \<notin> {Hold, No_signal}"

definition signal_direction :: "signal_type \<Rightarrow> string" where
  "signal_direction s = (if s \<in> {Entry_long, Exit_short} then ''buy''
     else if s \<in> {Entry_short, Exit_long} then ''sell'' else ''flat'')"

definition ENTRY_ACTIONS :: "signal_type list" where "ENTRY_ACTIONS = [Entry_long, Entry_short]"

definition EXIT_ACTIONS :: "signal_type list" where "EXIT_ACTIONS = [Exit_long, Exit_short, Close_all]"

datatype timeframe = M1 | M5 | M15 | M30 | H1 | H4 | D1 | W1

fun timeframe_value :: "timeframe \<Rightarrow> string" where
  "timeframe_value M1 = ''M1''"
| "timeframe_value M5 = ''M5''"
| "timeframe_value M15 = ''M15''"
| "timeframe_value M30 = ''M30''"
| "timeframe_value H1 = ''H1''"
| "timeframe_value H4 = ''H4''"
| "timeframe_value D1 = ''D1''"
| "timeframe_value W1 = ''W1''"

definition timeframe_seconds :: "timeframe \<Rightarrow> int" where
  "timeframe_seconds t = (case t of M1 \<Rightarrow> 60 | M5 \<Rightarrow> 300 | M15 \<Rightarrow> 900 | M30 \<Rightarrow> 1800 | H1 \<Rightarrow> 3600
     | H4 \<Rightarrow> 14400 | D1 \<Rightarrow> 86400 | W1 \<Rightarrow> 604800)"

text \<open>\<open>Enum(str(raw))\<close>: the text of a value that is not a string is never that of a member.\<close>

definition enum_of :: "('a \<Rightarrow> string) \<Rightarrow> 'a list \<Rightarrow> 'f json \<Rightarrow> 'a option" where
  "enum_of val all raw = (case raw of J_str s \<Rightarrow> find (\<lambda>x. val x = s) all | _ \<Rightarrow> None)"

definition all_signals :: "signal_type list" where
  "all_signals = [Entry_long, Entry_short, Exit_long, Exit_short, Close_all, Hold, No_signal]"

definition all_timeframes :: "timeframe list" where "all_timeframes = [M1, M5, M15, M30, H1, H4, D1, W1]"

definition all_logicals :: "logical list" where "all_logicals = [L_and, L_or, L_not]"

definition all_kinds :: "operand_kind list" where "all_kinds = [K_indicator, K_price, K_constant]"

lemma enum_of_value [simp]:
  "enum_of comparison_value all_comparisons (J_str (comparison_value c)) = Some c"
  "enum_of logical_value all_logicals (J_str (logical_value l)) = Some l"
  "enum_of kind_value all_kinds (J_str (kind_value k)) = Some k"
  "enum_of signal_value all_signals (J_str (signal_value s)) = Some s"
  by (cases c, simp_all add: enum_of_def all_comparisons_def,
      cases l, simp_all add: enum_of_def all_logicals_def,
      cases k, simp_all add: enum_of_def all_kinds_def,
      cases s, simp_all add: enum_of_def all_signals_def)

section \<open>Errors\<close>

datatype path_step = Fld string | Ix string nat

type_synonym path = "path_step list"

datatype unit_kind = U_price | U_oscillator | U_volatility | U_volume | U_ratio | U_scalar

datatype param_problem = Prm_unknown "string list" | Prm_bool string | Prm_not_int string | Prm_not_number string | Prm_range string

datatype def_problem =
    Not_an_object | Unknown_fields "string list" | String_required string | String_too_long string nat
  | Bad_kind | Constant_not_number | Ref_required | Not_a_price_field string | Unknown_indicator string
  | Bad_params param_problem | Too_deep | Bad_comparison | Bad_logical | Children_required | Not_one_child nat
  | Too_few_children logical | Bad_node_type | Two_constants | Not_comparable unit_kind unit_kind
  | Bad_action | Action_not_allowed signal_type | Bad_description | Bad_timeframe string | No_entry_rules
  | Too_many_entry_rules | Exits_not_a_list | Too_many_exit_rules | Too_many_conditions nat

text \<open>What the code can raise: its own error, and Python's where it does not catch them.\<close>

datatype py_exc =
    DefinitionError path def_problem | OverflowError | AttributeError | TypeError | ValueError | KeyError | IndexError

text \<open>A comprehension that evaluates its elements in order and stops at the first exception.\<close>

primrec mapE :: "(nat \<Rightarrow> 'a \<Rightarrow> 'e + 'b) \<Rightarrow> nat \<Rightarrow> 'a list \<Rightarrow> 'e + 'b list" where
  "mapE f i [] = Inr []"
| "mapE f i (x # xs) = bindE (f i x) (\<lambda>y. bindE (mapE f (Suc i) xs) (\<lambda>ys. Inr (y # ys)))"

lemma mapE_cong [fundef_cong]:
  assumes "xs = ys" "i = j" and "\<And>k x. x \<in> set ys \<Longrightarrow> f k x = g k x"
  shows "mapE f i xs = mapE g j ys"
proof -
  have "(\<And>k x. x \<in> set ys \<Longrightarrow> f k x = g k x) \<Longrightarrow> mapE f j ys = mapE g j ys"
    by (induction ys arbitrary: j) auto
  then show ?thesis using assms by simp
qed

lemma bindE_cong [fundef_cong]:
  assumes "m = m'" and "\<And>x. m' = Inr x \<Longrightarrow> k x = k' x"
  shows "bindE m k = bindE m' k'"
  using assms by (auto simp: bindE_def split: sum.splits)

lemma mapE_Inr:
  "mapE f i xs = Inr ys \<longleftrightarrow> length ys = length xs \<and> (\<forall>k < length xs. f (i + k) (xs ! k) = Inr (ys ! k))"
proof (induction xs arbitrary: i ys)
  case (Cons x xs)
  show ?case
  proof (cases ys)
    case (Cons y zs)
    then show ?thesis
      by (auto simp: bindE_Inr Cons.IH nth_Cons' less_Suc_eq_0_disj)
  qed (auto simp: bindE_Inr)
qed auto

section \<open>The indicator catalogue\<close>

record 'f parameter_spec =
  prm_name :: string
  prm_kind :: string
  prm_default :: "'f number"
  prm_minimum :: "'f number"
  prm_maximum :: "'f number"

record 'f indicator_spec =
  ind_key :: string
  ind_unit :: unit_kind
  ind_parameters :: "'f parameter_spec list"
  warmup_multiplier :: int

text \<open>What \<open>validate_params\<close> can raise: \<open>ValueError\<close> with a reason, or another exception.\<close>

datatype param_exc = Bad_value param_problem | Escapes py_exc

definition in_range :: "'f floats \<Rightarrow> 'f parameter_spec \<Rightarrow> 'f number \<Rightarrow> param_exc + 'f number" where
  "in_range F p x = (if num_le F (prm_minimum p) x \<and> num_le F x (prm_maximum p) then Inr x
     else Inl (Bad_value (Prm_range (prm_name p))))"

definition validate_param :: "'f floats \<Rightarrow> 'f parameter_spec \<Rightarrow> 'f json \<Rightarrow> param_exc + 'f number" where
  "validate_param F p value = (case value of
     J_bool b \<Rightarrow> Inl (Bad_value (Prm_bool (prm_name p)))
   | J_int n \<Rightarrow> (if prm_kind p = ''int'' then in_range F p (N_int n)
       else (case of_num F n of None \<Rightarrow> Inl (Escapes OverflowError) | Some x \<Rightarrow> in_range F p (N_float x)))
   | J_float x \<Rightarrow> (if prm_kind p = ''int'' then Inl (Bad_value (Prm_not_int (prm_name p)))
       else in_range F p (N_float x))
   | _ \<Rightarrow> Inl (Bad_value (if prm_kind p = ''int'' then Prm_not_int (prm_name p) else Prm_not_number (prm_name p))))"

text \<open>
  \<open>validate_params\<close> is typed for a dictionary but called with any true value. \<open>set(given)\<close> of a
  string is the set of its characters, of a list the set of its elements, which must be
  hashable, and raises \<open>TypeError\<close> for a number; only a dictionary has \<open>get\<close>.
\<close>

definition param_keys :: "'f json \<Rightarrow> param_exc + string list" where
  "param_keys given = (case given of
     J_dict d \<Rightarrow> Inr (map fst d)
   | J_str s \<Rightarrow> Inr (map (\<lambda>c. [c]) s)
   | J_list xs \<Rightarrow> (if list_all (\<lambda>x. case x of J_list _ \<Rightarrow> False | J_dict _ \<Rightarrow> False | _ \<Rightarrow> True) xs
       then Inr (map (\<lambda>x. case x of J_str s \<Rightarrow> s | _ \<Rightarrow> []) xs) else Inl (Escapes TypeError))
   | _ \<Rightarrow> Inl (Escapes TypeError))"

definition validate_params :: "'f floats \<Rightarrow> 'f indicator_spec \<Rightarrow> 'f json \<Rightarrow> param_exc + (string \<times> 'f number) list" where
  "validate_params F sp given = bindE (param_keys given) (\<lambda>keys.
     let unknown = filter (\<lambda>k. k \<notin> set (map prm_name (ind_parameters sp))) keys in
     if unknown \<noteq> [] then Inl (Bad_value (Prm_unknown unknown))
     else (case given of
       J_dict d \<Rightarrow> mapE (\<lambda>_ p. bindE
           (validate_param F p (case map_of d (prm_name p) of Some v \<Rightarrow> v | None \<Rightarrow> json_number (prm_default p)))
           (\<lambda>x. Inr (prm_name p, x))) 0 (ind_parameters sp)
     | _ \<Rightarrow> if ind_parameters sp = [] then Inr [] else Inl (Escapes AttributeError)))"

definition spec_warmup :: "'f floats \<Rightarrow> 'f indicator_spec \<Rightarrow> (string \<times> 'f number) list \<Rightarrow> int" where
  "spec_warmup F sp params =
     (let vs = map (int_of_number F \<circ> snd) params;
          longest = (if vs = [] then 1 else Max (set vs))
      in max (longest * warmup_multiplier sp) (longest + 1))"

definition period_param :: "int \<Rightarrow> 'f parameter_spec" where
  "period_param dflt = \<lparr>prm_name = ''period'', prm_kind = ''int'', prm_default = N_int dflt,
     prm_minimum = N_int 2, prm_maximum = N_int 500\<rparr>"

definition CATALOGUE :: "(string \<times> 'f indicator_spec) list" where
  "CATALOGUE =
    [(''SMA'', \<lparr>ind_key = ''SMA'', ind_unit = U_price, ind_parameters = [period_param 20], warmup_multiplier = 3\<rparr>),
     (''EMA'', \<lparr>ind_key = ''EMA'', ind_unit = U_price, ind_parameters = [period_param 20], warmup_multiplier = 3\<rparr>),
     (''RSI'', \<lparr>ind_key = ''RSI'', ind_unit = U_oscillator, ind_parameters = [period_param 14], warmup_multiplier = 3\<rparr>),
     (''ATR'', \<lparr>ind_key = ''ATR'', ind_unit = U_volatility, ind_parameters = [period_param 14], warmup_multiplier = 3\<rparr>)]"

definition PRICE_FIELDS :: "(string \<times> unit_kind) list" where
  "PRICE_FIELDS = [(''close'', U_price), (''open'', U_price), (''high'', U_price), (''low'', U_price),
     (''volume'', U_volume)]"

text \<open>\<open>spec_for\<close>; None is its \<open>ValueError\<close>.\<close>

definition spec_for :: "string \<Rightarrow> 'f indicator_spec option" where
  "spec_for key = map_of CATALOGUE key"

section \<open>The definition\<close>

record 'f operand =
  op_kind :: operand_kind
  op_ref :: string
  op_params :: "(string \<times> 'f number) list"
  op_value :: "'f option"

datatype 'f node = Condition "'f operand" comparison "'f operand" | Group logical "'f node list"

record 'f rule =
  rl_when :: "'f node"
  rl_then :: signal_type

record 'f strategy_definition =
  sd_name :: string
  sd_symbol :: string
  sd_timeframe :: timeframe
  sd_entry_rules :: "'f rule list"
  sd_exit_rules :: "'f rule list"
  sd_description :: string

definition operand_unit :: "'f operand \<Rightarrow> py_exc + unit_kind" where
  "operand_unit opd = (case op_kind opd of
     K_indicator \<Rightarrow> (case spec_for (op_ref opd) of None \<Rightarrow> Inl ValueError
       | Some sp \<Rightarrow> Inr (ind_unit (sp :: 'f indicator_spec)))
   | K_price \<Rightarrow> (case map_of PRICE_FIELDS (op_ref opd) of None \<Rightarrow> Inl KeyError | Some u \<Rightarrow> Inr u)
   | K_constant \<Rightarrow> Inr U_scalar)"

text \<open>A label as the pieces of its text.\<close>

datatype 'f label = Lb_text string | Lb_number "'f number"

definition operand_label :: "'f operand \<Rightarrow> 'f label list" where
  "operand_label opd = (case op_kind opd of
     K_indicator \<Rightarrow> Lb_text (op_ref opd) # map (Lb_number \<circ> snd) (op_params opd)
   | K_price \<Rightarrow> [Lb_text (str_upper (op_ref opd))]
   | K_constant \<Rightarrow> (case op_value opd of Some x \<Rightarrow> [Lb_number (N_float x)] | None \<Rightarrow> [Lb_text ''None'']))"

definition operand_dict :: "'f operand \<Rightarrow> 'f json" where
  "operand_dict opd = J_dict [(''kind'', J_str (kind_value (op_kind opd))), (''ref'', J_str (op_ref opd)),
     (''params'', J_dict (map (\<lambda>(k, x). (k, json_number x)) (op_params opd))),
     (''value'', case op_value opd of Some x \<Rightarrow> J_float x | None \<Rightarrow> J_null)]"

fun node_dict :: "'f node \<Rightarrow> 'f json" where
  "node_dict (Condition l c r) = J_dict [(''type'', J_str ''condition''), (''left'', operand_dict l),
     (''comparison'', J_str (comparison_value c)), (''right'', operand_dict r)]"
| "node_dict (Group lg cs) = J_dict [(''type'', J_str ''group''), (''logical'', J_str (logical_value lg)),
     (''children'', J_list (map node_dict cs))]"

definition rule_dict :: "'f rule \<Rightarrow> 'f json" where
  "rule_dict r = J_dict [(''when'', node_dict (rl_when r)), (''then'', J_str (signal_value (rl_then r)))]"

definition to_payload :: "'f strategy_definition \<Rightarrow> 'f json" where
  "to_payload d = J_dict [(''name'', J_str (sd_name d)), (''description'', J_str (sd_description d)),
     (''symbol'', J_str (sd_symbol d)), (''timeframe'', J_str (timeframe_value (sd_timeframe d))),
     (''entry_rules'', J_list (map rule_dict (sd_entry_rules d))),
     (''exit_rules'', J_list (map rule_dict (sd_exit_rules d)))]"

fun node_operands :: "'f node \<Rightarrow> 'f operand list" where
  "node_operands (Condition l c r) = [l, r]"
| "node_operands (Group lg cs) = concat (map node_operands cs)"

fun count_conditions :: "'f node \<Rightarrow> nat" where
  "count_conditions (Condition l c r) = 1"
| "count_conditions (Group lg cs) = sum_list (map count_conditions cs)"

text \<open>\<open>found.setdefault(label, operand)\<close> over all indicator operands, entries first.\<close>

definition all_rules :: "'f strategy_definition \<Rightarrow> 'f rule list" where
  "all_rules d = sd_entry_rules d @ sd_exit_rules d"

definition setdefault :: "'f operand list \<Rightarrow> 'f operand \<Rightarrow> 'f operand list" where
  "setdefault found opd = (if operand_label opd \<in> set (map operand_label found) then found else found @ [opd])"

definition definition_indicators :: "'f strategy_definition \<Rightarrow> 'f operand list" where
  "definition_indicators d = foldl setdefault []
     (filter (\<lambda>opd. op_kind opd = K_indicator) (concat (map (node_operands \<circ> rl_when) (all_rules d))))"

definition definition_warmup :: "'f floats \<Rightarrow> 'f strategy_definition \<Rightarrow> py_exc + int" where
  "definition_warmup F d = bindE (mapE (\<lambda>_ opd. case spec_for (op_ref opd) of None \<Rightarrow> Inl ValueError
       | Some sp \<Rightarrow> Inr (spec_warmup F sp (op_params opd))) 0 (definition_indicators d))
     (\<lambda>needed. Inr (Max (set (needed @ [2]))))"

section \<open>The parser\<close>

definition MAX_DEPTH :: nat where "MAX_DEPTH = 6"
definition MAX_CONDITIONS :: nat where "MAX_CONDITIONS = 40"
definition MAX_RULES :: nat where "MAX_RULES = 10"

definition require :: "'f json \<Rightarrow> path \<Rightarrow> py_exc + (string \<times> 'f json) list" where
  "require payload w = (case payload of J_dict d \<Rightarrow> Inr d | _ \<Rightarrow> Inl (DefinitionError w Not_an_object))"

definition no_unknown :: "(string \<times> 'f json) list \<Rightarrow> string list \<Rightarrow> path \<Rightarrow> py_exc + unit" where
  "no_unknown d allowed w = (let unknown = filter (\<lambda>k. k \<notin> set allowed) (map fst d) in
     assertE (unknown = []) (DefinitionError w (Unknown_fields unknown)))"

definition string_field :: "(string \<times> 'f json) list \<Rightarrow> string \<Rightarrow> path \<Rightarrow> nat \<Rightarrow> py_exc + string" where
  "string_field d key w max_length = (case jget d key of
     J_str s \<Rightarrow> if str_strip s = [] then Inl (DefinitionError w (String_required key))
       else if max_length < length s then Inl (DefinitionError w (String_too_long key max_length))
       else Inr (str_strip s)
   | _ \<Rightarrow> Inl (DefinitionError w (String_required key)))"

definition constant_operand :: "'f floats \<Rightarrow> 'f json \<Rightarrow> path \<Rightarrow> py_exc + 'f operand" where
  "constant_operand F value w = (let mk = (\<lambda>x. \<lparr>op_kind = K_constant, op_ref = [], op_params = [], op_value = Some x\<rparr>) in
     case value of
       J_int n \<Rightarrow> (case of_num F n of None \<Rightarrow> Inl OverflowError | Some x \<Rightarrow> Inr (mk x))
     | J_float x \<Rightarrow> Inr (mk x)
     | _ \<Rightarrow> Inl (DefinitionError w Constant_not_number))"

definition parse_operand :: "'f floats \<Rightarrow> 'f json \<Rightarrow> path \<Rightarrow> py_exc + 'f operand" where
  "parse_operand F payload w =
    bindE (require payload w) (\<lambda>d.
    bindE (no_unknown d [''kind'', ''ref'', ''params'', ''value''] w) (\<lambda>_.
    case enum_of kind_value all_kinds (jget d ''kind'') of
      None \<Rightarrow> Inl (DefinitionError w Bad_kind)
    | Some K_constant \<Rightarrow> constant_operand F (jget d ''value'') w
    | Some kind \<Rightarrow> (case jget d ''ref'' of
        J_str ref \<Rightarrow>
          if ref = [] then Inl (DefinitionError w Ref_required)
          else if kind = K_price then
            (if ref \<notin> set (map fst PRICE_FIELDS) then Inl (DefinitionError w (Not_a_price_field ref))
             else Inr \<lparr>op_kind = K_price, op_ref = ref, op_params = [], op_value = None\<rparr>)
          else (case spec_for ref of
              None \<Rightarrow> Inl (DefinitionError w (Unknown_indicator ref))
            | Some sp \<Rightarrow>
                (case validate_params F sp (if jtrue F (jget d ''params'') then jget d ''params'' else J_dict []) of
                   Inl (Bad_value e) \<Rightarrow> Inl (DefinitionError w (Bad_params e))
                 | Inl (Escapes e) \<Rightarrow> Inl e
                 | Inr ps \<Rightarrow> Inr \<lparr>op_kind = K_indicator, op_ref = ref, op_params = ps, op_value = None\<rparr>))
      | _ \<Rightarrow> Inl (DefinitionError w Ref_required))))"

definition check_comparable :: "'f operand \<Rightarrow> 'f operand \<Rightarrow> path \<Rightarrow> py_exc + unit" where
  "check_comparable l r w =
    (if op_kind l = K_constant \<and> op_kind r = K_constant then Inl (DefinitionError w Two_constants)
     else bindE (operand_unit l) (\<lambda>lu. bindE (operand_unit r) (\<lambda>ru.
       if lu = U_scalar \<or> ru = U_scalar then Inr ()
       else assertE (lu = ru) (DefinitionError w (Not_comparable lu ru)))))"

definition check_children :: "logical \<Rightarrow> 'f json \<Rightarrow> path \<Rightarrow> py_exc + 'f json list" where
  "check_children lg children w = (case children of
     J_list cs \<Rightarrow>
       if cs = [] then Inl (DefinitionError w Children_required)
       else if lg = L_not \<and> length cs \<noteq> 1 then Inl (DefinitionError w (Not_one_child (length cs)))
       else if lg \<noteq> L_not \<and> length cs < 2 then Inl (DefinitionError w (Too_few_children lg))
       else Inr cs
   | _ \<Rightarrow> Inl (DefinitionError w Children_required))"

definition parse_condition :: "'f floats \<Rightarrow> (string \<times> 'f json) list \<Rightarrow> path \<Rightarrow> py_exc + 'f node" where
  "parse_condition F d w =
    bindE (no_unknown d [''type'', ''left'', ''comparison'', ''right''] w) (\<lambda>_.
    case enum_of comparison_value all_comparisons (jget d ''comparison'') of
      None \<Rightarrow> Inl (DefinitionError w Bad_comparison)
    | Some c \<Rightarrow>
        bindE (parse_operand F (jget d ''left'') (w @ [Fld ''left''])) (\<lambda>l.
        bindE (parse_operand F (jget d ''right'') (w @ [Fld ''right''])) (\<lambda>r.
        bindE (check_comparable l r w) (\<lambda>_. Inr (Condition l c r)))))"

text \<open>The recursion is bounded by the depth test, which comes first.\<close>

function parse_node :: "'f floats \<Rightarrow> 'f json \<Rightarrow> path \<Rightarrow> nat \<Rightarrow> py_exc + 'f node" where
  "parse_node F payload w depth =
    (if MAX_DEPTH < depth then Inl (DefinitionError w Too_deep)
     else bindE (require payload w) (\<lambda>d.
       if jget d ''type'' = J_str ''condition'' then parse_condition F d w
       else if jget d ''type'' = J_str ''group'' then
         bindE (no_unknown d [''type'', ''logical'', ''children''] w) (\<lambda>_.
         case enum_of logical_value all_logicals (jget d ''logical'') of
           None \<Rightarrow> Inl (DefinitionError w Bad_logical)
         | Some lg \<Rightarrow>
             bindE (check_children lg (jget d ''children'') w) (\<lambda>cs.
             bindE (mapE (\<lambda>i c. parse_node F c (w @ [Ix ''children'' i]) (depth + 1)) 0 cs) (\<lambda>ns.
             Inr (Group lg ns))))
       else Inl (DefinitionError w Bad_node_type)))"
  by pat_completeness auto
termination
  by (relation "measure (\<lambda>(F, payload, w, depth). MAX_DEPTH + 1 - depth)") auto

definition parse_rule :: "'f floats \<Rightarrow> 'f json \<Rightarrow> path \<Rightarrow> signal_type list \<Rightarrow> py_exc + 'f rule" where
  "parse_rule F payload w allowed =
    bindE (require payload w) (\<lambda>d.
    bindE (no_unknown d [''when'', ''then''] w) (\<lambda>_.
    case enum_of signal_value all_signals (jget d ''then'') of
      None \<Rightarrow> Inl (DefinitionError w Bad_action)
    | Some a \<Rightarrow>
        if a \<notin> set allowed then Inl (DefinitionError w (Action_not_allowed a))
        else bindE (parse_node F (jget d ''when'') (w @ [Fld ''when'']) 0) (\<lambda>n. Inr \<lparr>rl_when = n, rl_then = a\<rparr>)))"

definition parse_timeframe :: "string \<Rightarrow> py_exc + timeframe" where
  "parse_timeframe s = (case find (\<lambda>t. timeframe_value t = str_upper (str_strip s)) all_timeframes of
     None \<Rightarrow> Inl (DefinitionError [Fld ''definition''] (Bad_timeframe s)) | Some t \<Rightarrow> Inr t)"

definition description_field :: "'f floats \<Rightarrow> (string \<times> 'f json) list \<Rightarrow> path \<Rightarrow> py_exc + string" where
  "description_field F d w = (if \<not> jtrue F (jget d ''description'') then Inr []
     else (case jget d ''description'' of
       J_str s \<Rightarrow> if 1000 < length s then Inl (DefinitionError w Bad_description) else Inr s
     | _ \<Rightarrow> Inl (DefinitionError w Bad_description)))"

definition entry_list :: "(string \<times> 'f json) list \<Rightarrow> path \<Rightarrow> py_exc + 'f json list" where
  "entry_list d w = (case jget d ''entry_rules'' of
     J_list xs \<Rightarrow> if xs = [] then Inl (DefinitionError w No_entry_rules)
       else if MAX_RULES < length xs then Inl (DefinitionError w Too_many_entry_rules) else Inr xs
   | _ \<Rightarrow> Inl (DefinitionError w No_entry_rules))"

definition exit_list :: "'f floats \<Rightarrow> (string \<times> 'f json) list \<Rightarrow> path \<Rightarrow> py_exc + 'f json list" where
  "exit_list F d w = (if \<not> jtrue F (jget d ''exit_rules'') then Inr []
     else (case jget d ''exit_rules'' of
       J_list xs \<Rightarrow> if MAX_RULES < length xs then Inl (DefinitionError w Too_many_exit_rules) else Inr xs
     | _ \<Rightarrow> Inl (DefinitionError w Exits_not_a_list)))"

definition parse_definition :: "'f floats \<Rightarrow> 'f json \<Rightarrow> py_exc + 'f strategy_definition" where
  "parse_definition F payload = (let w = [Fld ''definition''] in
    bindE (require payload w) (\<lambda>d.
    bindE (no_unknown d [''name'', ''description'', ''symbol'', ''timeframe'', ''entry_rules'', ''exit_rules''] w) (\<lambda>_.
    bindE (string_field d ''name'' w 120) (\<lambda>name.
    bindE (string_field d ''symbol'' w 32) (\<lambda>symbol.
    bindE (description_field F d w) (\<lambda>description.
    bindE (bindE (string_field d ''timeframe'' w 8) parse_timeframe) (\<lambda>tf.
    bindE (entry_list d w) (\<lambda>entries.
    bindE (exit_list F d w) (\<lambda>exits.
    bindE (mapE (\<lambda>i r. parse_rule F r [Ix ''entry_rules'' i] ENTRY_ACTIONS) 0 entries) (\<lambda>ens.
    bindE (mapE (\<lambda>i r. parse_rule F r [Ix ''exit_rules'' i] EXIT_ACTIONS) 0 exits) (\<lambda>exs.
    let total = sum_list (map (count_conditions \<circ> rl_when) (ens @ exs)) in
    if MAX_CONDITIONS < total then Inl (DefinitionError w (Too_many_conditions total))
    else Inr \<lparr>sd_name = name, sd_symbol = str_upper symbol, sd_timeframe = tf, sd_entry_rules = ens,
      sd_exit_rules = exs, sd_description = description\<rparr>)))))))))))"

declare parse_node.simps [simp del]

end
