(* ===== verification/Built_Strategy.thy ===== *)
theory Built_Strategy
  imports Strategy_Definition
begin

text \<open>
  The interpreter of a strategy definition, \<open>backend/app/strategies/built.py\<close>, the candles and
  signals of \<open>strategies/base.py\<close>, and the indicator series: \<open>compute\<close> of
  \<open>strategies/indicators.py\<close> with \<open>sma\<close>, \<open>wilder_rsi\<close> and \<open>atr_series\<close> of
  \<open>tools/rule_backtest.py\<close> and \<open>ema\<close> of \<open>tools/rule_search.py\<close>.

  An array is a list; the NaN that fills an output array where nothing has been written is None.
  Periods are at least two here (the parser sees to it), which is where the slices of the code
  mean what the definitions below say.
\<close>

section \<open>Bars and candles\<close>

record bar =
  b_symbol :: string
  b_timeframe :: timeframe
  b_time :: time
  b_open :: rat
  b_high :: rat
  b_low :: rat
  b_close :: rat
  b_volume :: "rat option"
  b_complete :: bool

record candles =
  cd_symbol :: string
  cd_timeframe :: timeframe
  cd_bars :: "bar list"

definition candles_of :: "string \<Rightarrow> timeframe \<Rightarrow> bar list \<Rightarrow> candles" where
  "candles_of sy tf bars = \<lparr>cd_symbol = sy, cd_timeframe = tf, cd_bars = sort_key b_time (filter b_complete bars)\<rparr>"

section \<open>Indicator series\<close>

definition fint :: "'f floats \<Rightarrow> nat \<Rightarrow> 'f" where "fint F n = of_dec F (of_nat n)"

text \<open>\<open>np.cumsum(np.insert(xs, 0, 0.0))\<close>\<close>

fun running_sums :: "'f floats \<Rightarrow> 'f \<Rightarrow> 'f list \<Rightarrow> 'f list" where
  "running_sums F acc [] = [acc]"
| "running_sums F acc (x # xs) = acc # running_sums F (fadd F acc x) xs"

definition sma :: "'f floats \<Rightarrow> 'f list \<Rightarrow> nat \<Rightarrow> 'f option list" where
  "sma F a n = (if length a < n then replicate (length a) None
     else let csum = running_sums F (fint F 0) a in
       replicate (n - 1) None
       @ map (\<lambda>i. Some (fdiv F (fsub F (csum ! (i + n)) (csum ! i)) (fint F n))) [0..<length csum - n])"

fun ema_run :: "'f floats \<Rightarrow> 'f \<Rightarrow> 'f \<Rightarrow> 'f list \<Rightarrow> 'f option list" where
  "ema_run F k acc [] = []"
| "ema_run F k acc (x # xs) = (let acc' = fadd F (fmul F x k) (fmul F acc (fsub F (fint F 1) k)) in
     Some acc' # ema_run F k acc' xs)"

definition ema :: "'f floats \<Rightarrow> 'f list \<Rightarrow> nat \<Rightarrow> 'f option list" where
  "ema F a n = (if length a < n then replicate (length a) None
     else let k = fdiv F (fint F 2) (fint F (n + 1)); acc = fmean F (take n a) in
       replicate (n - 1) None @ Some acc # ema_run F k acc (drop n a))"

fun diff :: "'f floats \<Rightarrow> 'f list \<Rightarrow> 'f list" where
  "diff F (x # y # xs) = fsub F y x # diff F (y # xs)"
| "diff F xs = []"

definition gain_of :: "'f floats \<Rightarrow> 'f \<Rightarrow> 'f" where
  "gain_of F d = (if flt F (fint F 0) d then d else fint F 0)"

definition loss_of :: "'f floats \<Rightarrow> 'f \<Rightarrow> 'f" where
  "loss_of F d = (if flt F d (fint F 0) then fneg F d else fint F 0)"

definition smooth :: "'f floats \<Rightarrow> nat \<Rightarrow> 'f \<Rightarrow> 'f \<Rightarrow> 'f" where
  "smooth F n avg x = fdiv F (fadd F (fmul F avg (fint F (n - 1))) x) (fint F n)"

fun rsi_run :: "'f floats \<Rightarrow> nat \<Rightarrow> 'f \<Rightarrow> 'f \<Rightarrow> 'f list \<Rightarrow> 'f option list" where
  "rsi_run F n ag al [] = []"
| "rsi_run F n ag al (d # ds) =
     (let ag' = smooth F n ag (gain_of F d); al' = smooth F n al (loss_of F d) in
      Some (if feq F al' (fint F 0) then fint F 100
        else fsub F (fint F 100) (fdiv F (fint F 100) (fadd F (fint F 1) (fdiv F ag' al'))))
      # rsi_run F n ag' al' ds)"

definition wilder_rsi :: "'f floats \<Rightarrow> 'f list \<Rightarrow> nat \<Rightarrow> 'f option list" where
  "wilder_rsi F close n = (let d = diff F close in
     if length d < n then replicate (length close) None
     else replicate (n + 1) None
       @ rsi_run F n (fmean F (take n (map (gain_of F) d))) (fmean F (take n (map (loss_of F) d))) (drop n d))"

definition true_range :: "'f floats \<Rightarrow> 'f \<Rightarrow> 'f \<Rightarrow> 'f \<Rightarrow> 'f" where
  "true_range F h l prev =
     fmaximum F (fsub F h l) (fmaximum F (fabs F (fsub F h prev)) (fabs F (fsub F l prev)))"

definition atr_series :: "'f floats \<Rightarrow> 'f list \<Rightarrow> 'f list \<Rightarrow> 'f list \<Rightarrow> nat \<Rightarrow> 'f option list" where
  "atr_series F h l c n =
     (let tr = map (\<lambda>(x, y, p). true_range F x y p) (zip (tl h) (zip (tl l) (butlast c)));
          csum = running_sums F (fint F 0) tr
      in map (\<lambda>i. if n \<le> i \<and> i \<le> length tr then Some (fdiv F (fsub F (csum ! i) (csum ! (i - n))) (fint F n)) else None)
           [0..<length c])"

definition series_for ::
    "'f floats \<Rightarrow> string \<Rightarrow> nat \<Rightarrow> 'f list \<Rightarrow> 'f list \<Rightarrow> 'f list \<Rightarrow> py_exc + 'f option list" where
  "series_for F key n highs lows closes =
     (if key = ''SMA'' then Inr (sma F closes n)
      else if key = ''EMA'' then Inr (ema F closes n)
      else if key = ''RSI'' then Inr (wilder_rsi F closes n)
      else if key = ''ATR'' then Inr (atr_series F highs lows closes n)
      else Inl ValueError)"

definition no_nan :: "'f floats \<Rightarrow> 'f option \<Rightarrow> 'f option" where
  "no_nan F v = (case v of None \<Rightarrow> None | Some x \<Rightarrow> if is_nan F x then None else Some x)"

definition compute ::
    "'f floats \<Rightarrow> string \<Rightarrow> (string \<times> 'f number) list \<Rightarrow> rat list \<Rightarrow> rat list \<Rightarrow> rat list \<Rightarrow> py_exc + 'f option list" where
  "compute F key params highs lows closes = (case map_of params ''period'' of
     None \<Rightarrow> Inl (if key \<in> {''SMA'', ''EMA'', ''RSI'', ''ATR''} then KeyError else ValueError)
   | Some p \<Rightarrow> bindE (series_for F key (nat (int_of_number F p)) (map (of_dec F) highs) (map (of_dec F) lows)
         (map (of_dec F) closes)) (\<lambda>series. Inr (map (no_nan F) series)))"

section \<open>The interpreter\<close>

datatype 'f reason =
    Too_few_bars nat int | Other_symbol string string | Matched "'f rule" | No_rule_matched

record 'f signal =
  sg_key :: string
  sg_symbol :: string
  sg_timeframe :: timeframe
  sg_type :: signal_type
  sg_bar_time :: time
  sg_generated_at :: time
  sg_version :: "int option"
  sg_reference_price :: "rat option"
  sg_confidence :: "rat option"
  sg_reasoning :: "'f reason"

record 'f built_strategy =
  bs_definition :: "'f strategy_definition"
  bs_key :: string
  bs_version :: "int option"

type_synonym 'f series = "('f label list \<times> 'f option list) list"

definition series_of :: "'f floats \<Rightarrow> 'f strategy_definition \<Rightarrow> candles \<Rightarrow> py_exc + 'f series" where
  "series_of F d cs = mapE (\<lambda>_ opd. bindE (compute F (op_ref opd) (op_params opd)
       (map b_high (cd_bars cs)) (map b_low (cd_bars cs)) (map b_close (cd_bars cs)))
     (\<lambda>vs. Inr (operand_label opd, vs))) 0 (definition_indicators d)"

definition price_of :: "bar \<Rightarrow> string \<Rightarrow> py_exc + rat option" where
  "price_of b ref =
     (if ref = ''close'' then Inr (Some (b_close b)) else if ref = ''open'' then Inr (Some (b_open b))
      else if ref = ''high'' then Inr (Some (b_high b)) else if ref = ''low'' then Inr (Some (b_low b))
      else if ref = ''volume'' then Inr (b_volume b) else Inl KeyError)"

text \<open>\<open>_value\<close>: an operand's value \<open>offset\<close> bars back.\<close>

definition value_at :: "'f floats \<Rightarrow> candles \<Rightarrow> 'f series \<Rightarrow> 'f operand \<Rightarrow> nat \<Rightarrow> py_exc + 'f option" where
  "value_at F cs ss opd offset =
     (if length (cd_bars cs) < 1 + offset then Inr None
      else let i = length (cd_bars cs) - 1 - offset in
      (case op_kind opd of
         K_constant \<Rightarrow> Inr (op_value opd)
       | K_price \<Rightarrow> bindE (price_of (cd_bars cs ! i) (op_ref opd)) (\<lambda>raw. Inr (map_option (of_dec F) raw))
       | K_indicator \<Rightarrow> (case map_of ss (operand_label opd) of
             None \<Rightarrow> Inr None
           | Some vs \<Rightarrow> if i < length vs then Inr (vs ! i) else Inl IndexError)))"

definition crossed :: "'f floats \<Rightarrow> comparison \<Rightarrow> 'f \<Rightarrow> 'f \<Rightarrow> 'f \<Rightarrow> 'f \<Rightarrow> bool" where
  "crossed F c pl pr l r =
     (if c = Crosses_above then fle F pl pr \<and> flt F r l else fle F pr pl \<and> flt F l r)"

definition condition_holds ::
    "'f floats \<Rightarrow> candles \<Rightarrow> 'f series \<Rightarrow> 'f operand \<Rightarrow> comparison \<Rightarrow> 'f operand \<Rightarrow> py_exc + bool" where
  "condition_holds F cs ss lo c ro =
    bindE (value_at F cs ss lo 0) (\<lambda>left. bindE (value_at F cs ss ro 0) (\<lambda>right.
    case (left, right) of
      (Some l, Some r) \<Rightarrow> (case c of
          Greater_than \<Rightarrow> Inr (flt F r l)
        | Less_than \<Rightarrow> Inr (flt F l r)
        | Greater_or_equal \<Rightarrow> Inr (fle F r l)
        | Less_or_equal \<Rightarrow> Inr (fle F l r)
        | Equal_to \<Rightarrow> Inr (feq F l r)
        | _ \<Rightarrow>
            bindE (value_at F cs ss lo 1) (\<lambda>pleft. bindE (value_at F cs ss ro 1) (\<lambda>pright.
            case (pleft, pright) of
              (Some pl, Some pr) \<Rightarrow> Inr (crossed F c pl pr l r)
            | _ \<Rightarrow> Inr False)))
    | _ \<Rightarrow> Inr False))"

fun holds :: "'f floats \<Rightarrow> candles \<Rightarrow> 'f series \<Rightarrow> 'f node \<Rightarrow> py_exc + bool" where
  "holds F cs ss (Condition l c r) = condition_holds F cs ss l c r"
| "holds F cs ss (Group lg ns) =
     (if lg = L_not then (case ns of [] \<Rightarrow> Inl IndexError | n # _ \<Rightarrow> bindE (holds F cs ss n) (\<lambda>b. Inr (\<not> b)))
      else bindE (mapE (\<lambda>_ n. holds F cs ss n) 0 ns) (\<lambda>bs.
        Inr (if lg = L_and then list_all id bs else list_ex id bs)))"

definition no_signal :: "'f built_strategy \<Rightarrow> candles \<Rightarrow> time \<Rightarrow> 'f reason \<Rightarrow> 'f signal" where
  "no_signal b cs now why = \<lparr>sg_key = bs_key b, sg_symbol = cd_symbol cs, sg_timeframe = cd_timeframe cs,
     sg_type = No_signal, sg_bar_time = (if cd_bars cs = [] then now else b_time (last (cd_bars cs))),
     sg_generated_at = now, sg_version = None, sg_reference_price = None, sg_confidence = None,
     sg_reasoning = why\<rparr>"

definition signal_of :: "'f built_strategy \<Rightarrow> candles \<Rightarrow> time \<Rightarrow> signal_type \<Rightarrow> 'f reason \<Rightarrow> 'f signal" where
  "signal_of b cs now ty why = \<lparr>sg_key = bs_key b, sg_symbol = cd_symbol cs, sg_timeframe = cd_timeframe cs,
     sg_type = ty, sg_bar_time = b_time (last (cd_bars cs)), sg_generated_at = now, sg_version = bs_version b,
     sg_reference_price = Some (b_close (last (cd_bars cs))), sg_confidence = None, sg_reasoning = why\<rparr>"

text \<open>The first rule that holds, entries before exits; the rest are not evaluated.\<close>

fun first_match :: "'f floats \<Rightarrow> candles \<Rightarrow> 'f series \<Rightarrow> 'f rule list \<Rightarrow> py_exc + 'f rule option" where
  "first_match F cs ss [] = Inr None"
| "first_match F cs ss (r # rs) = bindE (holds F cs ss (rl_when r)) (\<lambda>b.
     if b then Inr (Some r) else first_match F cs ss rs)"

definition generate_signal :: "'f floats \<Rightarrow> 'f built_strategy \<Rightarrow> candles \<Rightarrow> time \<Rightarrow> py_exc + 'f signal" where
  "generate_signal F b cs now =
    bindE (definition_warmup F (bs_definition b)) (\<lambda>need.
    if int (length (cd_bars cs)) < need then Inr (no_signal b cs now (Too_few_bars (length (cd_bars cs)) need))
    else if cd_symbol cs \<noteq> sd_symbol (bs_definition b)
    then Inr (no_signal b cs now (Other_symbol (sd_symbol (bs_definition b)) (cd_symbol cs)))
    else bindE (series_of F (bs_definition b) cs) (\<lambda>ss.
      bindE (first_match F cs ss (all_rules (bs_definition b))) (\<lambda>m.
      case m of
        Some r \<Rightarrow> Inr (signal_of b cs now (rl_then r) (Matched r))
      | None \<Rightarrow> Inr (signal_of b cs now Hold No_rule_matched))))"

section \<open>The key of a built strategy\<close>

definition is_alnum :: "char \<Rightarrow> bool" where
  "is_alnum c = (let n = of_char c :: nat in
     (48 \<le> n \<and> n \<le> 57) \<or> (65 \<le> n \<and> n \<le> 90) \<or> (97 \<le> n \<and> n \<le> 122)
   \<or> n \<in> {170, 178, 179, 181, 185, 186, 188, 189, 190} \<or> (192 \<le> n \<and> n \<noteq> 215 \<and> n \<noteq> 247))"

definition slug_char :: "char \<Rightarrow> char" where
  "slug_char c = (if is_alnum c then lower_char c else CHR ''_'')"

definition strip_underscores :: "string \<Rightarrow> string" where
  "strip_underscores s = rev (dropWhile (\<lambda>c. c = CHR ''_'') (rev (dropWhile (\<lambda>c. c = CHR ''_'') s)))"

fun has_double :: "string \<Rightarrow> bool" where
  "has_double (a # b # s) \<longleftrightarrow> a = CHR ''_'' \<and> b = CHR ''_'' \<or> has_double (b # s)"
| "has_double s \<longleftrightarrow> False"

text \<open>\<open>s.replace("__", "_")\<close>: from the left, without overlap.\<close>

fun halve :: "string \<Rightarrow> string" where
  "halve (a # b # s) = (if a = CHR ''_'' \<and> b = CHR ''_'' then CHR ''_'' # halve s else a # halve (b # s))"
| "halve s = s"

lemma halve_length: "length (halve s) \<le> length s"
  by (induction s rule: halve.induct) auto

lemma halve_shrinks: "has_double s \<Longrightarrow> length (halve s) < length s"
proof (induction s rule: halve.induct)
  case (1 a b s)
  then show ?case using halve_length [of s] by auto
qed auto

text \<open>The loop ends because every round with a double underscore makes the text shorter.\<close>

function collapse :: "string \<Rightarrow> string" where
  "collapse s = (if has_double s then collapse (halve s) else s)"
  by pat_completeness auto
termination
  by (relation "measure length") (auto intro: halve_shrinks)

declare collapse.simps [simp del]

definition slug :: "string \<Rightarrow> string" where
  "slug name = (let cleaned = take 64 (collapse (strip_underscores (map slug_char name))) in
     if cleaned = [] then ''built_strategy'' else cleaned)"

definition built :: "'f strategy_definition \<Rightarrow> string option \<Rightarrow> int option \<Rightarrow> 'f built_strategy" where
  "built d key v = \<lparr>bs_definition = d,
     bs_key = (case key of Some k \<Rightarrow> if k = [] then slug (sd_name d) else k | None \<Rightarrow> slug (sd_name d)),
     bs_version = v\<rparr>"

definition from_payload :: "'f floats \<Rightarrow> 'f json \<Rightarrow> string option \<Rightarrow> int option \<Rightarrow> py_exc + 'f built_strategy" where
  "from_payload F p key v = bindE (parse_definition F p) (\<lambda>d. Inr (built d key v))"

end
