(* ===== verification/Strategy_Roundtrip.thy ===== *)
theory Strategy_Roundtrip
  imports Strategy_Definition
begin

text \<open>
  What a parsed definition is, and that the form that is stored can be read back. A parsed
  definition is well formed (\<open>wf_definition\<close>): its tree is no deeper than the limit, a negation
  has one child and another group two at least, operands are known, parameters in range and
  compared quantities of one kind. Whatever is well formed is read back from \<open>to_payload\<close> as it
  was, unless its symbol has grown beyond the parser's limit when it was written in capitals.
\<close>

section \<open>Strings\<close>

lemma upper_char_space: "x \<in> set (upper_char c) \<Longrightarrow> is_space x \<longleftrightarrow> is_space c"
  by (auto simp: upper_char_def is_space_def Let_def split: if_splits)

lemma upper_char_nonempty: "upper_char c \<noteq> []"
  by (simp add: upper_char_def Let_def)

lemma upper_char_idem: "x \<in> set (upper_char c) \<Longrightarrow> upper_char x = [x]"
  by (auto simp: upper_char_def Let_def split: if_splits)

lemma str_upper_idem [simp]: "str_upper (str_upper s) = str_upper s"
proof -
  have "concat (map upper_char xs) = xs" if "\<forall>x \<in> set xs. upper_char x = [x]" for xs
    using that by (induction xs) auto
  then show ?thesis using upper_char_idem by (auto simp: str_upper_def)
qed

definition trimmed :: "string \<Rightarrow> bool" where
  "trimmed s \<longleftrightarrow> s = [] \<or> \<not> is_space (hd s) \<and> \<not> is_space (last s)"

lemma dropWhile_hd: "xs = [] \<or> \<not> P (hd xs) \<Longrightarrow> dropWhile P xs = xs"
  by (cases xs) auto

lemma last_dropWhile: "dropWhile P xs \<noteq> [] \<Longrightarrow> last (dropWhile P xs) = last xs"
  by (induction xs) auto

lemma strip_trimmed: "trimmed s \<Longrightarrow> str_strip s = s"
  by (auto simp: trimmed_def str_strip_def dropWhile_hd hd_rev)

lemma dropWhile_both:
  assumes "rev (dropWhile P (rev (dropWhile P s))) \<noteq> []"
  shows "\<not> P (hd (rev (dropWhile P (rev (dropWhile P s)))))"
    and "\<not> P (last (rev (dropWhile P (rev (dropWhile P s)))))"
proof -
  let ?t = "dropWhile P s" and ?u = "dropWhile P (rev (dropWhile P s))"
  have u: "?u \<noteq> []" using assms by simp
  have "?t \<noteq> []" using u by (metis dropWhile.simps(1) rev.simps(1))
  then have "\<not> P (hd ?t)" by (rule hd_dropWhile)
  moreover have "last ?u = last (rev ?t)" by (rule last_dropWhile [OF u])
  ultimately show "\<not> P (hd (rev ?u))" using \<open>?t \<noteq> []\<close> u by (simp only: hd_rev last_rev simp_thms)
  show "\<not> P (last (rev ?u))" using hd_dropWhile [OF u] by (simp only: last_rev simp_thms)
qed

lemma trimmed_strip: "trimmed (str_strip s)"
  using dropWhile_both [of is_space s] unfolding trimmed_def str_strip_def by blast

lemma length_strip: "length (str_strip s) \<le> length s"
  by (simp add: str_strip_def) (metis length_dropWhile_le length_rev le_trans)

lemma upper_Cons [simp]: "str_upper (c # s) = upper_char c @ str_upper s"
  and upper_Nil [simp]: "str_upper [] = []"
  and upper_append [simp]: "str_upper (s @ t) = str_upper s @ str_upper t"
  by (simp_all add: str_upper_def)

lemma upper_eq_Nil [simp]: "str_upper s = [] \<longleftrightarrow> s = []"
  using upper_char_nonempty by (cases s) auto

lemma trimmed_upper: "trimmed s \<Longrightarrow> trimmed (str_upper s)"
proof (cases s)
  case (Cons c t)
  assume "trimmed s"
  then have c: "\<not> is_space c" "\<not> is_space (last s)" using Cons by (auto simp: trimmed_def)
  have "s = butlast s @ [last s]" using Cons by simp
  then have u: "str_upper s = str_upper (butlast s) @ upper_char (last s)"
    by (metis append_Nil2 upper_Cons upper_Nil upper_append)
  have "hd (str_upper s) \<in> set (upper_char c)" using Cons upper_char_nonempty [of c] by simp
  moreover have "last (str_upper s) \<in> set (upper_char (last s))"
    unfolding u using upper_char_nonempty by simp
  ultimately show ?thesis using c by (auto simp: trimmed_def upper_char_space)
qed simp

section \<open>Well-formed definitions\<close>

definition wf_operand :: "'f operand \<Rightarrow> bool" where
  "wf_operand opd \<longleftrightarrow> (case op_kind opd of
     K_constant \<Rightarrow> op_ref opd = [] \<and> op_params opd = [] \<and> op_value opd \<noteq> None
   | K_price \<Rightarrow> op_ref opd \<in> {''close'', ''open'', ''high'', ''low'', ''volume''} \<and> op_params opd = [] \<and> op_value opd = None
   | K_indicator \<Rightarrow> op_ref opd \<in> {''SMA'', ''EMA'', ''RSI'', ''ATR''}
       \<and> (\<exists>n. op_params opd = [(''period'', N_int n)] \<and> 2 \<le> n \<and> n \<le> 500) \<and> op_value opd = None)"

definition unit_in :: "'f operand \<Rightarrow> unit_kind" where
  "unit_in opd = (case operand_unit opd of Inr u \<Rightarrow> u | Inl _ \<Rightarrow> U_scalar)"

definition comparable :: "'f operand \<Rightarrow> 'f operand \<Rightarrow> bool" where
  "comparable l r \<longleftrightarrow> \<not> (op_kind l = K_constant \<and> op_kind r = K_constant)
     \<and> (unit_in l = unit_in r \<or> unit_in l = U_scalar \<or> unit_in r = U_scalar)"

fun wf_node :: "nat \<Rightarrow> 'f node \<Rightarrow> bool" where
  "wf_node k (Condition l c r) \<longleftrightarrow> k \<le> MAX_DEPTH \<and> wf_operand l \<and> wf_operand r \<and> comparable l r"
| "wf_node k (Group lg cs) \<longleftrightarrow> k \<le> MAX_DEPTH \<and> (if lg = L_not then length cs = 1 else 2 \<le> length cs)
     \<and> (\<forall>c \<in> set cs. wf_node (k + 1) c)"

definition wf_rules :: "signal_type list \<Rightarrow> 'f rule list \<Rightarrow> bool" where
  "wf_rules allowed rs \<longleftrightarrow> length rs \<le> MAX_RULES \<and> (\<forall>r \<in> set rs. wf_node 0 (rl_when r) \<and> rl_then r \<in> set allowed)"

definition wf_definition :: "'f strategy_definition \<Rightarrow> bool" where
  "wf_definition d \<longleftrightarrow>
     sd_name d \<noteq> [] \<and> trimmed (sd_name d) \<and> length (sd_name d) \<le> 120
   \<and> sd_symbol d \<noteq> [] \<and> trimmed (sd_symbol d) \<and> str_upper (sd_symbol d) = sd_symbol d
   \<and> length (sd_description d) \<le> 1000
   \<and> sd_entry_rules d \<noteq> [] \<and> wf_rules ENTRY_ACTIONS (sd_entry_rules d) \<and> wf_rules EXIT_ACTIONS (sd_exit_rules d)
   \<and> sum_list (map (count_conditions \<circ> rl_when) (all_rules d)) \<le> MAX_CONDITIONS"

text \<open>The catalogue, read once.\<close>

lemma spec_for_simps [simp]:
  "spec_for ''SMA'' = Some \<lparr>ind_key = ''SMA'', ind_unit = U_price, ind_parameters = [period_param 20], warmup_multiplier = 3\<rparr>"
  "spec_for ''EMA'' = Some \<lparr>ind_key = ''EMA'', ind_unit = U_price, ind_parameters = [period_param 20], warmup_multiplier = 3\<rparr>"
  "spec_for ''RSI'' = Some \<lparr>ind_key = ''RSI'', ind_unit = U_oscillator, ind_parameters = [period_param 14], warmup_multiplier = 3\<rparr>"
  "spec_for ''ATR'' = Some \<lparr>ind_key = ''ATR'', ind_unit = U_volatility, ind_parameters = [period_param 14], warmup_multiplier = 3\<rparr>"
  by (simp_all add: spec_for_def CATALOGUE_def)

lemma spec_for_Some:
  "spec_for key = Some sp \<Longrightarrow> key \<in> {''SMA'', ''EMA'', ''RSI'', ''ATR''} \<and>
     (\<exists>n. ind_parameters sp = [period_param n]) \<and> warmup_multiplier sp = 3"
  by (auto simp: spec_for_def CATALOGUE_def split: if_splits)

lemma validate_period:
  assumes "validate_params F sp given = Inr ps" "ind_parameters sp = [period_param k]"
  shows "\<exists>n. ps = [(''period'', N_int n)] \<and> 2 \<le> n \<and> n \<le> 500"
  using assms
  by (auto simp: validate_params_def Let_def bindE_Inr period_param_def validate_param_def in_range_def num_le_def
      json_number_def split: if_splits json.splits option.splits)

lemma parse_operand_cases:
  assumes "parse_operand F p w = Inr opd"
  obtains (cst) v where "constant_operand F v w = Inr opd"
  | (price) ref where "ref \<in> set (map fst PRICE_FIELDS)"
      "opd = \<lparr>op_kind = K_price, op_ref = ref, op_params = [], op_value = None\<rparr>"
  | (indicator) ref sp given ps where "spec_for ref = Some sp" "validate_params F sp given = Inr ps"
      "opd = \<lparr>op_kind = K_indicator, op_ref = ref, op_params = ps, op_value = None\<rparr>"
proof -
  obtain d kind where d: "(case Some kind of
      None \<Rightarrow> Inl (DefinitionError w Bad_kind)
    | Some K_constant \<Rightarrow> constant_operand F (jget d ''value'') w
    | Some kind \<Rightarrow> (case jget d ''ref'' of
        J_str ref \<Rightarrow>
          if ref = [] then Inl (DefinitionError w Ref_required)
          else if kind = K_price then
            (if ref \<notin> set (map fst PRICE_FIELDS) then Inl (DefinitionError w (Not_a_price_field ref))
             else Inr \<lparr>op_kind = K_price, op_ref = ref, op_params = [], op_value = None\<rparr>)
          else (case spec_for ref of
              None \<Rightarrow> Inl (DefinitionError w (Unknown_indicator ref))
            | Some sp \<Rightarrow>
                (case validate_params F sp (if jtrue F (jget d ''params'') then jget d ''params'' else J_dict []) of
                   Inl (Bad_value e) \<Rightarrow> Inl (DefinitionError w (Bad_params e))
                 | Inl (Escapes e) \<Rightarrow> Inl e
                 | Inr ps \<Rightarrow> Inr \<lparr>op_kind = K_indicator, op_ref = ref, op_params = ps, op_value = None\<rparr>))
      | _ \<Rightarrow> Inl (DefinitionError w Ref_required))) = Inr opd"
    using assms unfolding parse_operand_def bindE_Inr by (auto split: option.splits)
  show thesis
  proof (cases kind)
    case K_constant
    with d cst show ?thesis by simp
  next
    case K_price
    with d price show ?thesis by (cases "jget d ''ref''") (auto split: if_splits)
  next
    case K_indicator
    then obtain ref sp where r: "jget d ''ref'' = J_str ref" "spec_for ref = Some (sp :: 'a indicator_spec)"
      using d by (cases "jget d ''ref''") (auto split: if_splits option.splits)
    then show ?thesis using d K_indicator indicator
      by (auto split: if_splits sum.splits param_exc.splits)
  qed
qed

lemma parse_operand_wf: "parse_operand F p w = Inr opd \<Longrightarrow> wf_operand opd"
proof (erule parse_operand_cases)
  show "constant_operand F v w = Inr opd \<Longrightarrow> wf_operand opd" for v
    by (auto simp: constant_operand_def Let_def wf_operand_def split: json.splits option.splits)
  show "ref \<in> set (map fst PRICE_FIELDS) \<Longrightarrow>
      opd = \<lparr>op_kind = K_price, op_ref = ref, op_params = [], op_value = None\<rparr> \<Longrightarrow> wf_operand opd" for ref
    by (simp add: wf_operand_def PRICE_FIELDS_def)
  fix ref and sp :: "'a indicator_spec" and given ps
  assume sp: "spec_for ref = Some sp" and v: "validate_params F sp given = Inr ps"
    and o: "opd = \<lparr>op_kind = K_indicator, op_ref = ref, op_params = ps, op_value = None\<rparr>"
  obtain n where "ind_parameters sp = [period_param n]" "ref \<in> {''SMA'', ''EMA'', ''RSI'', ''ATR''}"
    using spec_for_Some [OF sp] by blast
  with validate_period [OF v] show "wf_operand opd" by (simp add: wf_operand_def o del: insert_iff)
qed

lemma operand_unit_wf: "wf_operand opd \<Longrightarrow> operand_unit opd = Inr (unit_in opd)"
  by (auto simp: wf_operand_def operand_unit_def unit_in_def PRICE_FIELDS_def split: operand_kind.splits)

lemma check_comparable_iff:
  assumes "wf_operand l" "wf_operand r"
  shows "check_comparable l r w = Inr () \<longleftrightarrow> comparable l r"
  using operand_unit_wf [OF assms(1)] operand_unit_wf [OF assms(2)]
  by (auto simp: check_comparable_def comparable_def)

text \<open>Written out and parsed again.\<close>

lemma parse_operand_dict:
  assumes "wf_operand opd"
  shows "parse_operand F (operand_dict opd) w = Inr opd"
proof (cases "op_kind opd")
  case K_constant
  then obtain x where "opd = \<lparr>op_kind = K_constant, op_ref = [], op_params = [], op_value = Some x\<rparr>"
    using assms by (cases opd) (auto simp: wf_operand_def)
  then show ?thesis
    by (simp add: parse_operand_def operand_dict_def require_def no_unknown_def constant_operand_def
        enum_of_def all_kinds_def)
next
  case K_price
  then have "opd = \<lparr>op_kind = K_price, op_ref = op_ref opd, op_params = [], op_value = None\<rparr>"
    "op_ref opd \<in> set (map fst PRICE_FIELDS)" "op_ref opd \<noteq> []"
    using assms by (cases opd, auto simp: wf_operand_def PRICE_FIELDS_def)+
  then obtain ref where "opd = \<lparr>op_kind = K_price, op_ref = ref, op_params = [], op_value = None\<rparr>"
    "ref \<in> set (map fst PRICE_FIELDS)" "ref \<noteq> []" by blast
  then show ?thesis
    by (simp add: parse_operand_def operand_dict_def require_def no_unknown_def enum_of_def all_kinds_def)
next
  case K_indicator
  then obtain ref n where o: "opd = \<lparr>op_kind = K_indicator, op_ref = ref, op_params = [(''period'', N_int n)], op_value = None\<rparr>"
    "2 \<le> n" "n \<le> 500" "ref \<in> {''SMA'', ''EMA'', ''RSI'', ''ATR''}"
    using assms by (cases opd) (auto simp: wf_operand_def)
  have "validate_params F sp (J_dict [(''period'', J_int n)]) = Inr [(''period'', N_int n)]"
    if "ind_parameters sp = [period_param k]" for sp :: "'a indicator_spec" and k
    using that o(2,3) by (simp add: validate_params_def param_keys_def period_param_def validate_param_def in_range_def
        num_le_def)
  then show ?thesis using o(4)
    by (auto simp: o(1) parse_operand_def operand_dict_def require_def no_unknown_def enum_of_def all_kinds_def
        json_number_def jtrue_def)
qed

section \<open>Parsing gives well-formed trees\<close>

lemma parse_condition_wf:
  assumes "parse_condition F d w = Inr n" "k \<le> MAX_DEPTH"
  shows "wf_node k n"
proof -
  obtain l c r where n: "n = Condition l c r" "wf_operand l" "wf_operand r" "check_comparable l r w = Inr ()"
    using assms(1) by (auto simp: parse_condition_def bindE_Inr parse_operand_wf split: option.splits)
  then show ?thesis using assms(2) check_comparable_iff by auto
qed

lemma check_children_Inr:
  "check_children lg children w = Inr cs \<longleftrightarrow>
     children = J_list cs \<and> (if lg = L_not then length cs = 1 else 2 \<le> length cs)"
  by (auto simp: check_children_def split: json.splits)

lemma parse_node_cases:
  assumes "parse_node F p w k = Inr n"
  shows "k \<le> MAX_DEPTH" and "(\<exists>d. parse_condition F d w = Inr n) \<or> (\<exists>lg cs ns. n = Group lg ns
     \<and> (if lg = L_not then length cs = 1 else 2 \<le> length cs)
     \<and> mapE (\<lambda>i c. parse_node F c (w @ [Ix ''children'' i]) (k + 1)) 0 cs = Inr ns)"
  using assms by (auto simp: parse_node.simps [of F p] bindE_Inr check_children_Inr not_less
      split: if_splits option.splits)

lemma parse_node_wf: "parse_node F p w k = Inr n \<Longrightarrow> wf_node k n"
proof (induction n arbitrary: p w k)
  case (Condition l c r)
  then show ?case using parse_node_cases [OF Condition.prems] parse_condition_wf by blast
next
  case (Group lg ns)
  note c = parse_node_cases [OF Group.prems]
  have "\<not> (\<exists>d. parse_condition F d w = Inr (Group lg ns))"
    by (auto simp: parse_condition_def bindE_Inr split: option.splits)
  then obtain cs where cs: "if lg = L_not then length cs = 1 else 2 \<le> length cs"
    "mapE (\<lambda>i c. parse_node F c (w @ [Ix ''children'' i]) (k + 1)) 0 cs = Inr ns" using c(2) by blast
  then have len: "length ns = length cs" and each: "\<forall>i < length ns. parse_node F (cs ! i) (w @ [Ix ''children'' i]) (k + 1) = Inr (ns ! i)"
    by (auto simp: mapE_Inr)
  have "wf_node (k + 1) m" if "m \<in> set ns" for m
    using that each Group.IH by (metis in_set_conv_nth)
  with cs(1) len c(1) show ?case by simp
qed

lemma parse_rule_wf:
  "parse_rule F p w allowed = Inr r \<Longrightarrow> wf_node 0 (rl_when r) \<and> rl_then r \<in> set allowed"
  by (auto simp: parse_rule_def bindE_Inr parse_node_wf split: option.splits if_splits)

lemma parse_rules_wf:
  assumes "mapE (\<lambda>i r. parse_rule F r [Ix nm i] allowed) 0 xs = Inr rs" "length xs \<le> MAX_RULES"
  shows "wf_rules allowed rs"
proof -
  have "\<forall>i < length rs. parse_rule F (xs ! i) [Ix nm i] allowed = Inr (rs ! i)" "length rs = length xs"
    using assms(1) by (auto simp: mapE_Inr)
  then show ?thesis using assms(2) parse_rule_wf unfolding wf_rules_def by (metis in_set_conv_nth)
qed

lemma string_field_Inr:
  "string_field d key w m = Inr s \<Longrightarrow> s \<noteq> [] \<and> trimmed s \<and> length s \<le> m"
  using length_strip trimmed_strip
  by (auto simp: string_field_def not_less split: json.splits if_splits intro: le_trans)

lemma parse_definition_wf:
  assumes "parse_definition F p = Inr d"
  shows "wf_definition d"
proof -
  let ?w = "[Fld ''definition'']"
  obtain dd nm sy ds tf ens exs entries exits where
    s: "string_field dd ''name'' ?w 120 = Inr nm" "string_field dd ''symbol'' ?w 32 = Inr sy"
      "description_field F dd ?w = Inr ds" and
    l: "entry_list dd ?w = Inr entries" "exit_list F dd ?w = Inr exits"
      "mapE (\<lambda>i r. parse_rule F r [Ix ''entry_rules'' i] ENTRY_ACTIONS) 0 entries = Inr ens"
      "mapE (\<lambda>i r. parse_rule F r [Ix ''exit_rules'' i] EXIT_ACTIONS) 0 exits = Inr exs" and
    t: "sum_list (map (count_conditions \<circ> rl_when) (ens @ exs)) \<le> MAX_CONDITIONS" and
    d: "d = \<lparr>sd_name = nm, sd_symbol = str_upper sy, sd_timeframe = tf, sd_entry_rules = ens,
      sd_exit_rules = exs, sd_description = ds\<rparr>"
    using assms unfolding parse_definition_def Let_def bindE_Inr by (auto simp: not_less split: if_splits)
  have "length entries \<le> MAX_RULES" "entries \<noteq> []" "length exits \<le> MAX_RULES"
    using l(1,2) by (auto simp: entry_list_def exit_list_def split: json.splits if_splits)
  moreover have "length ds \<le> 1000"
    using s(3) by (auto simp: description_field_def split: json.splits if_splits)
  moreover have "length ens = length entries" using l(3) by (auto simp: mapE_Inr)
  ultimately show ?thesis
    using string_field_Inr [OF s(1)] string_field_Inr [OF s(2)] parse_rules_wf [OF l(3)] parse_rules_wf [OF l(4)] t
    by (auto simp: wf_definition_def d all_rules_def trimmed_upper)
qed

section \<open>The stored form is read back\<close>

lemma parse_node_dict: "wf_node k n \<Longrightarrow> parse_node F (node_dict n) w k = Inr n"
proof (induction n arbitrary: w k)
  case (Condition l c r)
  then have "check_comparable l r w = Inr ()" using check_comparable_iff [of l r] by simp
  then show ?case using Condition
    by (subst parse_node.simps) (simp add: require_def parse_condition_def no_unknown_def parse_operand_dict)
next
  case (Group lg ns)
  have "mapE (\<lambda>i c. parse_node F c (w @ [Ix ''children'' i]) (k + 1)) 0 (map node_dict ns) = Inr ns"
    using Group by (auto simp: mapE_Inr)
  moreover have "check_children lg (J_list (map node_dict ns)) w = Inr (map node_dict ns)"
    using Group.prems by (simp add: check_children_Inr)
  ultimately show ?case using Group.prems
    by (subst parse_node.simps) (simp add: require_def no_unknown_def)
qed

lemma parse_rule_dict:
  "wf_node 0 (rl_when r) \<Longrightarrow> rl_then r \<in> set allowed \<Longrightarrow> parse_rule F (rule_dict r) w allowed = Inr r"
  by (simp add: parse_rule_def rule_dict_def require_def no_unknown_def parse_node_dict)

lemma parse_rules_dict:
  "wf_rules allowed rs \<Longrightarrow> mapE (\<lambda>i r. parse_rule F r [Ix nm i] allowed) 0 (map rule_dict rs) = Inr rs"
  by (auto simp: mapE_Inr wf_rules_def parse_rule_dict)

lemma parse_timeframe_value: "parse_timeframe (timeframe_value t) = Inr t"
  by (cases t; hypsubst; code_simp)

lemma timeframe_field:
  "jget d ''timeframe'' = J_str (timeframe_value t) \<Longrightarrow>
   bindE (string_field d ''timeframe'' w 8) parse_timeframe = Inr t"
proof -
  assume a: "jget d ''timeframe'' = J_str (timeframe_value t)"
  have "str_strip (timeframe_value t) = timeframe_value t" "timeframe_value t \<noteq> []" "length (timeframe_value t) \<le> 8"
    by (cases t, simp_all add: strip_trimmed trimmed_def is_space_def, cases t, simp_all, cases t, simp_all)
  then show ?thesis by (simp add: string_field_def a parse_timeframe_value)
qed

lemma parse_payload:
  assumes wf: "wf_definition d"
  shows "parse_definition F (to_payload d) =
    (if length (sd_symbol d) \<le> 32 then Inr d
     else Inl (DefinitionError [Fld ''definition''] (String_too_long ''symbol'' 32)))"
proof -
  let ?w = "[Fld ''definition'']"
  obtain dd where dd: "to_payload d = J_dict dd" "no_unknown dd
      [''name'', ''description'', ''symbol'', ''timeframe'', ''entry_rules'', ''exit_rules''] ?w = Inr ()"
    and g: "jget dd ''name'' = J_str (sd_name d)" "jget dd ''symbol'' = J_str (sd_symbol d)"
      "jget dd ''description'' = J_str (sd_description d)" "jget dd ''timeframe'' = J_str (timeframe_value (sd_timeframe d))"
      "jget dd ''entry_rules'' = J_list (map rule_dict (sd_entry_rules d))"
      "jget dd ''exit_rules'' = J_list (map rule_dict (sd_exit_rules d))"
    by (auto simp: to_payload_def no_unknown_def)
  have "string_field dd ''name'' ?w 120 = Inr (sd_name d)"
    using wf by (auto simp: wf_definition_def string_field_def g strip_trimmed)
  moreover have "string_field dd ''symbol'' ?w 32 = (if length (sd_symbol d) \<le> 32 then Inr (sd_symbol d)
      else Inl (DefinitionError ?w (String_too_long ''symbol'' 32)))"
    using wf by (auto simp: wf_definition_def string_field_def g strip_trimmed)
  moreover have "description_field F dd ?w = Inr (sd_description d)"
    using wf by (auto simp: wf_definition_def description_field_def g jtrue_def)
  moreover note timeframe_field [OF g(4)]
  moreover have "entry_list dd ?w = Inr (map rule_dict (sd_entry_rules d))"
    using wf by (auto simp: wf_definition_def wf_rules_def entry_list_def g)
  moreover have "exit_list F dd ?w = Inr (map rule_dict (sd_exit_rules d))"
    using wf by (auto simp: wf_definition_def wf_rules_def exit_list_def g jtrue_def)
  moreover have "wf_rules ENTRY_ACTIONS (sd_entry_rules d)" "wf_rules EXIT_ACTIONS (sd_exit_rules d)"
    "\<not> MAX_CONDITIONS < sum_list (map (count_conditions \<circ> rl_when) (sd_entry_rules d @ sd_exit_rules d))"
    "str_upper (sd_symbol d) = sd_symbol d"
    using wf by (simp_all add: wf_definition_def all_rules_def)
  ultimately show ?thesis
    by (simp add: parse_definition_def Let_def dd require_def parse_rules_dict)
qed

text \<open>C17: a stored definition can be read back. The payload of a parsed definition parses to the same
  definition exactly when its symbol is still within the parser's 32 characters after it was
  written in capitals; otherwise the stored definition is refused as too long.\<close>

theorem definition_round_trip:
  assumes "parse_definition F p = Inr d"
  shows "parse_definition F (to_payload d) =
    (if length (sd_symbol d) \<le> 32 then Inr d
     else Inl (DefinitionError [Fld ''definition''] (String_too_long ''symbol'' 32)))"
  by (rule parse_payload [OF parse_definition_wf [OF assms]])

text \<open>Exact arithmetic, for examples.\<close>

definition rat_floats :: "rat floats" where
  "rat_floats = \<lparr>fadd = (+), fsub = (-), fmul = (*), fdiv = (/), fneg = uminus, fabs = abs, fmaximum = max,
     fmean = (\<lambda>xs. sum_list xs / of_nat (length xs)), flt = (<), fle = (\<le>), feq = (=), is_nan = (\<lambda>_. False),
     of_dec = id, of_num = (\<lambda>n. Some (of_int n)), to_int = floor,
     mixed_le = (\<lambda>a b. (case a of N_int n \<Rightarrow> of_int n | N_float x \<Rightarrow> x) \<le> (case b of N_int n \<Rightarrow> of_int n | N_float x \<Rightarrow> x))\<rparr>"

definition sma_json :: "int \<Rightarrow> rat json" where
  "sma_json n = J_dict [(''kind'', J_str ''indicator''), (''ref'', J_str ''SMA''), (''params'', J_dict [(''period'', J_int n)])]"

definition demo_payload :: "string \<Rightarrow> rat json" where
  "demo_payload sy = J_dict [(''name'', J_str '' Trend''), (''symbol'', J_str sy), (''timeframe'', J_str ''h1''),
     (''entry_rules'', J_list [J_dict [(''when'', J_dict [(''type'', J_str ''condition''), (''left'', sma_json 3),
        (''comparison'', J_str ''CROSSES_ABOVE''), (''right'', sma_json 5)]), (''then'', J_str ''ENTRY_LONG'')]])]"

definition sma_operand :: "int \<Rightarrow> rat operand" where
  "sma_operand n = \<lparr>op_kind = K_indicator, op_ref = ''SMA'', op_params = [(''period'', N_int n)], op_value = None\<rparr>"

definition demo_definition :: "string \<Rightarrow> rat strategy_definition" where
  "demo_definition sy = \<lparr>sd_name = ''Trend'', sd_symbol = sy, sd_timeframe = H1,
     sd_entry_rules = [\<lparr>rl_when = Condition (sma_operand 3) Crosses_above (sma_operand 5), rl_then = Entry_long\<rparr>],
     sd_exit_rules = [], sd_description = []\<rparr>"

definition sharp_s :: string where
  "sharp_s = replicate 32 (char_of (223 :: nat))"

lemma demo_parses:
  "parse_definition rat_floats (demo_payload ''eurusd '') = Inr (demo_definition ''EURUSD'')"
  "parse_definition rat_floats (demo_payload sharp_s) = Inr (demo_definition (replicate 64 (CHR ''S'')))"
  by code_simp+

theorem definition_round_trip_witness:
  "parse_definition rat_floats (to_payload (demo_definition ''EURUSD'')) = Inr (demo_definition ''EURUSD'')
   \<and> parse_definition rat_floats (demo_payload sharp_s) = Inr (demo_definition (replicate 64 (CHR ''S'')))
   \<and> parse_definition rat_floats (to_payload (demo_definition (replicate 64 (CHR ''S''))))
      = Inl (DefinitionError [Fld ''definition''] (String_too_long ''symbol'' 32))"
  using definition_round_trip [OF demo_parses(1)] definition_round_trip [OF demo_parses(2)] demo_parses
  by (simp add: demo_definition_def)

end
