(* ===== verification/Built_Causal.thy ===== *)
theory Built_Causal
  imports Built_Strategy Strategy_Roundtrip
begin

text \<open>
  No look-ahead. An indicator is a function from a series to a series of the same length; it is
  causal when cutting the input short cuts the output short, so that the value on a bar does not
  depend on later bars. The interface is stated once as a locale and each indicator of the
  catalogue is shown to meet it.
\<close>

section \<open>Causal series\<close>

locale causal_series =
  fixes out :: "'b list \<Rightarrow> 'f option list"
    and warm :: nat \<comment> \<open>from this index on something has been written\<close>
  assumes causal_length: "length (out xs) = length xs"
    and causal_take: "out (take k xs) = take k (out xs)"
    and causal_warm: "warm \<le> i \<Longrightarrow> i < length xs \<Longrightarrow> \<exists>v. out xs ! i = Some v"
begin

lemma causal_nth: "i < k \<Longrightarrow> k \<le> length xs \<Longrightarrow> out (take k xs) ! i = out xs ! i"
  by (simp add: causal_take)

text \<open>Two histories that agree up to a bar give that bar the same value.\<close>

lemma causal_agree:
  assumes "take (Suc i) xs = take (Suc i) ys" "i < length xs" "i < length ys"
  shows "out xs ! i = out ys ! i"
  using causal_nth [of i "Suc i" xs] causal_nth [of i "Suc i" ys] assms by simp

lemma causal_map: "map f (out (take k xs)) = take k (map f (out xs))"
  by (simp add: causal_take take_map)

end

text \<open>From what each entry of the output is a function of.\<close>

lemma causal_take_nth:
  assumes "\<And>xs. length (out xs) = length xs"
    and "\<And>xs i. i < length xs \<Longrightarrow> out xs ! i = g i (take (Suc i) xs)"
  shows "out (take k xs) = take k (out xs)"
proof (rule nth_equalityI)
  show "length (out (take k xs)) = length (take k (out xs))" by (simp add: assms(1))
  fix i assume i: "i < length (out (take k xs))"
  then have "i < length xs" "i < k" "i < length (take k xs)" by (simp_all add: assms(1))
  then show "out (take k xs) ! i = take k (out xs) ! i"
    by (simp add: assms(2) min_def)
qed

lemma running_sums_length [simp]: "length (running_sums F acc xs) = Suc (length xs)"
  by (induction xs arbitrary: acc) auto

lemma running_sums_nth: "i \<le> length xs \<Longrightarrow> running_sums F acc xs ! i = foldl (fadd F) acc (take i xs)"
  by (induction xs arbitrary: acc i) (auto simp: take_Cons' nth_Cons' gr0_conv_Suc)

text \<open>The sum of the first \<open>i\<close> elements, as the code accumulates it.\<close>

definition sum_to :: "'f floats \<Rightarrow> 'f list \<Rightarrow> nat \<Rightarrow> 'f" where
  "sum_to F xs i = foldl (fadd F) (fint F 0) (take i xs)"

lemma sum_to_take: "i \<le> k \<Longrightarrow> sum_to F (take k xs) i = sum_to F xs i"
  by (simp add: sum_to_def min_def)

subsection \<open>SMA\<close>

lemma sma_length [simp]: "0 < n \<Longrightarrow> length (sma F a n) = length a"
  by (auto simp: sma_def Let_def)

lemma sma_nth:
  assumes "0 < n" "i < length a"
  shows "sma F a n ! i = (if Suc i < n then None
    else Some (fdiv F (fsub F (sum_to F (take (Suc i) a) (Suc i)) (sum_to F (take (Suc i) a) (Suc i - n))) (fint F n)))"
proof (cases "length a < n")
  case True
  then show ?thesis using assms by (simp add: sma_def)
next
  case False
  show ?thesis
  proof (cases "Suc i < n")
    case True
    then have "i < n - 1" by simp
    with True show ?thesis using False by (simp add: sma_def Let_def nth_append)
  next
    case ge: False
    then have "i - (n - 1) < length (running_sums F (fint F 0) a) - n" "i - (n - 1) + n = Suc i" "i - (n - 1) = Suc i - n"
      using assms by auto
    then show ?thesis using False ge assms
      by (auto simp: sma_def Let_def nth_append running_sums_nth sum_to_take simp flip: sum_to_def)
  qed
qed

lemma sma_causal: "0 < n \<Longrightarrow> causal_series (\<lambda>a. sma F a n) n"
  by unfold_locales (auto intro!: causal_take_nth simp: sma_nth)

subsection \<open>EMA\<close>

lemma ema_run_length [simp]: "length (ema_run F k acc xs) = length xs"
  by (induction xs arbitrary: acc) (auto simp: Let_def)

lemma ema_run_take: "ema_run F k acc (take m xs) = take m (ema_run F k acc xs)"
  by (induction xs arbitrary: acc m) (auto simp: Let_def take_Cons')

lemma ema_run_nth: "i < length xs \<Longrightarrow> \<exists>v. ema_run F k acc xs ! i = Some v"
  by (induction xs arbitrary: acc i) (auto simp: Let_def nth_Cons')

lemma ema_causal:
  assumes "0 < n"
  shows "causal_series (\<lambda>a. ema F a n) n"
proof
  show "length (ema F a n) = length a" for a using assms by (auto simp: ema_def Let_def)
  show "ema F (take m a) n = take m (ema F a n)" for m and a :: "'a list"
  proof (cases "length (take m a) < n")
    case True
    then have "m < n \<or> length a < n" by auto
    with True assms show ?thesis
      by (auto simp: ema_def Let_def take_replicate min_def take_append take_Cons')
  next
    case False
    then have "n \<le> m" "n \<le> length a" by auto
    then show ?thesis using assms False
      by (auto simp: ema_def Let_def min_def take_append take_Cons' drop_take ema_run_take)
  qed
  show "\<exists>v. ema F a n ! i = Some v" if "n \<le> i" "i < length a" for i and a :: "'a list"
    using that assms ema_run_nth [of "i - n" "drop n a"]
    by (auto simp: ema_def Let_def nth_append nth_Cons' )
qed

subsection \<open>RSI\<close>

lemma diff_length [simp]: "length (diff F xs) = length xs - 1"
  by (induction F xs rule: diff.induct) auto

lemma diff_take: "diff F (take k xs) = take (k - 1) (diff F xs)"
proof (induction F xs arbitrary: k rule: diff.induct)
  case (1 F x y xs)
  show ?case
  proof (cases k)
    case (Suc m)
    then show ?thesis using "1.IH" [of m] by (cases m) auto
  qed simp
qed (auto simp: take_Cons')

lemma rsi_run_length [simp]: "length (rsi_run F n ag al ds) = length ds"
  by (induction ds arbitrary: ag al) (auto simp: Let_def)

lemma rsi_run_take: "rsi_run F n ag al (take m ds) = take m (rsi_run F n ag al ds)"
  by (induction ds arbitrary: ag al m) (auto simp: Let_def take_Cons')

lemma rsi_run_nth: "i < length ds \<Longrightarrow> \<exists>v. rsi_run F n ag al ds ! i = Some v"
  by (induction ds arbitrary: ag al i) (auto simp: Let_def nth_Cons')

lemma rsi_causal:
  assumes "0 < n"
  shows "causal_series (\<lambda>a. wilder_rsi F a n) (n + 1)"
proof
  show len: "length (wilder_rsi F a n) = length a" for a using assms by (auto simp: wilder_rsi_def Let_def)
  show "wilder_rsi F (take m a) n = take m (wilder_rsi F a n)" for m and a :: "'a list"
  proof (cases "length (diff F (take m a)) < n")
    case True
    then have "m \<le> n \<or> length a \<le> n" by auto
    with True assms show ?thesis
      by (auto simp: wilder_rsi_def Let_def min_def take_append simp del: replicate_Suc)
  next
    case False
    then have "n < m" "n < length a" using assms by auto
    then show ?thesis using assms False
      by (auto simp: wilder_rsi_def Let_def min_def take_append diff_take take_map drop_take rsi_run_take
          simp del: replicate_Suc)
  qed
  show "\<exists>v. wilder_rsi F a n ! i = Some v" if "n + 1 \<le> i" "i < length a" for i and a :: "'a list"
    using that assms rsi_run_nth [of "i - (n + 1)" "drop n (diff F a)"]
    by (auto simp: wilder_rsi_def Let_def nth_append simp del: replicate_Suc)
qed

subsection \<open>ATR\<close>

definition ranges :: "'f floats \<Rightarrow> ('b \<Rightarrow> 'f) \<Rightarrow> ('b \<Rightarrow> 'f) \<Rightarrow> ('b \<Rightarrow> 'f) \<Rightarrow> 'b list \<Rightarrow> 'f list" where
  "ranges F h l c xs = map (\<lambda>(x, y, p). true_range F x y p)
     (zip (tl (map h xs)) (zip (tl (map l xs)) (butlast (map c xs))))"

lemma ranges_length [simp]: "length (ranges F h l c xs) = length xs - 1"
  by (simp add: ranges_def)

lemma ranges_take: "ranges F h l c (take k xs) = take (k - 1) (ranges F h l c xs)"
proof (rule nth_equalityI)
  fix i assume "i < length (ranges F h l c (take k xs))"
  then have "Suc i < length xs" "Suc i < k" by auto
  then show "ranges F h l c (take k xs) ! i = take (k - 1) (ranges F h l c xs) ! i"
    by (simp add: ranges_def nth_tl nth_butlast)
qed auto

lemma atr_nth:
  assumes "0 < n" "i < length xs"
  shows "atr_series F (map h xs) (map l xs) (map c xs) n ! i = (if i < n then None
    else Some (fdiv F (fsub F (sum_to F (ranges F h l c (take (Suc i) xs)) i)
      (sum_to F (ranges F h l c (take (Suc i) xs)) (i - n))) (fint F n)))"
  using assms
  by (auto simp: atr_series_def Let_def running_sums_nth ranges_take sum_to_take
      simp flip: sum_to_def ranges_def)

lemma atr_causal:
  assumes "0 < n"
  shows "causal_series (\<lambda>xs. atr_series F (map h xs) (map l xs) (map c xs) n) n"
proof
  show len: "length (atr_series F (map h xs) (map l xs) (map c xs) n) = length xs" for xs
    by (simp add: atr_series_def Let_def)
  show "atr_series F (map h (take k xs)) (map l (take k xs)) (map c (take k xs)) n
      = take k (atr_series F (map h xs) (map l xs) (map c xs) n)" for k xs
    by (rule causal_take_nth [where out = "\<lambda>xs. atr_series F (map h xs) (map l xs) (map c xs) n"])
       (simp_all add: len atr_nth [OF assms])
qed (use assms in \<open>simp add: atr_nth\<close>)

section \<open>The catalogue meets the interface\<close>

interpretation sma_series: causal_series "\<lambda>a. sma F a (Suc n)" "Suc n" for F n
  by (rule sma_causal) simp

interpretation ema_series: causal_series "\<lambda>a. ema F a (Suc n)" "Suc n" for F n
  by (rule ema_causal) simp

interpretation rsi_series: causal_series "\<lambda>a. wilder_rsi F a (Suc n)" "Suc n + 1" for F n
  by (rule rsi_causal) simp

interpretation atr_series: causal_series "\<lambda>xs. atr_series F (map h xs) (map l xs) (map c xs) (Suc n)" "Suc n"
  for F h l c n
  by (rule atr_causal) simp

end
