(* ===== verification/Built_Props.thy ===== *)
theory Built_Props
  imports Built_Causal "HOL-Library.Multiset"
begin

text \<open>
  What holds of built strategies: a parsed definition never raises when it is interpreted and
  says only what its rules may say, the series it reads do not look ahead and are warmed up
  where it reads them, and the key made from a name is in normal form.
\<close>

section \<open>Prefixes of a history\<close>

definition cut :: "nat \<Rightarrow> candles \<Rightarrow> candles" where
  "cut k cs = cs\<lparr>cd_bars := take k (cd_bars cs)\<rparr>"

lemma mapE_map_sum:
  assumes "\<And>i x. x \<in> set xs \<Longrightarrow> f i x = map_sum id h (g i x)"
  shows "mapE f i xs = map_sum id (map h) (mapE g i xs)"
  using assms by (induction xs arbitrary: i) (auto simp: bindE_def split: sum.splits)

definition cut_series :: "nat \<Rightarrow> 'f series \<Rightarrow> 'f series" where
  "cut_series k ss = map (\<lambda>(l, vs). (l, take k vs)) ss"

lemma series_for_take:
  assumes "0 < n"
  shows "series_for F key n (map h (take k xs)) (map l (take k xs)) (map c (take k xs))
    = map_sum id (take k) (series_for F key n (map h xs) (map l xs) (map c xs))"
proof -
  obtain m where n: "n = Suc m" using assms by (cases n) auto
  have "sma F (map c (take k xs)) n = take k (sma F (map c xs) n)"
    "ema F (map c (take k xs)) n = take k (ema F (map c xs) n)"
    "wilder_rsi F (map c (take k xs)) n = take k (wilder_rsi F (map c xs) n)"
    unfolding n by (simp_all only: take_map [symmetric] sma_series.causal_take ema_series.causal_take
        rsi_series.causal_take)
  moreover have "atr_series F (map h (take k xs)) (map l (take k xs)) (map c (take k xs)) n
      = take k (atr_series F (map h xs) (map l xs) (map c xs) n)"
    unfolding n by (rule atr_series.causal_take)
  ultimately show ?thesis by (simp add: series_for_def)
qed

lemma compute_take:
  assumes "\<forall>p. map_of params ''period'' = Some p \<longrightarrow> 0 < int_of_number F p"
  shows "compute F key params (map h (take k xs)) (map l (take k xs)) (map c (take k xs))
    = map_sum id (take k) (compute F key params (map h xs) (map l xs) (map c xs))"
proof (cases "map_of params ''period''")
  case (Some p)
  then have "0 < nat (int_of_number F p)" using assms by simp
  note series_for_take [OF this, of F key "of_dec F \<circ> h" k xs "of_dec F \<circ> l" "of_dec F \<circ> c"]
  then show ?thesis using Some
    by (auto simp: compute_def bindE_def take_map split: sum.splits)
qed (simp add: compute_def)

text \<open>The indicator operands of a definition are among the operands of its rules.\<close>

lemma setdefault_subset: "set (foldl setdefault found os) \<subseteq> set found \<union> set os"
proof (induction os arbitrary: found)
  case (Cons a os)
  have "set (setdefault found a) \<subseteq> insert a (set found)" by (auto simp: setdefault_def)
  then show ?case using Cons.IH [of "setdefault found a"] by auto
qed simp

lemma definition_indicators_mem:
  "opd \<in> set (definition_indicators d) \<Longrightarrow>
     op_kind opd = K_indicator \<and> (\<exists>r \<in> set (all_rules d). opd \<in> set (node_operands (rl_when r)))"
  using setdefault_subset [of "[]"] by (fastforce simp: definition_indicators_def)

lemma wf_node_operands: "wf_node k n \<Longrightarrow> opd \<in> set (node_operands n) \<Longrightarrow> wf_operand opd"
  by (induction n arbitrary: k) auto

lemma wf_all_rules: "wf_definition d \<Longrightarrow> r \<in> set (all_rules d) \<Longrightarrow> wf_node 0 (rl_when r)"
  by (auto simp: wf_definition_def wf_rules_def all_rules_def)

lemma indicator_wf:
  assumes "wf_definition d" "opd \<in> set (definition_indicators d)"
  obtains n where "op_kind opd = K_indicator" "op_ref opd \<in> {''SMA'', ''EMA'', ''RSI'', ''ATR''}"
    "op_params opd = [(''period'', N_int n)]" "2 \<le> n" "n \<le> 500"
proof -
  have "wf_operand opd" "op_kind opd = K_indicator"
    using definition_indicators_mem [OF assms(2)] wf_node_operands wf_all_rules [OF assms(1)] by blast+
  then show ?thesis using that by (auto simp: wf_operand_def)
qed

lemma series_of_cut:
  assumes "wf_definition d"
  shows "series_of F d (cut k cs) = map_sum id (cut_series k) (series_of F d cs)"
proof -
  have "bindE (compute F (op_ref opd) (op_params opd) (map b_high (take k bs)) (map b_low (take k bs)) (map b_close (take k bs)))
      (\<lambda>vs. Inr (operand_label opd, vs))
    = map_sum id (\<lambda>(l, vs). (l, take k vs)) (bindE (compute F (op_ref opd) (op_params opd) (map b_high bs) (map b_low bs) (map b_close bs))
      (\<lambda>vs. Inr (operand_label opd, vs)))"
    if mem: "opd \<in> set (definition_indicators d)" for opd bs
  proof -
    obtain n where "op_params opd = [(''period'', N_int n)]" "2 \<le> n" using indicator_wf [OF assms mem] by metis
    then show ?thesis
      by (subst compute_take) (auto simp: int_of_number_def bindE_def split: sum.splits)
  qed
  then show ?thesis
    unfolding series_of_def cut_series_def by (intro mapE_map_sum) (simp add: cut_def)
qed

section \<open>A parsed definition never raises\<close>

lemma setdefault_labels: "operand_label opd \<in> set (map operand_label found) \<Longrightarrow>
    operand_label opd \<in> set (map operand_label (foldl setdefault found os))"
  by (induction os arbitrary: found) (auto simp: setdefault_def)

lemma foldl_setdefault_covers:
  "opd \<in> set os \<Longrightarrow> operand_label opd \<in> set (map operand_label (foldl setdefault found os))"
proof (induction os arbitrary: found)
  case (Cons a os)
  show ?case
  proof (cases "opd = a")
    case True
    have "operand_label a \<in> set (map operand_label (setdefault found a))" by (auto simp: setdefault_def)
    with True show ?thesis using setdefault_labels by fastforce
  next
    case False
    with Cons show ?thesis by auto
  qed
qed simp

lemma mapE_total:
  assumes "\<And>i x. x \<in> set xs \<Longrightarrow> \<exists>y. f i x = Inr y"
  shows "\<exists>ys. mapE f i xs = Inr ys"
  using assms
proof (induction xs arbitrary: i)
  case (Cons x xs)
  from Cons.prems obtain y where "f i x = Inr y" by (metis list.set_intros(1))
  moreover obtain ys where "mapE f (Suc i) xs = Inr ys" using Cons by (metis list.set_intros(2))
  ultimately show ?case by simp
qed simp

definition warmup_of :: "'f floats \<Rightarrow> 'f operand \<Rightarrow> py_exc + int" where
  "warmup_of F opd = (case spec_for (op_ref opd) of None \<Rightarrow> Inl ValueError
     | Some sp \<Rightarrow> Inr (spec_warmup F sp (op_params opd)))"

lemma warmup_of_wf:
  assumes "wf_definition d" "opd \<in> set (definition_indicators d)"
  shows "\<exists>y. warmup_of F opd = Inr y \<and> (\<forall>n. op_params opd = [(''period'', N_int n)] \<longrightarrow> 3 * n \<le> y)"
proof -
  obtain n where "op_ref opd \<in> {''SMA'', ''EMA'', ''RSI'', ''ATR''}" "op_params opd = [(''period'', N_int n)]" "2 \<le> n"
    using indicator_wf [OF assms] by metis
  then show ?thesis by (auto simp: warmup_of_def spec_warmup_def int_of_number_def)
qed

lemma definition_warmup_wf:
  assumes wf: "wf_definition d"
  shows "\<exists>need. definition_warmup F d = Inr need \<and> 2 \<le> need
    \<and> (\<forall>opd \<in> set (definition_indicators d). \<forall>n. op_params opd = [(''period'', N_int n)] \<longrightarrow> 3 * n \<le> need)"
proof -
  let ?os = "definition_indicators d"
  have "\<exists>ys. mapE (\<lambda>_. warmup_of F) 0 ?os = Inr ys"
    by (rule mapE_total) (use warmup_of_wf [OF wf] in blast)
  then obtain needed where nd: "mapE (\<lambda>_. warmup_of F) 0 ?os = Inr needed" ..
  have all: "3 * n \<le> Max (set (needed @ [2]))"
    if mem: "opd \<in> set ?os" and ps: "op_params opd = [(''period'', N_int n)]" for opd n
  proof -
    obtain k where k: "k < length ?os" "?os ! k = opd" using mem by (metis in_set_conv_nth)
    then have "warmup_of F opd = Inr (needed ! k)" and nk: "needed ! k \<in> set needed"
      using nd by (auto simp: mapE_Inr)
    moreover obtain y where "warmup_of F opd = Inr y" "3 * n \<le> y" using warmup_of_wf [OF wf mem, of F] ps by blast
    ultimately have "3 * n \<le> needed ! k" by simp
    also have "needed ! k \<le> Max (set (needed @ [2]))" using nk by (intro Max_ge) auto
    finally show ?thesis .
  qed
  have "definition_warmup F d = Inr (Max (set (needed @ [2])))"
    using nd by (simp add: definition_warmup_def warmup_of_def [abs_def])
  moreover have "2 \<le> Max (set (needed @ [2]))" by (intro Max_ge) auto
  ultimately show ?thesis using all by blast
qed

text \<open>What the interpreter relies on: every indicator operand has a series of the right length.\<close>

definition covers :: "'f series \<Rightarrow> candles \<Rightarrow> 'f node \<Rightarrow> bool" where
  "covers ss cs n \<longleftrightarrow> (\<forall>opd \<in> set (node_operands n). op_kind opd = K_indicator \<longrightarrow>
     (\<exists>vs. map_of ss (operand_label opd) = Some vs)) \<and> (\<forall>vs \<in> snd ` set ss. length vs = length (cd_bars cs))"

lemma compute_total:
  assumes "key \<in> {''SMA'', ''EMA'', ''RSI'', ''ATR''}" "params = [(''period'', N_int n)]" "2 \<le> n"
  shows "\<exists>vs. compute F key params (map h bs) (map l bs) (map c bs) = Inr vs \<and> length vs = length bs"
proof -
  obtain m where "nat n = Suc m" using assms(3) by (cases "nat n") auto
  then show ?thesis using assms
    by (auto simp: compute_def int_of_number_def series_for_def sma_series.causal_length ema_series.causal_length
        rsi_series.causal_length atr_series.causal_length)
qed

lemma series_of_wf:
  assumes wf: "wf_definition d"
  shows "\<exists>ss. series_of F d cs = Inr ss \<and> (\<forall>r \<in> set (all_rules d). covers ss cs (rl_when r))"
proof -
  let ?f = "\<lambda>(_::nat) opd. bindE (compute F (op_ref opd) (op_params opd)
       (map b_high (cd_bars cs)) (map b_low (cd_bars cs)) (map b_close (cd_bars cs))) (\<lambda>vs. Inr (operand_label opd, vs))"
  have each: "\<exists>vs. ?f i opd = Inr (operand_label opd, vs) \<and> length vs = length (cd_bars cs)"
    if mem: "opd \<in> set (definition_indicators d)" for i opd
  proof -
    obtain n where "op_ref opd \<in> {''SMA'', ''EMA'', ''RSI'', ''ATR''}" "op_params opd = [(''period'', N_int n)]" "2 \<le> n"
      using indicator_wf [OF wf mem] by metis
    from compute_total [OF this, where F = F and h = b_high and bs = "cd_bars cs" and l = b_low and c = b_close] show ?thesis by auto
  qed
  then obtain ss where ss: "series_of F d cs = Inr ss"
    using mapE_total [of "definition_indicators d" ?f] unfolding series_of_def by blast
  then have len: "length ss = length (definition_indicators d)"
    and nth: "\<And>k. k < length ss \<Longrightarrow> ?f k (definition_indicators d ! k) = Inr (ss ! k)"
    by (auto simp: series_of_def mapE_Inr)
  have ent: "fst (ss ! k) = operand_label (definition_indicators d ! k) \<and> length (snd (ss ! k)) = length (cd_bars cs)"
    if "k < length ss" for k
    using nth [OF that] each [of "definition_indicators d ! k"] that len by auto
  then have "\<forall>e \<in> set ss. length (snd e) = length (cd_bars cs)" by (metis in_set_conv_nth)
  then have "\<forall>vs \<in> snd ` set ss. length vs = length (cd_bars cs)" by simp
  moreover have "\<exists>vs. map_of ss (operand_label opd) = Some vs"
    if "r \<in> set (all_rules d)" "opd \<in> set (node_operands (rl_when r))" "op_kind opd = K_indicator" for r opd
  proof -
    have "operand_label opd \<in> set (map operand_label (definition_indicators d))"
      unfolding definition_indicators_def by (rule foldl_setdefault_covers) (use that in auto)
    then obtain k where "k < length ss" "operand_label opd = fst (ss ! k)"
      using ent len by (auto simp: in_set_conv_nth)
    then have "operand_label opd \<in> fst ` set ss" by (metis imageI nth_mem)
    then show ?thesis by (metis map_of_eq_None_iff option.exhaust)
  qed
  ultimately show ?thesis using ss unfolding covers_def by blast
qed

lemma value_at_total:
  assumes "wf_operand opd" "\<forall>vs \<in> snd ` set ss. length vs = length (cd_bars cs)"
  shows "\<exists>v. value_at F cs ss opd k = Inr v"
proof (cases "op_kind opd")
  case K_indicator
  then show ?thesis using assms(2)
    by (auto simp: value_at_def Let_def split: option.splits dest!: map_of_SomeD)
next
  case K_price
  then have "\<exists>raw. price_of b (op_ref opd) = Inr raw" for b
    using assms(1) by (auto simp: wf_operand_def price_of_def)
  then show ?thesis using K_price by (auto simp: value_at_def Let_def bindE_Inr)
qed (simp add: value_at_def)

lemma condition_total:
  assumes "wf_operand l" "wf_operand r" "\<forall>vs \<in> snd ` set ss. length vs = length (cd_bars cs)"
  shows "\<exists>b. condition_holds F cs ss l c r = Inr b"
proof -
  obtain vl vr pl pr where "value_at F cs ss l 0 = Inr vl" "value_at F cs ss r 0 = Inr vr"
    "value_at F cs ss l 1 = Inr pl" "value_at F cs ss r 1 = Inr pr"
    using value_at_total assms by metis
  then show ?thesis
    by (cases vl; cases vr; cases pl; cases pr; cases c) (auto simp: condition_holds_def)
qed

lemma holds_total:
  assumes "\<forall>vs \<in> snd ` set ss. length vs = length (cd_bars cs)"
  shows "wf_node k n \<Longrightarrow> \<exists>b. holds F cs ss n = Inr b"
proof (induction n arbitrary: k)
  case (Condition l c r)
  then show ?case using condition_total [OF _ _ assms] by simp
next
  case (Group lg ns)
  have each: "\<exists>b. holds F cs ss n = Inr b" if "n \<in> set ns" for n
    using Group.IH [OF that] Group.prems that by auto
  show ?case
  proof (cases "lg = L_not")
    case True
    then obtain n where ns: "ns = [n]" using Group.prems by (cases ns) auto
    then obtain b where "holds F cs ss n = Inr b" using each [of n] by auto
    with True ns show ?thesis by simp
  next
    case False
    obtain bs where "mapE (\<lambda>_ n. holds F cs ss n) 0 ns = Inr bs" using mapE_total [of ns "\<lambda>_ n. holds F cs ss n"] each by metis
    with False show ?thesis by simp
  qed
qed

lemma first_match_total:
  assumes "\<forall>vs \<in> snd ` set ss. length vs = length (cd_bars cs)" "\<forall>r \<in> set rs. wf_node 0 (rl_when r)"
  shows "\<exists>m. first_match F cs ss rs = Inr m \<and> (\<forall>r. m = Some r \<longrightarrow> r \<in> set rs \<and> holds F cs ss (rl_when r) = Inr True)"
  using assms(2)
proof (induction rs)
  case (Cons r rs)
  obtain b where b: "holds F cs ss (rl_when r) = Inr b" using holds_total [OF assms(1)] Cons.prems by (metis list.set_intros(1))
  show ?case using b Cons by (cases b) auto
qed simp

lemma generate_total:
  assumes wf: "wf_definition (bs_definition b)"
  obtains sg where "generate_signal F b cs now = Inr sg" "sg_key sg = bs_key b" "sg_symbol sg = cd_symbol cs"
    "sg_timeframe sg = cd_timeframe cs" "sg_confidence sg = None"
    "is_actionable (sg_type sg) \<Longrightarrow> \<exists>r \<in> set (all_rules (bs_definition b)). sg_type sg = rl_then r"
    "sg_type sg \<noteq> No_signal \<Longrightarrow> 2 \<le> length (cd_bars cs) \<and> cd_symbol cs = sd_symbol (bs_definition b)
       \<and> sg_bar_time sg = b_time (last (cd_bars cs)) \<and> sg_reference_price sg = Some (b_close (last (cd_bars cs)))"
proof -
  obtain need where need: "definition_warmup F (bs_definition b) = Inr need" "2 \<le> need"
    using definition_warmup_wf [OF wf] by blast
  obtain ss where ss: "series_of F (bs_definition b) cs = Inr ss"
    "\<forall>r \<in> set (all_rules (bs_definition b)). covers ss cs (rl_when r)" using series_of_wf [OF wf] by blast
  have ne: "all_rules (bs_definition b) \<noteq> []" using wf by (auto simp: wf_definition_def all_rules_def)
  then have "\<forall>vs \<in> snd ` set ss. length vs = length (cd_bars cs)"
    using ss(2) unfolding covers_def by (metis hd_in_set)
  then obtain m where m: "first_match F cs ss (all_rules (bs_definition b)) = Inr m"
    "\<forall>r. m = Some r \<longrightarrow> r \<in> set (all_rules (bs_definition b))"
    using first_match_total [of ss cs "all_rules (bs_definition b)" F] wf_all_rules [OF wf] by blast
  show thesis
  proof (cases "int (length (cd_bars cs)) < need \<or> cd_symbol cs \<noteq> sd_symbol (bs_definition b)")
    case True
    then have "\<exists>why. generate_signal F b cs now = Inr (no_signal b cs now why)"
      using need(1) by (cases "int (length (cd_bars cs)) < need") (auto simp: generate_signal_def)
    then obtain why where "generate_signal F b cs now = Inr (no_signal b cs now why)" ..
    then show ?thesis by (rule that) (simp_all add: no_signal_def is_actionable_def)
  next
    case False
    then have "2 \<le> length (cd_bars cs)" using need(2) by linarith
    then show ?thesis
      using that False need(1) ss(1) m
      by (cases m) (auto simp: generate_signal_def signal_of_def is_actionable_def)
  qed
qed

text \<open>C18: a strategy the builder accepted runs. Interpreting a parsed definition never raises,
  whatever the candles and the floating-point arithmetic. The signal answers for the strategy,
  symbol and timeframe it was asked about and asserts no confidence; it is actionable only
  with the action of one of the definition's rules, so an entry rule never closes and an exit
  rule never opens; and it is about the last closed bar.\<close>

theorem accepted_strategy_runs:
  assumes "from_payload F p key v = Inr b"
  shows "\<exists>sg. generate_signal F b cs now = Inr sg \<and> sg_key sg = bs_key b \<and> sg_symbol sg = cd_symbol cs
    \<and> sg_timeframe sg = cd_timeframe cs \<and> sg_confidence sg = None
    \<and> (is_actionable (sg_type sg) \<longrightarrow>
        (\<exists>r \<in> set (sd_entry_rules (bs_definition b)). sg_type sg = rl_then r \<and> sg_type sg \<in> {Entry_long, Entry_short})
      \<or> (\<exists>r \<in> set (sd_exit_rules (bs_definition b)). sg_type sg = rl_then r \<and> sg_type sg \<notin> {Entry_long, Entry_short}))
    \<and> (sg_type sg \<noteq> No_signal \<longrightarrow> cd_symbol cs = sd_symbol (bs_definition b) \<and> 2 \<le> length (cd_bars cs)
        \<and> sg_bar_time sg = b_time (last (cd_bars cs)) \<and> sg_reference_price sg = Some (b_close (last (cd_bars cs))))"
proof -
  obtain d where "parse_definition F p = Inr d" "b = built d key v"
    using assms by (auto simp: from_payload_def bindE_Inr)
  then have wf: "wf_definition (bs_definition b)" using parse_definition_wf by (simp add: built_def)
  then have acts: "\<And>r. r \<in> set (sd_entry_rules (bs_definition b)) \<Longrightarrow> rl_then r \<in> {Entry_long, Entry_short}"
    "\<And>r. r \<in> set (sd_exit_rules (bs_definition b)) \<Longrightarrow> rl_then r \<notin> {Entry_long, Entry_short}"
    by (auto simp: wf_definition_def wf_rules_def ENTRY_ACTIONS_def EXIT_ACTIONS_def)
  obtain sg where sg: "generate_signal F b cs now = Inr sg" "sg_key sg = bs_key b" "sg_symbol sg = cd_symbol cs"
    "sg_timeframe sg = cd_timeframe cs" "sg_confidence sg = None"
    "is_actionable (sg_type sg) \<Longrightarrow> \<exists>r \<in> set (all_rules (bs_definition b)). sg_type sg = rl_then r"
    "sg_type sg \<noteq> No_signal \<Longrightarrow> 2 \<le> length (cd_bars cs) \<and> cd_symbol cs = sd_symbol (bs_definition b)
       \<and> sg_bar_time sg = b_time (last (cd_bars cs)) \<and> sg_reference_price sg = Some (b_close (last (cd_bars cs)))"
    using generate_total [OF wf, of F cs now] by metis
  have "(\<exists>r \<in> set (sd_entry_rules (bs_definition b)). sg_type sg = rl_then r \<and> sg_type sg \<in> {Entry_long, Entry_short})
      \<or> (\<exists>r \<in> set (sd_exit_rules (bs_definition b)). sg_type sg = rl_then r \<and> sg_type sg \<notin> {Entry_long, Entry_short})"
    if "is_actionable (sg_type sg)"
    using sg(6) [OF that] acts unfolding all_rules_def by fastforce
  then show ?thesis using sg by blast
qed

definition flat_bar :: "int \<Rightarrow> rat \<Rightarrow> bar" where
  "flat_bar t c = \<lparr>b_symbol = ''EURUSD'', b_timeframe = H1, b_time = t, b_open = c, b_high = c, b_low = c,
     b_close = c, b_volume = None, b_complete = True\<rparr>"

definition demo_candles :: candles where
  "demo_candles = candles_of ''EURUSD'' H1 (map (\<lambda>i. flat_bar (int i) (if i = 15 then 9 else 1)) [0..<16])"

lemma demo_runs:
  "from_payload rat_floats (demo_payload ''eurusd '') None None = Inr (built (demo_definition ''EURUSD'') None None)"
  "map_sum id sg_type (generate_signal rat_floats (built (demo_definition ''EURUSD'') None None) demo_candles 0) = Inr Entry_long"
  by code_simp+

theorem accepted_strategy_runs_witness:
  "\<exists>sg. generate_signal rat_floats (built (demo_definition ''EURUSD'') None None) demo_candles 0 = Inr sg
    \<and> sg_type sg = Entry_long \<and> sg_reference_price sg = Some (b_close (last (cd_bars demo_candles)))"
  using accepted_strategy_runs [OF demo_runs(1), of demo_candles 0] demo_runs(2) by auto

text \<open>C19: no look-ahead. Wherever they stand in the list, the bars that are still forming are not
  among the candles a strategy is given, and the candles are those of the list without them; and
  cutting a history short cuts every indicator series of a definition short: the value on a bar is
  the same whatever comes after it, in every arithmetic.\<close>

theorem no_look_ahead:
  assumes "parse_definition F p = Inr d"
  shows "list_all b_complete (cd_bars (candles_of sy tf bars))
    \<and> candles_of sy tf bars = candles_of sy tf (filter b_complete bars)
    \<and> mset (cd_bars (candles_of sy tf bars)) = mset (filter b_complete bars)
    \<and> series_of F d (cut k cs) = map_sum id (map (\<lambda>(l, vs). (l, take k vs))) (series_of F d cs)"
proof (intro conjI)
  show "list_all b_complete (cd_bars (candles_of sy tf bars))" by (simp add: candles_of_def list_all_iff)
  show "candles_of sy tf bars = candles_of sy tf (filter b_complete bars)" by (simp add: candles_of_def)
  show "mset (cd_bars (candles_of sy tf bars)) = mset (filter b_complete bars)" by (simp add: candles_of_def)
  show "series_of F d (cut k cs) = map_sum id (map (\<lambda>(l, vs). (l, take k vs))) (series_of F d cs)"
    using series_of_cut [OF parse_definition_wf [OF assms(1)]] by (simp add: cut_series_def [abs_def])
qed

theorem no_look_ahead_witness:
  "series_of rat_floats (demo_definition ''EURUSD'') (cut 9 demo_candles)
    = map_sum id (map (\<lambda>(l, vs). (l, take 9 vs))) (series_of rat_floats (demo_definition ''EURUSD'') demo_candles)
   \<and> candles_of ''EURUSD'' H1 [flat_bar 0 1\<lparr>b_complete := False\<rparr>, flat_bar 1 2] = candles_of ''EURUSD'' H1 [flat_bar 1 2]"
  using no_look_ahead [OF demo_parses(1), where bars = "[flat_bar 0 1\<lparr>b_complete := False\<rparr>, flat_bar 1 2]"
      and sy = "''EURUSD''" and tf = H1 and k = 9 and cs = demo_candles]
  by (simp add: flat_bar_def)

section \<open>Warm-up\<close>

text \<open>Where a definition reads an indicator, on the last closed bar and the one before, the
  indicator has been written.\<close>

lemma indicator_written:
  assumes "key \<in> {''SMA'', ''EMA'', ''RSI'', ''ATR''}" "2 \<le> n" "3 * n \<le> int (length bs)" "k \<le> 1"
    and "\<forall>x. \<not> is_nan F x"
  shows "\<exists>vs v. compute F key [(''period'', N_int n)] (map h bs) (map l bs) (map c bs) = Inr vs
    \<and> vs ! (length bs - 1 - k) = Some v"
proof -
  define i where "i = length bs - 1 - k"
  obtain m where m: "nat n = Suc m" using assms(2) by (cases "nat n") auto
  then have "n = int (Suc m)" using assms(2) by simp
  then have "2 \<le> Suc m" "int (3 * Suc m) \<le> int (length bs)" using assms(2,3) by simp_all
  then have "2 \<le> Suc m" "3 * Suc m \<le> length bs" by (simp_all only: of_nat_le_iff)
  then have i: "Suc m + 1 \<le> i" "i < length bs" using assms(4) by (auto simp: i_def)
  have "\<exists>vs v. series_for F key (Suc m) (map (of_dec F \<circ> h) bs) (map (of_dec F \<circ> l) bs) (map (of_dec F \<circ> c) bs) = Inr vs
      \<and> length vs = length bs \<and> vs ! i = Some v"
    using assms(1) sma_series.causal_warm [of m i "map (of_dec F \<circ> c) bs" F] ema_series.causal_warm [of m i "map (of_dec F \<circ> c) bs" F]
      rsi_series.causal_warm [of m i "map (of_dec F \<circ> c) bs" F]
      atr_series.causal_warm [of m i bs F "of_dec F \<circ> h" "of_dec F \<circ> l" "of_dec F \<circ> c"] i
    by (auto simp: series_for_def sma_series.causal_length ema_series.causal_length rsi_series.causal_length
        atr_series.causal_length)
  then obtain vs v where vs: "series_for F key (Suc m) (map (of_dec F \<circ> h) bs) (map (of_dec F \<circ> l) bs)
      (map (of_dec F \<circ> c) bs) = Inr vs" "length vs = length bs" "vs ! i = Some v" by blast
  have "compute F key [(''period'', N_int n)] (map h bs) (map l bs) (map c bs) = Inr (map (no_nan F) vs)"
    using vs(1) by (simp add: compute_def int_of_number_def m)
  moreover have "map (no_nan F) vs ! i = Some v" using vs(2,3) i(2) assms(5) by (simp add: no_nan_def)
  ultimately show ?thesis unfolding i_def by blast
qed

section \<open>The key\<close>

lemma halve_has: "CHR ''_'' \<in> set s \<Longrightarrow> CHR ''_'' \<in> set (halve s)"
  and halve_set: "set (halve s) \<subseteq> set s"
  by (induction s rule: halve.induct) auto

lemma collapse_no_double: "\<not> has_double (collapse s)"
  by (induction s rule: collapse.induct) (subst collapse.simps, simp)

lemma collapse_set: "set (collapse s) \<subseteq> set s"
proof (induction s rule: collapse.induct)
  case (1 s)
  then show ?case using halve_set [of s] by (subst collapse.simps) auto
qed

lemma has_double_take: "has_double (take k s) \<Longrightarrow> has_double s"
proof (induction s arbitrary: k rule: has_double.induct)
  case (1 a b s)
  show ?case
  proof (cases k)
    case (Suc m)
    then show ?thesis using 1(2) 1(1) [of m] by (cases m) auto
  qed (use 1 in simp)
qed (auto simp: take_Cons' split: if_splits)

lemma halve_hd: "s \<noteq> [] \<Longrightarrow> hd (halve s) = hd s"
  by (cases s rule: halve.cases) auto

lemma collapse_hd: "collapse s \<noteq> [] \<Longrightarrow> hd (collapse s) = hd s"
proof (induction s rule: collapse.induct)
  case (1 s)
  show ?case
  proof (cases "has_double s")
    case True
    then have "collapse s = collapse (halve s)" "s \<noteq> []" by (subst collapse.simps, simp, auto)
    then show ?thesis using 1 True by (simp add: halve_hd)
  next
    case False
    then have "collapse s = s" by (subst collapse.simps) simp
    then show ?thesis by simp
  qed
qed

lemma strip_underscores_hd: "strip_underscores s \<noteq> [] \<Longrightarrow> hd (strip_underscores s) \<noteq> CHR ''_''"
  unfolding strip_underscores_def by (rule dropWhile_both(1))

lemma strip_underscores_set: "set (strip_underscores s) \<subseteq> set s"
  unfolding strip_underscores_def by (metis set_dropWhileD set_rev subsetI)

lemma collapse_Nil: "collapse [] = []"
  by (subst collapse.simps) simp

text \<open>C20: making a key ends. The loop that replaces double underscores terminates for every name,
  and the key it leaves is not empty, has at most 64 characters, no double underscore, and does
  not start with one; and every character of it is an underscore or a letter or digit of the
  name in lower case.\<close>

theorem slug_normal_form:
  "slug name \<noteq> [] \<and> length (slug name) \<le> 64 \<and> \<not> has_double (slug name) \<and> hd (slug name) \<noteq> CHR ''_''
   \<and> (slug name = ''built_strategy'' \<or> set (slug name) \<subseteq> set (map slug_char name))"
proof -
  let ?c = "collapse (strip_underscores (map slug_char name))"
  have "set (take 64 ?c) \<subseteq> set (map slug_char name)"
    using strip_underscores_set [of "map slug_char name"] collapse_set [of "strip_underscores (map slug_char name)"]
      set_take_subset [of 64 ?c] by blast
  moreover have "hd (take 64 ?c) \<noteq> CHR ''_''" if "take 64 ?c \<noteq> []"
  proof -
    from that have c: "?c \<noteq> []" by auto
    then have "strip_underscores (map slug_char name) \<noteq> []" using collapse_Nil by metis
    then show ?thesis using collapse_hd [OF c] strip_underscores_hd by (simp add: hd_take)
  qed
  moreover have "\<not> has_double (take 64 ?c)" using has_double_take collapse_no_double by blast
  ultimately show ?thesis by (auto simp: slug_def Let_def)
qed

end
