(* ===== verification/Exit_Policies.thy ===== *)
theory Exit_Policies
  imports Decimals
begin

text \<open>
  The exit policies, \<open>backend/app/positions/policies.py\<close>: when an open position is closed
  and where its stop is moved. A policy is a constructor with its settings and its
  \<open>evaluate\<close> one branch of \<open>evaluate_policy\<close>; the set of policies, the priority between the
  reasons and the policies that move stops follow.

  A \<open>Decimal\<close> is its value (theory \<open>Decimals\<close>); where the exponent of a quantity is read, by
  \<open>quantize\<close>, the quantity is accompanied by its number of decimal places. The texts of the
  decisions are kept as the figures they quote.
\<close>

section \<open>Data\<close>

datatype exit_reason =
  Stop_loss_hit | Take_profit_hit | Trailing_stop | Strategy_exit | Time_exit | Risk_exit | Emergency_exit
  | Partial_take_profit

definition PRIORITY :: "exit_reason list" where
  "PRIORITY = [Emergency_exit, Risk_exit, Stop_loss_hit, Take_profit_hit, Partial_take_profit, Trailing_stop,
     Time_exit, Strategy_exit]"

record position_view =
  pv_id :: string
  pv_symbol :: string
  pv_side :: string
  pv_quantity :: rat
  pv_places :: int \<comment> \<open>decimal places of the quantity\<close>
  pv_entry_price :: rat
  pv_opened_at :: time
  pv_mode :: string
  pv_stop_loss :: "rat option"
  pv_take_profit :: "rat option"
  pv_extreme_price :: "rat option"
  pv_floating_pnl :: "rat option"
  pv_strategy_version_id :: "string option"
  pv_account_id :: "string option"
  pv_broker_position_id :: "string option"
  pv_initial_quantity :: "rat option"
  pv_closed_quantity :: rat
  pv_broker_stop_loss :: "rat option"
  pv_broker_take_profit :: "rat option"

definition is_long :: "position_view \<Rightarrow> bool" where
  "is_long p \<longleftrightarrow> pv_side p = ''long''"

text \<open>\<open>protection_gap\<close>: the intended stop and the one the venue holds, when they differ.\<close>

definition protection_gap :: "position_view \<Rightarrow> (rat \<times> rat) option" where
  "protection_gap p = (case pv_stop_loss p of None \<Rightarrow> None | Some s \<Rightarrow>
     (case pv_broker_stop_loss p of None \<Rightarrow> None | Some b \<Rightarrow> if b \<noteq> s then Some (s, b) else None))"

record market_state =
  mk_symbol :: string
  mk_bid :: rat
  mk_ask :: rat
  mk_as_of :: time
  mk_atr :: "rat option"

definition spread :: "market_state \<Rightarrow> rat" where
  "spread m = dsub (mk_ask m) (mk_bid m)"

definition exit_price :: "market_state \<Rightarrow> bool \<Rightarrow> rat" where
  "exit_price m long = (if long then mk_bid m else mk_ask m)"

record risk_context =
  rx_emergency_stop :: bool
  rx_kill_switch_reason :: "string option"
  rx_max_floating_loss :: "rat option"
  rx_daily_loss_breached :: bool
  rx_strategy_exit_signalled :: bool
  rx_max_hold :: "time option"

datatype exit_detail =
    D_emergency string
  | D_daily_loss
  | D_floating rat rat
  | D_stop rat rat
  | D_target rat rat
  | D_partial rat rat rat rat
  | D_held time time
  | D_strategy
  | D_caller string

record exit_decision =
  ed_reason :: exit_reason
  ed_detail :: exit_detail
  ed_reference_price :: rat
  ed_decided_at :: time
  ed_quantity :: "rat option"
  ed_places :: int \<comment> \<open>decimal places of the quantity, when there is one\<close>

datatype move_reason = R_trail rat rat | R_break_even rat rat

record stop_modification =
  sm_position_id :: string
  sm_old_stop :: "rat option"
  sm_new_stop :: rat
  sm_reason :: move_reason
  sm_at :: time

datatype exit_error = InvalidOperation \<comment> \<open>\<open>quantize\<close> overflows the precision\<close>

section \<open>The policies\<close>

record trailing_settings =
  ts_atr_multiple :: "rat option"
  ts_distance :: "rat option"

record break_even_settings =
  be_atr_multiple :: "rat option"
  be_trigger_distance :: "rat option"
  be_buffer :: rat
  be_buffer_atr_multiple :: "rat option"

record partial_settings =
  pt_level :: "rat option"
  pt_fraction :: rat

datatype policy =
    EmergencyExit
  | RiskExit
  | StopLoss
  | TakeProfit
  | TrailingStop trailing_settings
  | BreakEven break_even_settings
  | PartialTakeProfit partial_settings
  | TimeExit "time option"
  | StrategyExit

fun policy_name :: "policy \<Rightarrow> string" where
  "policy_name EmergencyExit = ''emergency_exit''"
| "policy_name RiskExit = ''risk_exit''"
| "policy_name StopLoss = ''stop_loss''"
| "policy_name TakeProfit = ''take_profit''"
| "policy_name (TrailingStop _) = ''trailing_stop''"
| "policy_name (BreakEven _) = ''break_even''"
| "policy_name (PartialTakeProfit _) = ''partial_take_profit''"
| "policy_name (TimeExit _) = ''time_exit''"
| "policy_name StrategyExit = ''strategy_exit''"

definition exit_at_market ::
    "exit_reason \<Rightarrow> exit_detail \<Rightarrow> position_view \<Rightarrow> market_state \<Rightarrow> rat option \<Rightarrow> exit_decision" where
  "exit_at_market r d p m q = \<lparr>ed_reason = r, ed_detail = d, ed_reference_price = exit_price m (is_long p),
     ed_decided_at = mk_as_of m, ed_quantity = q, ed_places = pv_places p\<rparr>"

definition emergency_evaluate :: "position_view \<Rightarrow> market_state \<Rightarrow> risk_context \<Rightarrow> exit_decision option" where
  "emergency_evaluate p m c =
     (if \<not> rx_emergency_stop c then None
      else Some (exit_at_market Emergency_exit
        (D_emergency (if truthy (rx_kill_switch_reason c) then the (rx_kill_switch_reason c)
                      else ''emergency stop engaged'')) p m None))"

definition risk_evaluate :: "position_view \<Rightarrow> market_state \<Rightarrow> risk_context \<Rightarrow> exit_decision option" where
  "risk_evaluate p m c =
     (if rx_daily_loss_breached c then Some (exit_at_market Risk_exit D_daily_loss p m None)
      else (case (rx_max_floating_loss c, pv_floating_pnl p) of
        (Some limit, Some floating) \<Rightarrow>
          if floating \<le> dneg (dabs limit)
          then Some (exit_at_market Risk_exit (D_floating floating (dneg (dabs limit))) p m None) else None
      | _ \<Rightarrow> None))"

definition stop_hit :: "position_view \<Rightarrow> market_state \<Rightarrow> rat \<Rightarrow> bool" where
  "stop_hit p m s \<longleftrightarrow> (if is_long p then exit_price m (is_long p) \<le> s else s \<le> exit_price m (is_long p))"

definition stop_evaluate :: "position_view \<Rightarrow> market_state \<Rightarrow> exit_decision option" where
  "stop_evaluate p m = (case pv_stop_loss p of None \<Rightarrow> None | Some s \<Rightarrow>
     if \<not> stop_hit p m s then None
     else Some (exit_at_market Stop_loss_hit (D_stop (exit_price m (is_long p)) s) p m None))"

definition target_hit :: "position_view \<Rightarrow> market_state \<Rightarrow> rat \<Rightarrow> bool" where
  "target_hit p m t \<longleftrightarrow> (if is_long p then t \<le> exit_price m (is_long p) else exit_price m (is_long p) \<le> t)"

definition target_evaluate :: "position_view \<Rightarrow> market_state \<Rightarrow> exit_decision option" where
  "target_evaluate p m = (case pv_take_profit p of None \<Rightarrow> None | Some t \<Rightarrow>
     if \<not> target_hit p m t then None
     else Some (exit_at_market Take_profit_hit (D_target (exit_price m (is_long p)) t) p m None))"

text \<open>\<open>initial_quantity or quantity\<close>: None and zero fall back to what is open.\<close>

definition initial_of :: "position_view \<Rightarrow> rat" where
  "initial_of p = (case pv_initial_quantity p of Some q \<Rightarrow> if q \<noteq> 0 then q else pv_quantity p
                    | None \<Rightarrow> pv_quantity p)"

definition partial_evaluate ::
    "partial_settings \<Rightarrow> position_view \<Rightarrow> market_state \<Rightarrow> exit_error + exit_decision option" where
  "partial_evaluate s p m = (case pt_level s of None \<Rightarrow> Inr None | Some level \<Rightarrow>
     if pt_fraction s \<le> 0 \<or> 1 \<le> pt_fraction s then Inr None
     else let initial = initial_of p in
     if initial \<le> 0 then Inr None
     else (case quantize rhe (pv_places p) (dmul initial (pt_fraction s)) of
       None \<Rightarrow> Inl InvalidOperation
     | Some wanted \<Rightarrow>
         if wanted \<le> 0 then Inr None
         else if wanted \<le> pv_closed_quantity p then Inr None
         else let left = dsub wanted (pv_closed_quantity p);
                  take = (if pv_quantity p < left then pv_quantity p else left) in
         if take \<le> 0 then Inr None
         else if \<not> target_hit p m level then Inr None
         else Inr (Some (exit_at_market Partial_take_profit
                (D_partial (exit_price m (is_long p)) level take initial) p m (Some take)))))"

text \<open>\<open>a or b\<close> on durations: None and zero are false.\<close>

definition dur_or :: "time option \<Rightarrow> time option \<Rightarrow> time option" where
  "dur_or a b = (case a of None \<Rightarrow> b | Some t \<Rightarrow> if t \<noteq> 0 then a else b)"

definition time_evaluate ::
    "time option \<Rightarrow> position_view \<Rightarrow> market_state \<Rightarrow> risk_context \<Rightarrow> exit_decision option" where
  "time_evaluate max_hold p m c = (case dur_or max_hold (rx_max_hold c) of None \<Rightarrow> None | Some limit \<Rightarrow>
     let held = mk_as_of m - pv_opened_at p in
     if held < limit then None else Some (exit_at_market Time_exit (D_held held limit) p m None))"

definition strategy_evaluate :: "position_view \<Rightarrow> market_state \<Rightarrow> risk_context \<Rightarrow> exit_decision option" where
  "strategy_evaluate p m c = (if \<not> rx_strategy_exit_signalled c then None
     else Some (exit_at_market Strategy_exit D_strategy p m None))"

fun evaluate_policy ::
    "policy \<Rightarrow> position_view \<Rightarrow> market_state \<Rightarrow> risk_context \<Rightarrow> exit_error + exit_decision option" where
  "evaluate_policy EmergencyExit p m c = Inr (emergency_evaluate p m c)"
| "evaluate_policy RiskExit p m c = Inr (risk_evaluate p m c)"
| "evaluate_policy StopLoss p m c = Inr (stop_evaluate p m)"
| "evaluate_policy TakeProfit p m c = Inr (target_evaluate p m)"
| "evaluate_policy (TrailingStop _) p m c = Inr None"
| "evaluate_policy (BreakEven _) p m c = Inr None"
| "evaluate_policy (PartialTakeProfit s) p m c = partial_evaluate s p m"
| "evaluate_policy (TimeExit h) p m c = Inr (time_evaluate h p m c)"
| "evaluate_policy StrategyExit p m c = Inr (strategy_evaluate p m c)"

section \<open>Moving the stop\<close>

text \<open>A distance given directly, or as a multiple of an ATR that the quote carries.\<close>

definition gap_of :: "rat option \<Rightarrow> rat option \<Rightarrow> market_state \<Rightarrow> rat option" where
  "gap_of distance multiple m =
     (let gap = (case distance of Some d \<Rightarrow> Some d | None \<Rightarrow>
        (case multiple of None \<Rightarrow> None | Some k \<Rightarrow> map_option (dmul k) (mk_atr m)))
      in case gap of None \<Rightarrow> None | Some g \<Rightarrow> if g \<le> 0 then None else Some g)"

definition tighter :: "bool \<Rightarrow> rat \<Rightarrow> rat \<Rightarrow> bool" where
  "tighter long new old \<longleftrightarrow> (if long then old < new else new < old)"

definition improves :: "position_view \<Rightarrow> rat \<Rightarrow> bool" where
  "improves p candidate \<longleftrightarrow>
     (case pv_stop_loss p of None \<Rightarrow> True | Some current \<Rightarrow> tighter (is_long p) candidate current)"

definition modification_to :: "position_view \<Rightarrow> market_state \<Rightarrow> rat \<Rightarrow> move_reason \<Rightarrow> stop_modification option" where
  "modification_to p m candidate why =
     (if \<not> improves p candidate then None
      else Some \<lparr>sm_position_id = pv_id p, sm_old_stop = pv_stop_loss p, sm_new_stop = candidate,
        sm_reason = why, sm_at = mk_as_of m\<rparr>)"

definition new_extreme :: "position_view \<Rightarrow> market_state \<Rightarrow> rat" where
  "new_extreme p m = (let price = exit_price m (is_long p) in
     case pv_extreme_price p of None \<Rightarrow> price
     | Some e \<Rightarrow> if is_long p then max e price else min e price)"

definition trailing_stop :: "trailing_settings \<Rightarrow> position_view \<Rightarrow> market_state \<Rightarrow> stop_modification option" where
  "trailing_stop s p m = (case gap_of (ts_distance s) (ts_atr_multiple s) m of None \<Rightarrow> None | Some gap \<Rightarrow>
     let extreme = new_extreme p m;
         candidate = (if is_long p then dsub extreme gap else dadd extreme gap)
     in modification_to p m candidate (R_trail gap extreme))"

definition buffer_for :: "break_even_settings \<Rightarrow> market_state \<Rightarrow> rat option" where
  "buffer_for s m = (case be_buffer_atr_multiple s of None \<Rightarrow> Some (be_buffer s)
     | Some k \<Rightarrow> map_option (dmul k) (mk_atr m))"

definition trigger :: "break_even_settings \<Rightarrow> market_state \<Rightarrow> rat option" where
  "trigger s m = gap_of (be_trigger_distance s) (be_atr_multiple s) m"

definition break_even :: "break_even_settings \<Rightarrow> position_view \<Rightarrow> market_state \<Rightarrow> stop_modification option" where
  "break_even s p m = (case trigger s m of None \<Rightarrow> None | Some gap \<Rightarrow>
     let price = exit_price m (is_long p);
         advanced = (if is_long p then dsub price (pv_entry_price p) else dsub (pv_entry_price p) price) in
     if advanced < gap then None
     else (case buffer_for s m of None \<Rightarrow> None | Some buffer \<Rightarrow>
       let candidate = (if is_long p then dadd (pv_entry_price p) buffer else dsub (pv_entry_price p) buffer)
       in modification_to p m candidate (R_break_even advanced gap)))"

fun moves_stops :: "policy \<Rightarrow> bool" where
  "moves_stops (TrailingStop _) = True"
| "moves_stops (BreakEven _) = True"
| "moves_stops _ = False"

fun proposed_stop :: "policy \<Rightarrow> position_view \<Rightarrow> market_state \<Rightarrow> stop_modification option" where
  "proposed_stop (TrailingStop s) p m = trailing_stop s p m"
| "proposed_stop (BreakEven s) p m = break_even s p m"
| "proposed_stop _ p m = None"

section \<open>The set of policies\<close>

definition no_trailing :: trailing_settings where
  "no_trailing = \<lparr>ts_atr_multiple = None, ts_distance = None\<rparr>"

definition default_policies ::
    "trailing_settings option \<Rightarrow> time option \<Rightarrow> break_even_settings option \<Rightarrow> partial_settings option \<Rightarrow> policy list" where
  "default_policies trailing max_hold be part =
     [EmergencyExit, RiskExit, StopLoss, TakeProfit,
      TrailingStop (case trailing of Some s \<Rightarrow> s | None \<Rightarrow> no_trailing), TimeExit max_hold, StrategyExit]
     @ (case be of None \<Rightarrow> [] | Some s \<Rightarrow> [BreakEven s])
     @ (case part of None \<Rightarrow> [] | Some s \<Rightarrow> [PartialTakeProfit s])"

definition stop_movers :: "policy list \<Rightarrow> policy list" where
  "stop_movers ps = filter moves_stops ps"

text \<open>\<open>by_reason\<close> keeps the first decision of each reason (\<open>setdefault\<close>).\<close>

definition set_default ::
    "(exit_reason \<rightharpoonup> exit_decision) \<Rightarrow> exit_decision option \<Rightarrow> (exit_reason \<rightharpoonup> exit_decision)" where
  "set_default acc d = (case d of None \<Rightarrow> acc
     | Some e \<Rightarrow> if acc (ed_reason e) = None then acc(ed_reason e \<mapsto> e) else acc)"

fun by_reason ::
    "policy list \<Rightarrow> position_view \<Rightarrow> market_state \<Rightarrow> risk_context \<Rightarrow> (exit_reason \<rightharpoonup> exit_decision)
     \<Rightarrow> exit_error + (exit_reason \<rightharpoonup> exit_decision)" where
  "by_reason [] p m c acc = Inr acc"
| "by_reason (x # ps) p m c acc =
     bindE (evaluate_policy x p m c) (\<lambda>d. by_reason ps p m c (set_default acc d))"

definition decide ::
    "policy list \<Rightarrow> position_view \<Rightarrow> market_state \<Rightarrow> risk_context \<Rightarrow> exit_error + exit_decision option" where
  "decide ps p m c = bindE (by_reason ps p m c Map.empty) (\<lambda>found.
     Inr (Option.bind (find (\<lambda>r. found r \<noteq> None) PRIORITY) found))"

section \<open>What the stop movers propose\<close>

lemma tighter_asym: "tighter l a b \<Longrightarrow> \<not> tighter l b a"
  by (auto simp: tighter_def)

lemma tighter_trans: "tighter l a b \<Longrightarrow> tighter l b c \<Longrightarrow> tighter l a c"
  by (auto simp: tighter_def split: if_splits)

lemma proposed_stop_improves:
  "proposed_stop x p m = Some s \<Longrightarrow>
     improves p (sm_new_stop s) \<and> sm_old_stop s = pv_stop_loss p \<and> sm_at s = mk_as_of m"
  by (cases x) (auto simp: trailing_stop_def break_even_def modification_to_def Let_def
      split: option.splits if_splits)

section \<open>What is decided\<close>

lemma set_default_keeps: "acc r = Some d \<Longrightarrow> set_default acc e r = Some d"
  by (auto simp: set_default_def split: option.splits)

lemma set_default_Some:
  "set_default acc e r = Some d \<Longrightarrow> acc r = Some d \<or> (e = Some d \<and> ed_reason d = r)"
  by (auto simp: set_default_def split: option.splits if_splits)

lemma set_default_None:
  "set_default acc e r = None \<Longrightarrow> acc r = None \<and> (\<forall>d. e = Some d \<longrightarrow> ed_reason d \<noteq> r)"
  by (auto simp: set_default_def split: option.splits if_splits)

lemma by_reason_Cons:
  "by_reason (x # ps) p m c acc = Inr f \<longleftrightarrow>
     (\<exists>d. evaluate_policy x p m c = Inr d \<and> by_reason ps p m c (set_default acc d) = Inr f)"
  by (simp add: bindE_Inr)

lemma by_reason_keeps: "by_reason ps p m c acc = Inr f \<Longrightarrow> acc r = Some d \<Longrightarrow> f r = Some d"
proof (induction ps arbitrary: acc)
  case (Cons x ps)
  then obtain e where "by_reason ps p m c (set_default acc e) = Inr f" unfolding by_reason_Cons by blast
  then show ?case using Cons.IH set_default_keeps Cons.prems(2) by metis
qed simp

lemma by_reason_from:
  "by_reason ps p m c acc = Inr f \<Longrightarrow> f r = Some d \<Longrightarrow>
     acc r = Some d \<or> (ed_reason d = r \<and> (\<exists>x \<in> set ps. evaluate_policy x p m c = Inr (Some d)))"
proof (induction ps arbitrary: acc)
  case (Cons x ps)
  then obtain e where e: "evaluate_policy x p m c = Inr e" and r: "by_reason ps p m c (set_default acc e) = Inr f"
    unfolding by_reason_Cons by blast
  from Cons.IH [OF r Cons.prems(2)] e show ?case by (auto dest: set_default_Some)
qed simp

lemma by_reason_absent:
  "by_reason ps p m c acc = Inr f \<Longrightarrow> f r = None \<Longrightarrow> x \<in> set ps \<Longrightarrow> evaluate_policy x p m c = Inr (Some d)
     \<Longrightarrow> ed_reason d \<noteq> r"
proof (induction ps arbitrary: acc)
  case (Cons y ps)
  then obtain e where e: "evaluate_policy y p m c = Inr e" and r: "by_reason ps p m c (set_default acc e) = Inr f"
    unfolding by_reason_Cons by blast
  have "set_default acc e r = None" using by_reason_keeps [OF r] Cons.prems(2) by (cases "set_default acc e r") auto
  with Cons.IH [OF r Cons.prems(2)] Cons.prems(3,4) e show ?case by (auto dest: set_default_None)
qed simp

text \<open>The place of a reason in the priority.\<close>

definition rank :: "exit_reason \<Rightarrow> nat" where
  "rank r = length (takeWhile (\<lambda>x. x \<noteq> r) PRIORITY)"

lemma rank_inj: "rank a = rank b \<Longrightarrow> a = b"
  by (cases a; cases b) (simp_all add: rank_def PRIORITY_def)

lemma in_PRIORITY: "r \<in> set PRIORITY"
  by (cases r) (simp_all add: PRIORITY_def)

lemma find_first_rank:
  "find Q PRIORITY = Some r \<Longrightarrow> Q r \<and> (\<forall>r'. Q r' \<longrightarrow> rank r \<le> rank r')"
proof -
  assume f: "find Q PRIORITY = Some r"
  have "rank r \<le> rank r'" if "Q r'" for r'
    using f that by (cases r') (auto simp: PRIORITY_def rank_def split: if_splits)
  with f show ?thesis by (auto dest: find_Some_mem)
qed

lemma decide_cases:
  assumes "decide ps p m c = Inr v"
  obtains f where "by_reason ps p m c Map.empty = Inr f" "v = None" "\<And>r. f r = None"
  | f d where "by_reason ps p m c Map.empty = Inr f" "v = Some d" "f (ed_reason d) = Some d"
      "\<And>r. f r \<noteq> None \<Longrightarrow> rank (ed_reason d) \<le> rank r"
proof -
  obtain f where f: "by_reason ps p m c Map.empty = Inr f"
    and v: "v = Option.bind (find (\<lambda>r. f r \<noteq> None) PRIORITY) f"
    using assms by (auto simp: decide_def bindE_Inr)
  show thesis
  proof (cases "find (\<lambda>r. f r \<noteq> None) PRIORITY")
    case None
    then have "f r = None" for r using in_PRIORITY [of r] by (simp add: find_None_iff')
    with None v that(1) [OF f] show thesis by simp
  next
    case (Some r)
    from find_first_rank [OF this] obtain d where d: "f r = Some d" and r: "\<And>r'. f r' \<noteq> None \<Longrightarrow> rank r \<le> rank r'"
      by blast
    then have "ed_reason d = r" using by_reason_from [OF f d] by simp
    with that(2) [OF f] d r Some v show thesis by simp
  qed
qed

end
