(* ===== verification/Position_Manager.thy ===== *)
theory Position_Manager
  imports Exit_Policies
begin

text \<open>
  The position manager, \<open>backend/app/positions/manager.py\<close>, with the outcomes and the
  simulator of \<open>executor.py\<close>, the catalogue of \<open>events.py\<close> and the row of
  \<open>models/execution.py\<close>.

  The rows, the audit log and the queue of events are passed along explicitly. An executor is a
  function of the view, the quote and the decision that changes a state of its own, \<open>'s\<close> (the
  venue), and either answers with an outcome or raises: the simulator and the unavailable
  executor are instances, the executor that goes through the order manager is another (theory
  \<open>Broker_Exit\<close>). The code of a symbol is looked up in a table that does not change while a
  manager lives, so the manager's cache of it does not show. \<open>initial_quantity\<close> and
  \<open>closed_quantity\<close> are zero where Python would also accept None: every reader treats the two
  alike.
\<close>

section \<open>Rows and views\<close>

datatype position_status =
  P_opening | P_open | P_partially_closed | P_closing | P_closed | P_unknown | P_reconciling

record position_row =
  row_id :: string
  row_mode :: string
  row_broker_account_id :: "string option"
  row_paper_account_id :: "string option"
  row_symbol_id :: string
  row_strategy_version_id :: "string option"
  row_broker_position_id :: "string option"
  row_side :: string
  row_quantity :: rat
  row_places :: int \<comment> \<open>decimal places of \<open>quantity\<close>, those of its column\<close>
  row_entry_price :: rat
  row_stop_loss :: "rat option"
  row_take_profit :: "rat option"
  row_status :: position_status
  row_opened_at :: time
  row_closed_at :: "time option"
  row_source :: string
  row_initial_quantity :: rat
  row_closed_quantity :: rat
  row_realized_pnl :: "rat option"
  row_broker_stop_loss :: "rat option"
  row_broker_take_profit :: "rat option"
  row_broker_synced_at :: "time option"

definition MANAGEABLE :: "position_status list" where
  "MANAGEABLE = [P_open, P_partially_closed]"

fun NOT_ACTIONABLE :: "position_status \<Rightarrow> string option" where
  "NOT_ACTIONABLE P_unknown = Some ''status is unknown; awaiting reconciliation''"
| "NOT_ACTIONABLE P_reconciling = Some ''status is reconciling; a sweep is settling it against the venue''"
| "NOT_ACTIONABLE P_closing = Some ''status is closing; a close is in flight and has not been confirmed''"
| "NOT_ACTIONABLE P_opening = Some ''status is opening; no fill has confirmed this position exists''"
| "NOT_ACTIONABLE _ = None"

definition or_zero :: "rat \<Rightarrow> rat \<Rightarrow> rat" where \<comment> \<open>\<open>a or b\<close>\<close>
  "or_zero a b = (if a \<noteq> 0 then a else b)"

definition view_of :: "position_row \<Rightarrow> rat option \<Rightarrow> string option \<Rightarrow> position_view" where
  "view_of row floating code =
     \<lparr>pv_id = row_id row, pv_symbol = (case code of Some s \<Rightarrow> s | None \<Rightarrow> []), pv_side = row_side row,
      pv_quantity = row_quantity row, pv_places = row_places row, pv_entry_price = row_entry_price row,
      pv_opened_at = row_opened_at row, pv_mode = row_mode row, pv_stop_loss = row_stop_loss row,
      pv_take_profit = row_take_profit row, pv_extreme_price = None, pv_floating_pnl = floating,
      pv_strategy_version_id = None,
      pv_account_id = str_or (row_broker_account_id row) (row_paper_account_id row),
      pv_broker_position_id = row_broker_position_id row,
      pv_initial_quantity = Some (or_zero (row_initial_quantity row) (row_quantity row)),
      pv_closed_quantity = row_closed_quantity row,
      pv_broker_stop_loss = row_broker_stop_loss row, pv_broker_take_profit = row_broker_take_profit row\<rparr>"

section \<open>Outcomes and executors\<close>

datatype close_status = C_confirmed | C_rejected | C_unknown

datatype close_detail =
    C_text string
  | C_wrong_quote string string
  | C_no_quote string rat
  | C_no_price

record close_outcome =
  co_status :: close_status
  co_detail :: close_detail
  co_fill_price :: "rat option"
  co_closed_at :: "time option"
  co_broker_deal_id :: "string option"
  co_fill_source :: string
  co_realized_pnl :: "rat option"

definition is_confirmed :: "close_outcome \<Rightarrow> bool" where
  "is_confirmed oc \<longleftrightarrow> co_status oc = C_confirmed"

definition no_fill :: "close_status \<Rightarrow> close_detail \<Rightarrow> string \<Rightarrow> close_outcome" where
  "no_fill s d src = \<lparr>co_status = s, co_detail = d, co_fill_price = None, co_closed_at = None,
     co_broker_deal_id = None, co_fill_source = src, co_realized_pnl = None\<rparr>"

type_synonym 's executor =
  "position_view \<Rightarrow> market_state \<Rightarrow> exit_decision \<Rightarrow> 's \<Rightarrow> (string + close_outcome) \<times> 's"

definition paper_executor :: "'s executor" where
  "paper_executor p m d s =
     (if mk_symbol m \<noteq> pv_symbol p
      then (Inr (no_fill C_rejected (C_wrong_quote (mk_symbol m) (pv_symbol p)) ''simulator''), s)
      else let price = exit_price m (is_long p) in
      if price \<le> 0 then (Inr (no_fill C_rejected (C_no_quote (pv_symbol p) price) ''simulator''), s)
      else (Inr \<lparr>co_status = C_confirmed,
              co_detail = C_text (if is_long p then ''simulated fill at the bid'' else ''simulated fill at the ask''),
              co_fill_price = Some price, co_closed_at = Some (mk_as_of m), co_broker_deal_id = None,
              co_fill_source = ''simulator'', co_realized_pnl = None\<rparr>, s))"

definition unavailable_executor :: "string \<Rightarrow> string \<Rightarrow> 's executor" where
  "unavailable_executor mode reason p m d s =
     (Inr (no_fill C_rejected (C_text (''cannot close a '' @ mode @ '' position: '' @ reason)) ''none''), s)"

section \<open>The record and the events\<close>

datatype catalogue_event = POSITION_OPENED | POSITION_UPDATED | POSITION_CLOSED

definition EVENT_FOR :: "(string \<times> catalogue_event) list" where
  "EVENT_FOR = [(''opened'', POSITION_OPENED), (''stop_modified'', POSITION_UPDATED),
     (''protection_set'', POSITION_UPDATED), (''protection_mismatch'', POSITION_UPDATED),
     (''partially_closed'', POSITION_UPDATED), (''reconciled'', POSITION_UPDATED),
     (''reconcile_inconclusive'', POSITION_UPDATED), (''close_rejected'', POSITION_UPDATED),
     (''close_unknown'', POSITION_UPDATED), (''closed'', POSITION_CLOSED),
     (''reconcile_closed'', POSITION_CLOSED)]"

definition position_event_for :: "string \<Rightarrow> catalogue_event option" where
  "position_event_for kind = map_of EVENT_FOR kind"

text \<open>What the payload of an entry says.\<close>

datatype position_change =
    Ch_stop "rat option" rat move_reason string
  | Ch_mismatch rat rat
  | Ch_decided exit_reason exit_detail rat string
  | Ch_decided_by_caller exit_reason exit_detail rat "rat option" string
  | Ch_booked exit_reason rat rat string bool "string option" close_detail rat rat "rat option"
  | Ch_unclear exit_reason close_detail
  | Ch_refused exit_reason close_detail
  | Ch_restored position_status
  | Ch_gone string
  | Ch_compared "(rat \<times> rat) option" "(rat option \<times> rat option) option" "(rat option \<times> rat option) option"

record position_event =
  pe_position_id :: string
  pe_event_type :: string
  pe_occurred_at :: time
  pe_payload :: position_change

text \<open>\<open>payload_for\<close> renders the fields of the row at that moment, the kind and the detail.\<close>

record position_event_out =
  po_type :: catalogue_event
  po_row :: position_row
  po_change :: string
  po_payload :: position_change

record 's books =
  bk_record :: "position_event list"
  bk_pending :: "position_event_out list"
  bk_venue :: 's

definition payload_event :: "position_row \<Rightarrow> string \<Rightarrow> position_change \<Rightarrow> catalogue_event \<Rightarrow> position_event_out" where
  "payload_event row kind ch e = \<lparr>po_type = e, po_row = row, po_change = kind, po_payload = ch\<rparr>"

definition record_change ::
    "position_row \<Rightarrow> string \<Rightarrow> time \<Rightarrow> position_change \<Rightarrow> 's books \<Rightarrow> 's books" where
  "record_change row kind t ch bk = bk
     \<lparr>bk_record := bk_record bk @ [\<lparr>pe_position_id = row_id row, pe_event_type = kind, pe_occurred_at = t,
        pe_payload = ch\<rparr>],
      bk_pending := (case position_event_for kind of None \<Rightarrow> bk_pending bk
        | Some e \<Rightarrow> bk_pending bk @ [payload_event row kind ch e])\<rparr>"

definition drain_position_events :: "'s books \<Rightarrow> position_event_out list \<times> 's books" where
  "drain_position_events bk = (bk_pending bk, bk\<lparr>bk_pending := []\<rparr>)"

section \<open>The best stop\<close>

record stop_proposal =
  spp_modification :: stop_modification
  spp_policy :: string

definition propose :: "bool \<Rightarrow> stop_proposal option \<Rightarrow> stop_modification option \<Rightarrow> string \<Rightarrow> stop_proposal option" where
  "propose long best proposal name = (case proposal of None \<Rightarrow> best | Some s \<Rightarrow>
     (case best of None \<Rightarrow> Some \<lparr>spp_modification = s, spp_policy = name\<rparr>
      | Some b \<Rightarrow> if tighter long (sm_new_stop s) (sm_new_stop (spp_modification b))
                  then Some \<lparr>spp_modification = s, spp_policy = name\<rparr> else best))"

definition best_stop :: "policy list \<Rightarrow> position_view \<Rightarrow> market_state \<Rightarrow> stop_proposal option" where
  "best_stop ps p m =
     foldl (\<lambda>best x. propose (is_long p) best (proposed_stop x p m) (policy_name x)) None (stop_movers ps)"

section \<open>Booking a fill\<close>

definition BROKER_MODES :: "string list" where
  "BROKER_MODES = [''demo'', ''live'']"

text \<open>\<open>_book\<close>, step by step: the initial size of an old row, the amount, the money, the quantities.\<close>

definition backfilled :: "position_row \<Rightarrow> position_row" where
  "backfilled row = (if row_initial_quantity row = 0
     then row\<lparr>row_initial_quantity := dadd (row_quantity row) (row_closed_quantity row)\<rparr> else row)"

definition closed_now :: "position_row \<Rightarrow> exit_decision \<Rightarrow> rat" where
  "closed_now row d = (let wanted = (case ed_quantity d of Some q \<Rightarrow> q | None \<Rightarrow> row_quantity row)
     in if row_quantity row < wanted then row_quantity row else wanted)"

definition booked_money :: "position_row \<Rightarrow> rat \<Rightarrow> close_outcome \<Rightarrow> rat \<Rightarrow> rat option" where
  "booked_money row n oc fill = (case co_realized_pnl oc of Some x \<Rightarrow> Some x
     | None \<Rightarrow> if row_mode row \<notin> set BROKER_MODES
         then Some (dmul (dmul (dsub fill (row_entry_price row)) (if row_side row = ''long'' then 1 else - 1)) n)
         else None)"

definition add_money :: "rat option \<Rightarrow> position_row \<Rightarrow> position_row" where
  "add_money booked row = (case booked of None \<Rightarrow> row
     | Some x \<Rightarrow> row\<lparr>row_realized_pnl := Some (dadd (case row_realized_pnl row of Some y \<Rightarrow> y | None \<Rightarrow> 0) x)\<rparr>)"

definition reduce_by :: "rat \<Rightarrow> time \<Rightarrow> position_row \<Rightarrow> position_row" where
  "reduce_by n t row =
     (let left = dsub (row_quantity row) n;
          row = row\<lparr>row_closed_quantity := dadd (row_closed_quantity row) n, row_quantity := left\<rparr>
      in if left \<le> 0 then row\<lparr>row_status := P_closed, row_closed_at := Some t\<rparr>
         else row\<lparr>row_status := P_partially_closed\<rparr>)"

definition book_close :: "position_row \<Rightarrow> exit_decision \<Rightarrow> close_outcome \<Rightarrow> rat \<Rightarrow> position_row" where
  "book_close row d oc fill =
     (let row = backfilled row; n = closed_now row d
      in reduce_by n (case co_closed_at oc of Some t \<Rightarrow> t | None \<Rightarrow> ed_decided_at d)
           (add_money (booked_money row n oc fill) row))"

section \<open>Acting on a decision\<close>

datatype pm_exc = Policy_raised exit_error | Executor_raised string

definition booked_change :: "position_row \<Rightarrow> position_view \<Rightarrow> exit_decision \<Rightarrow> close_outcome \<Rightarrow> rat \<Rightarrow> position_change" where
  "booked_change row p d oc fill = Ch_booked (ed_reason d) fill (ed_reference_price d) (co_fill_source oc)
     (co_realized_pnl oc \<noteq> None) (co_broker_deal_id oc) (co_detail oc)
     (case ed_quantity d of Some q \<Rightarrow> or_zero q (pv_quantity p) | None \<Rightarrow> pv_quantity p)
     (row_quantity row) (row_realized_pnl row)"

definition act ::
    "'s executor \<Rightarrow> position_view \<Rightarrow> market_state \<Rightarrow> exit_decision \<Rightarrow> position_row \<Rightarrow> 's books
     \<Rightarrow> (pm_exc + close_outcome) \<times> position_row \<times> 's books" where
  "act ex p m d row bk =
     (let (answer, s) = ex p m d (bk_venue bk); bk = bk\<lparr>bk_venue := s\<rparr> in
      case answer of Inl e \<Rightarrow> (Inl (Executor_raised e), row, bk) | Inr oc \<Rightarrow>
      (case (co_status oc, co_fill_price oc) of
        (C_confirmed, Some fill) \<Rightarrow>
          let row = book_close row d oc fill in
          (Inr oc, row, record_change row (if row_status row = P_partially_closed then ''partially_closed'' else ''closed'')
             (case co_closed_at oc of Some t \<Rightarrow> t | None \<Rightarrow> ed_decided_at d) (booked_change row p d oc fill) bk)
      | (C_confirmed, None) \<Rightarrow>
          let row = row\<lparr>row_status := P_unknown\<rparr> in
          (Inr (no_fill C_unknown C_no_price (co_fill_source oc)), row,
           record_change row ''close_unknown'' (ed_decided_at d) (Ch_unclear (ed_reason d) C_no_price) bk)
      | (C_unknown, _) \<Rightarrow>
          let row = row\<lparr>row_status := P_unknown\<rparr> in
          (Inr oc, row,
           record_change row ''close_unknown'' (ed_decided_at d) (Ch_unclear (ed_reason d) (co_detail oc)) bk)
      | (C_rejected, _) \<Rightarrow>
          (Inr oc, row,
           record_change row ''close_rejected'' (ed_decided_at d) (Ch_refused (ed_reason d) (co_detail oc)) bk)))"

record managed_result =
  mr_position_id :: string
  mr_decision :: "exit_decision option"
  mr_outcome :: "close_outcome option"
  mr_modification :: "stop_proposal option"
  mr_skipped :: "string option"

definition skipped :: "position_row \<Rightarrow> string \<Rightarrow> managed_result" where
  "skipped row why = \<lparr>mr_position_id = row_id row, mr_decision = None, mr_outcome = None,
     mr_modification = None, mr_skipped = Some why\<rparr>"

definition mr_closed :: "managed_result \<Rightarrow> bool" where
  "mr_closed r \<longleftrightarrow> (case mr_outcome r of Some oc \<Rightarrow> is_confirmed oc | None \<Rightarrow> False)"

definition mr_needs_reconciliation :: "managed_result \<Rightarrow> bool" where
  "mr_needs_reconciliation r \<longleftrightarrow> (case mr_outcome r of Some oc \<Rightarrow> co_status oc = C_unknown | None \<Rightarrow> False)"

definition mr_partially_closed :: "managed_result \<Rightarrow> bool" where
  "mr_partially_closed r \<longleftrightarrow> (case mr_outcome r of Some oc \<Rightarrow> is_confirmed oc | None \<Rightarrow> False)
     \<and> (case mr_decision r of Some d \<Rightarrow> ed_quantity d \<noteq> None | None \<Rightarrow> False)"

text \<open>The first step of a pass: the stop, and the report of a stop the venue does not hold.\<close>

definition move_stop ::
    "policy list \<Rightarrow> market_state \<Rightarrow> position_view \<Rightarrow> position_row \<Rightarrow> 's books
     \<Rightarrow> stop_proposal option \<times> position_view \<times> position_row \<times> 's books" where
  "move_stop ps m p row bk =
     (case best_stop ps p m of None \<Rightarrow> (None, p, row, bk)
      | Some b \<Rightarrow> let s = spp_modification b; row = row\<lparr>row_stop_loss := Some (sm_new_stop s)\<rparr> in
          (Some b, p\<lparr>pv_stop_loss := Some (sm_new_stop s)\<rparr>, row,
           record_change row ''stop_modified'' (sm_at s)
             (Ch_stop (sm_old_stop s) (sm_new_stop s) (sm_reason s) (spp_policy b)) bk))"

definition report_gap :: "market_state \<Rightarrow> position_view \<Rightarrow> position_row \<Rightarrow> 's books \<Rightarrow> 's books" where
  "report_gap m p row bk = (case protection_gap p of None \<Rightarrow> bk
     | Some (s, b) \<Rightarrow> record_change row ''protection_mismatch'' (mk_as_of m) (Ch_mismatch s b) bk)"

definition process ::
    "'s executor \<Rightarrow> policy list \<Rightarrow> (string \<Rightarrow> string option) \<Rightarrow> market_state \<Rightarrow> risk_context \<Rightarrow> rat option
     \<Rightarrow> position_row \<Rightarrow> 's books \<Rightarrow> (pm_exc + managed_result) \<times> position_row \<times> 's books" where
  "process ex ps codes m c floating row bk =
     (case NOT_ACTIONABLE (row_status row) of Some why \<Rightarrow> (Inr (skipped row why), row, bk) | None \<Rightarrow>
      if row_status row \<notin> set MANAGEABLE then (Inr (skipped row ''status is closed''), row, bk) else
      let (best, p, row, bk) = move_stop ps m (view_of row floating (codes (row_symbol_id row))) row bk;
          bk = report_gap m p row bk in
      case decide ps p m c of Inl e \<Rightarrow> (Inl (Policy_raised e), row, bk)
      | Inr None \<Rightarrow> (Inr \<lparr>mr_position_id = row_id row, mr_decision = None, mr_outcome = None,
                       mr_modification = best, mr_skipped = None\<rparr>, row, bk)
      | Inr (Some d) \<Rightarrow>
          let bk = record_change row ''exit_decided'' (ed_decided_at d)
                     (Ch_decided (ed_reason d) (ed_detail d) (ed_reference_price d) (row_mode row)) bk in
          (case act ex p m d row bk of
             (Inl e, row, bk) \<Rightarrow> (Inl e, row, bk)
           | (Inr oc, row, bk) \<Rightarrow> (Inr \<lparr>mr_position_id = row_id row, mr_decision = Some d, mr_outcome = Some oc,
                 mr_modification = best, mr_skipped = None\<rparr>, row, bk)))"

definition close_now ::
    "'s executor \<Rightarrow> (string \<Rightarrow> string option) \<Rightarrow> market_state \<Rightarrow> exit_decision
     \<Rightarrow> position_row \<Rightarrow> 's books \<Rightarrow> (pm_exc + managed_result) \<times> position_row \<times> 's books" where
  "close_now ex codes m d row bk =
     (let p = view_of row None (codes (row_symbol_id row));
          bk = record_change row ''exit_decided'' (ed_decided_at d)
             (Ch_decided_by_caller (ed_reason d) (ed_detail d) (ed_reference_price d) (ed_quantity d) (row_mode row)) bk
      in case act ex p m d row bk of
             (Inl e, row, bk) \<Rightarrow> (Inl e, row, bk)
           | (Inr oc, row, bk) \<Rightarrow> (Inr \<lparr>mr_position_id = row_id row, mr_decision = Some d, mr_outcome = Some oc,
                 mr_modification = None, mr_skipped = None\<rparr>, row, bk))"

section \<open>A sweep\<close>

text \<open>\<open>open_positions\<close>: the places of the manageable rows of a mode, oldest first.\<close>

definition open_positions :: "string option \<Rightarrow> position_row list \<Rightarrow> nat list" where
  "open_positions mode rows = sort_key (\<lambda>i. row_opened_at (rows ! i))
     (filter (\<lambda>i. row_status (rows ! i) \<in> set MANAGEABLE \<and> (case mode of None \<Rightarrow> True | Some x \<Rightarrow> row_mode (rows ! i) = x))
        [0..<length rows])"

text \<open>\<open>codes_for\<close>: the tradable codes of some rows, each with the first row that has it.\<close>

fun codes_for :: "(string \<Rightarrow> string option) \<Rightarrow> position_row list \<Rightarrow> (string \<times> position_row) list" where
  "codes_for codes [] = []"
| "codes_for codes (row # rows) = (let code = codes (row_symbol_id row) in
     if truthy code then (the code, row) # filter (\<lambda>x. fst x \<noteq> the code) (codes_for codes rows)
     else codes_for codes rows)"

text \<open>An exception ends the sweep; what the venue had been told by then stays told.\<close>

fun sweep_rows ::
    "'s executor \<Rightarrow> policy list \<Rightarrow> (string \<Rightarrow> string option) \<Rightarrow> (string \<rightharpoonup> market_state) \<Rightarrow> risk_context
     \<Rightarrow> (string \<rightharpoonup> rat) \<Rightarrow> nat list \<Rightarrow> position_row list \<Rightarrow> 's books
     \<Rightarrow> (pm_exc + managed_result list) \<times> position_row list \<times> 's books" where
  "sweep_rows ex ps codes quotes c floating [] rows bk = (Inr [], rows, bk)"
| "sweep_rows ex ps codes quotes c floating (i # is) rows bk =
     (let row = rows ! i; code = codes (row_symbol_id row);
          (r, row', bk') =
            (if \<not> truthy code then (Inr (skipped row ''symbol does not resolve''), row, bk)
             else case quotes (the code) of None \<Rightarrow> (Inr (skipped row ''no quote available''), row, bk)
             | Some m \<Rightarrow> process ex ps codes m c (floating (row_id row)) row bk)
      in case r of Inl e \<Rightarrow> (Inl e, rows[i := row'], bk')
         | Inr res \<Rightarrow> (case sweep_rows ex ps codes quotes c floating is (rows[i := row']) bk' of
             (Inl e, rest) \<Rightarrow> (Inl e, rest) | (Inr ress, rest) \<Rightarrow> (Inr (res # ress), rest)))"

definition run_once ::
    "'s executor \<Rightarrow> policy list \<Rightarrow> (string \<Rightarrow> string option) \<Rightarrow> (string \<rightharpoonup> market_state) \<Rightarrow> risk_context
     \<Rightarrow> string option \<Rightarrow> (string \<rightharpoonup> rat) \<Rightarrow> position_row list \<Rightarrow> 's books
     \<Rightarrow> (pm_exc + managed_result list) \<times> position_row list \<times> 's books" where
  "run_once ex ps codes quotes c mode floating rows bk =
     sweep_rows ex ps codes quotes c floating (open_positions mode rows) rows bk"

section \<open>The monitor and the operator\<close>

text \<open>
  \<open>PositionMonitor.tick\<close>: a sweep in a session of its own. \<open>run_once\<close> commits at its end, so a
  sweep that raises leaves the rows and the record as they were, while the venue keeps what it
  was told; the events are drained and handed on after the commit.
\<close>

definition tick ::
    "'s executor \<Rightarrow> policy list \<Rightarrow> (string \<Rightarrow> string option) \<Rightarrow> (string \<rightharpoonup> market_state) \<Rightarrow> risk_context
     \<Rightarrow> string option \<Rightarrow> (string \<rightharpoonup> rat) \<Rightarrow> position_row list \<Rightarrow> 's books
     \<Rightarrow> position_event_out list \<times> position_row list \<times> 's books" where
  "tick ex ps codes quotes c mode floating rows bk =
     (case run_once ex ps codes quotes c mode floating rows (bk\<lparr>bk_pending := []\<rparr>) of
        (Inl e, rows', bk') \<Rightarrow> ([], rows, bk\<lparr>bk_venue := bk_venue bk'\<rparr>)
      | (Inr res, rows', bk') \<Rightarrow>
          (let (events, bk'') = drain_position_events bk' in (events, rows', bk'')))"

text \<open>\<open>POST /positions/{id}/close\<close> (\<open>api/v1/positions.py\<close>): the guards of the body and of the
  route, then \<open>close_now\<close> and the commit. None is a refusal of the route.\<close>

definition operator_decision :: "market_state \<Rightarrow> position_row \<Rightarrow> rat option \<Rightarrow> int \<Rightarrow> string \<Rightarrow> exit_decision" where
  "operator_decision m row q places why = \<lparr>ed_reason = (if q = None then Strategy_exit else Partial_take_profit),
     ed_detail = D_caller why, ed_reference_price = exit_price m (row_side row = ''long''),
     ed_decided_at = mk_as_of m, ed_quantity = q, ed_places = places\<rparr>"

definition close_position_route ::
    "'s executor \<Rightarrow> (string \<Rightarrow> string option) \<Rightarrow> market_state option \<Rightarrow> rat option \<Rightarrow> int \<Rightarrow> string \<Rightarrow> nat
     \<Rightarrow> position_row list \<Rightarrow> 's books \<Rightarrow> ((pm_exc + managed_result) \<times> position_row list \<times> 's books) option" where
  "close_position_route ex codes quote q places why i rows bk =
     (let row = rows ! i in
      if (case q of Some x \<Rightarrow> x \<le> 0 | None \<Rightarrow> False) then None
      else if NOT_ACTIONABLE (row_status row) \<noteq> None then None
      else if row_status row \<notin> set MANAGEABLE then None
      else if (case q of Some x \<Rightarrow> row_quantity row < x | None \<Rightarrow> False) then None
      else (case quote of None \<Rightarrow> None | Some m \<Rightarrow>
        (case close_now ex codes m (operator_decision m row q places why) row bk of
          (Inl e, row', bk') \<Rightarrow> Some (Inl e, rows, bk\<lparr>bk_venue := bk_venue bk'\<rparr>)
        | (Inr r, row', bk') \<Rightarrow> Some (Inr r, rows[i := row'], bk'))))"

end
