(* ===== verification/Position_Props.thy ===== *)
theory Position_Props
  imports Position_Manager
begin

text \<open>
  What the position manager keeps. The lemmas describe the best stop, the four ways acting on a
  decision can end (\<open>act_cases\<close>) and a pass over one position (\<open>process_cases\<close>). The locale
  \<open>row_contract\<close> lifts a relation between a row before and after a pass or a close, and between the
  states of the venue, to sweeps and to any run of sweeps and operator closes; it is interpreted
  for the stops, for the quantities and for the positions that a pass leaves alone. The properties
  follow from its facts.
\<close>

section \<open>The best stop\<close>

lemma propose_fold:
  "foldl (\<lambda>best x. propose l best (f x) (n x)) b0 xs = Some b \<Longrightarrow>
     (b0 = Some b \<or> (\<exists>x \<in> set xs. f x = Some (spp_modification b)))
   \<and> (\<forall>c. b0 = Some c \<longrightarrow> \<not> tighter l (sm_new_stop (spp_modification c)) (sm_new_stop (spp_modification b)))
   \<and> (\<forall>x \<in> set xs. \<forall>s. f x = Some s \<longrightarrow> \<not> tighter l (sm_new_stop s) (sm_new_stop (spp_modification b)))"
proof (induction xs arbitrary: b0)
  case Nil
  then show ?case by (auto simp: tighter_def)
next
  case (Cons x xs)
  from Cons.IH [of "propose l b0 (f x) (n x)"] Cons.prems show ?case
    by (cases "f x"; cases b0) (auto simp: propose_def tighter_def split: if_splits)
qed

lemma propose_fold_None:
  "foldl (\<lambda>best x. propose l best (f x) (n x)) b0 xs = None \<longleftrightarrow> b0 = None \<and> (\<forall>x \<in> set xs. f x = None)"
  by (induction xs arbitrary: b0) (auto simp: propose_def split: option.splits)

lemma proposer_moves: "proposed_stop x p m = Some s \<Longrightarrow> moves_stops x"
  by (cases x) simp_all

lemma best_stop_Some:
  assumes "best_stop ps p m = Some b"
  shows "\<exists>x \<in> set ps. proposed_stop x p m = Some (spp_modification b)"
    and "\<And>x s. x \<in> set ps \<Longrightarrow> proposed_stop x p m = Some s
      \<Longrightarrow> \<not> tighter (is_long p) (sm_new_stop s) (sm_new_stop (spp_modification b))"
  using propose_fold [OF assms [unfolded best_stop_def]] proposer_moves
  by (auto simp: stop_movers_def)

lemma best_stop_None: "best_stop ps p m = None \<longleftrightarrow> (\<forall>x \<in> set ps. proposed_stop x p m = None)"
  unfolding best_stop_def propose_fold_None
  by (auto simp: stop_movers_def) (metis not_None_eq proposer_moves)

lemma best_stop_improves:
  "best_stop ps p m = Some b \<Longrightarrow> improves p (sm_new_stop (spp_modification b))"
  using best_stop_Some(1) proposed_stop_improves by blast

lemma best_stop_same_value:
  assumes "best_stop ps p m = Some b" "best_stop qs p m = Some b'" "set ps = set qs"
  shows "sm_new_stop (spp_modification b) = sm_new_stop (spp_modification b')"
  using best_stop_Some [OF assms(1)] best_stop_Some [OF assms(2)] assms(3)
  by (force simp: tighter_def split: if_splits)

section \<open>Acting\<close>

lemma act_cases:
  obtains (Raised) e s where "ex p m d (bk_venue bk) = (Inl e, s)"
      "act ex p m d row bk = (Inl (Executor_raised e), row, bk\<lparr>bk_venue := s\<rparr>)"
  | (Booked) oc fill s where "ex p m d (bk_venue bk) = (Inr oc, s)" "co_status oc = C_confirmed" "co_fill_price oc = Some fill"
      "fst (act ex p m d row bk) = Inr oc" "fst (snd (act ex p m d row bk)) = book_close row d oc fill"
      "bk_venue (snd (snd (act ex p m d row bk))) = s"
  | (Parked) oc oc' s where "ex p m d (bk_venue bk) = (Inr oc, s)"
      "co_status oc = C_unknown \<or> co_status oc = C_confirmed \<and> co_fill_price oc = None"
      "fst (act ex p m d row bk) = Inr oc'" "co_status oc' = C_unknown"
      "fst (snd (act ex p m d row bk)) = row\<lparr>row_status := P_unknown\<rparr>"
      "bk_venue (snd (snd (act ex p m d row bk))) = s"
  | (Refused) oc s where "ex p m d (bk_venue bk) = (Inr oc, s)" "co_status oc = C_rejected"
      "fst (act ex p m d row bk) = Inr oc" "fst (snd (act ex p m d row bk)) = row"
      "bk_venue (snd (snd (act ex p m d row bk))) = s"
proof -
  obtain a s where a: "ex p m d (bk_venue bk) = (a, s)" by fastforce
  show thesis
  proof (cases a)
    case (Inl e)
    with a show thesis by (intro Raised [of e s]) (simp_all add: act_def)
  next
    case (Inr oc)
    show thesis
    proof (cases "co_status oc")
      case C_confirmed
      show thesis
      proof (cases "co_fill_price oc")
        case None
        with C_confirmed a Inr show thesis
          by (intro Parked [of oc s "no_fill C_unknown C_no_price (co_fill_source oc)"])
             (simp_all add: act_def Let_def record_change_def no_fill_def)
      next
        case (Some fill)
        with C_confirmed a Inr show thesis
          by (intro Booked [of oc s fill]) (simp_all add: act_def Let_def record_change_def)
      qed
    next
      case C_rejected
      with a Inr show thesis by (intro Refused [of oc s]) (simp_all add: act_def Let_def record_change_def)
    next
      case C_unknown
      with a Inr show thesis by (intro Parked [of oc s oc]) (simp_all add: act_def Let_def record_change_def)
    qed
  qed
qed

section \<open>One pass over one position\<close>

definition moved :: "policy list \<Rightarrow> market_state \<Rightarrow> rat option \<Rightarrow> string option \<Rightarrow> position_row \<Rightarrow> position_row" where
  "moved ps m floating code row = (case best_stop ps (view_of row floating code) m of None \<Rightarrow> row
     | Some b \<Rightarrow> row\<lparr>row_stop_loss := Some (sm_new_stop (spp_modification b))\<rparr>)"

lemma record_change_venue [simp]: "bk_venue (record_change row k t ch bk) = bk_venue bk"
  by (simp add: record_change_def)

lemma report_gap_venue [simp]: "bk_venue (report_gap m p row bk) = bk_venue bk"
  by (auto simp: report_gap_def split: option.splits)

lemma move_stop_eq:
  "\<exists>bk'. move_stop ps m (view_of row f code) row bk =
     (best_stop ps (view_of row f code) m, view_of (moved ps m f code row) f code, moved ps m f code row, bk')
     \<and> bk_venue bk' = bk_venue bk"
  by (auto simp: move_stop_def moved_def view_of_def Let_def split: option.splits)

lemma manageable_actionable: "row_status row \<in> set MANAGEABLE \<Longrightarrow> NOT_ACTIONABLE (row_status row) = None"
  by (auto simp: MANAGEABLE_def)

lemma moved_status [simp]: "row_status (moved ps m f code row) = row_status row"
  and moved_id [simp]: "row_id (moved ps m f code row) = row_id row"
  and moved_quantity [simp]: "row_quantity (moved ps m f code row) = row_quantity row"
  and moved_closed [simp]: "row_closed_quantity (moved ps m f code row) = row_closed_quantity row"
  and moved_initial [simp]: "row_initial_quantity (moved ps m f code row) = row_initial_quantity row"
  and moved_places [simp]: "row_places (moved ps m f code row) = row_places row"
  and moved_side [simp]: "row_side (moved ps m f code row) = row_side row"
  by (simp_all add: moved_def split: option.splits)

lemma process_cases:
  fixes row :: position_row and codes :: "string \<Rightarrow> string option" and ps m f c
  defines "code \<equiv> codes (row_symbol_id row)"
  defines "row1 \<equiv> moved ps m f code row"
  defines "p1 \<equiv> view_of row1 f code"
  obtains (Skipped) why where "row_status row \<notin> set MANAGEABLE"
      "process ex ps codes m c f row bk = (Inr (skipped row why), row, bk)"
  | (Policy) e bk' where "row_status row \<in> set MANAGEABLE" "decide ps p1 m c = Inl e"
      "process ex ps codes m c f row bk = (Inl (Policy_raised e), row1, bk')" "bk_venue bk' = bk_venue bk"
  | (Held) bk' where "row_status row \<in> set MANAGEABLE" "decide ps p1 m c = Inr None"
      "process ex ps codes m c f row bk = (Inr \<lparr>mr_position_id = row_id row, mr_decision = None, mr_outcome = None,
         mr_modification = best_stop ps (view_of row f code) m, mr_skipped = None\<rparr>, row1, bk')"
      "bk_venue bk' = bk_venue bk"
  | (Acts) d bk0 where "row_status row \<in> set MANAGEABLE" "decide ps p1 m c = Inr (Some d)" "bk_venue bk0 = bk_venue bk"
      "snd (process ex ps codes m c f row bk) = snd (act ex p1 m d row1 bk0)"
      "\<And>e. fst (act ex p1 m d row1 bk0) = Inl e \<Longrightarrow> fst (process ex ps codes m c f row bk) = Inl e"
      "\<And>oc. fst (act ex p1 m d row1 bk0) = Inr oc \<Longrightarrow>
         \<exists>r. fst (process ex ps codes m c f row bk) = Inr r \<and> mr_decision r = Some d \<and> mr_outcome r = Some oc"
proof (cases "row_status row \<in> set MANAGEABLE")
  case False
  then show thesis
    by (cases "NOT_ACTIONABLE (row_status row)") (auto simp: process_def intro: Skipped)
next
  case True
  obtain bk1 where ms: "move_stop ps m (view_of row f code) row bk =
      (best_stop ps (view_of row f code) m, p1, row1, bk1)" and v1: "bk_venue bk1 = bk_venue bk"
    using move_stop_eq [of ps m row f code bk] unfolding p1_def row1_def by blast
  note unf = process_def code_def [symmetric] manageable_actionable [OF True] ms
  show thesis
  proof (cases "decide ps p1 m c")
    case (Inl e)
    then show thesis using True v1 by (intro Policy [of e "report_gap m p1 row1 bk1"]) (simp_all add: unf)
  next
    case (Inr od)
    show thesis
    proof (cases od)
      case None
      then show thesis using True v1 Inr
        by (intro Held [of "report_gap m p1 row1 bk1"]) (simp_all add: unf row1_def)
    next
      case (Some d)
      let ?bk0 = "record_change row1 ''exit_decided'' (ed_decided_at d)
           (Ch_decided (ed_reason d) (ed_detail d) (ed_reference_price d) (row_mode row1)) (report_gap m p1 row1 bk1)"
      obtain a row2 bk2 where a: "act ex p1 m d row1 ?bk0 = (a, row2, bk2)" by (metis prod_cases3)
      show thesis
        by (intro Acts [of d ?bk0]) (use True v1 Inr Some a in \<open>auto simp: unf split: sum.splits\<close>)
    qed
  qed
qed

section \<open>Sweeps\<close>

lemma sweep_rows_frame:
  "sweep_rows ex ps codes quotes c fl is rows bk = (r, rows', bk') \<Longrightarrow>
     length rows' = length rows \<and> (\<forall>j. j \<notin> set is \<longrightarrow> rows' ! j = rows ! j)"
proof (induction "is" arbitrary: rows bk r rows' bk')
  case (Cons i "is")
  then show ?case by (force simp: Let_def split: prod.splits sum.splits if_splits option.splits)
qed simp

lemma set_open_positions:
  "i \<in> set (open_positions mode rows) \<longleftrightarrow> i < length rows \<and> row_status (rows ! i) \<in> set MANAGEABLE
     \<and> (case mode of None \<Rightarrow> True | Some x \<Rightarrow> row_mode (rows ! i) = x)"
  by (auto simp: open_positions_def)

section \<open>Any run of sweeps and operator closes\<close>

text \<open>
  A step is a sweep of the monitor, with any policies, quotes and context, or a close asked for by
  an operator, of an amount that the column of the quantity can hold.
\<close>

inductive pstep ::
    "'s executor \<Rightarrow> (string \<Rightarrow> string option) \<Rightarrow> position_row list \<times> 's books \<Rightarrow> position_row list \<times> 's books \<Rightarrow> bool"
  for ex codes where
  by_tick: "tick ex ps codes quotes c mode fl rows bk = (ev, rows', bk') \<Longrightarrow> pstep ex codes (rows, bk) (rows', bk')"
| by_operator: "i < length rows \<Longrightarrow> close_position_route ex codes quote q pl why i rows bk = Some (r, rows', bk')
     \<Longrightarrow> (\<And>x. q = Some x \<Longrightarrow> on_grid 8 x) \<Longrightarrow> pstep ex codes (rows, bk) (rows', bk')"

lemma close_now_cases:
  fixes row :: position_row and codes :: "string \<Rightarrow> string option"
  defines "p \<equiv> view_of row None (codes (row_symbol_id row))"
  obtains bk0 where "bk_venue bk0 = bk_venue bk"
      "snd (close_now ex codes m d row bk) = snd (act ex p m d row bk0)"
      "\<And>e. fst (act ex p m d row bk0) = Inl e \<Longrightarrow> fst (close_now ex codes m d row bk) = Inl e"
      "\<And>oc. fst (act ex p m d row bk0) = Inr oc \<Longrightarrow> \<exists>r. fst (close_now ex codes m d row bk) = Inr r
         \<and> mr_decision r = Some d \<and> mr_outcome r = Some oc"
proof -
  let ?bk0 = "record_change row ''exit_decided'' (ed_decided_at d)
     (Ch_decided_by_caller (ed_reason d) (ed_detail d) (ed_reference_price d) (ed_quantity d) (row_mode row)) bk"
  obtain a row2 bk2 where a: "act ex p m d row ?bk0 = (a, row2, bk2)" by (metis prod_cases3)
  show thesis
    by (rule that [of ?bk0]) (use a in \<open>auto simp: close_now_def p_def split: sum.splits\<close>)
qed

lemma route_cases:
  assumes "close_position_route ex codes quote q pl why i rows bk = Some (r, rows', bk')"
  obtains m r1 row1 bk1 where "quote = Some m" "row_status (rows ! i) \<in> set MANAGEABLE"
    "\<And>x. q = Some x \<Longrightarrow> 0 < x \<and> x \<le> row_quantity (rows ! i)"
    "close_now ex codes m (operator_decision m (rows ! i) q pl why) (rows ! i) bk = (r1, row1, bk1)"
    "bk_venue bk' = bk_venue bk1" "rows' = rows \<or> (rows' = rows[i := row1] \<and> bk' = bk1)"
proof -
  let ?row = "rows ! i"
  have g: "row_status ?row \<in> set MANAGEABLE" "\<And>x. q = Some x \<Longrightarrow> 0 < x \<and> x \<le> row_quantity ?row"
    using assms by (auto simp: close_position_route_def Let_def split: if_splits option.splits)
  from assms obtain m where q: "quote = Some m"
    by (auto simp: close_position_route_def Let_def split: if_splits option.splits)
  obtain r1 row1 bk1 where cn: "close_now ex codes m (operator_decision m ?row q pl why) ?row bk = (r1, row1, bk1)"
    by (metis prod_cases3)
  have "bk_venue bk' = bk_venue bk1 \<and> (rows' = rows \<or> (rows' = rows[i := row1] \<and> bk' = bk1))"
    using assms q cn g(1)
    by (cases r1) (auto simp: close_position_route_def Let_def split: if_splits option.splits)
  with that [OF q g cn] show thesis by blast
qed

section \<open>The contract of a pass\<close>

text \<open>
  What a property of the rows and of the venue needs: a relation \<open>R\<close> between a row and the row
  after a pass or a close, and a relation \<open>V\<close> between the states of the venue. Both are then
  established by sweeps and by any run of sweeps and closes.
\<close>

locale row_contract =
  fixes ex :: "'s executor" and codes :: "string \<Rightarrow> string option" and G :: "position_row \<Rightarrow> bool"
    and R :: "position_row \<Rightarrow> position_row \<Rightarrow> bool" and V :: "'s \<Rightarrow> 's \<Rightarrow> bool"
  assumes pass: "G row \<Longrightarrow> R row (fst (snd (process ex ps codes m c f row bk)))
      \<and> V (bk_venue bk) (bk_venue (snd (snd (process ex ps codes m c f row bk))))"
    and close: "G row \<Longrightarrow> row_status row \<in> set MANAGEABLE \<Longrightarrow>
        (\<And>x. q = Some x \<Longrightarrow> 0 < x \<and> x \<le> row_quantity row \<and> on_grid 8 x) \<Longrightarrow>
        R row (fst (snd (close_now ex codes m (operator_decision m row q pl why) row bk)))
      \<and> V (bk_venue bk) (bk_venue (snd (snd (close_now ex codes m (operator_decision m row q pl why) row bk))))"
    and kept: "G row \<Longrightarrow> R row row' \<Longrightarrow> G row'"
    and R_refl: "G row \<Longrightarrow> R row row" and R_trans: "R a b \<Longrightarrow> R b d \<Longrightarrow> R a d"
    and V_refl: "V s s" and V_trans: "V s t \<Longrightarrow> V t u \<Longrightarrow> V s u"
begin

text \<open>The relation between the rows and the venue before and after.\<close>

definition related :: "position_row list \<times> 's \<Rightarrow> position_row list \<times> 's \<Rightarrow> bool" where
  "related s s' \<longleftrightarrow> list_all2 R (fst s) (fst s') \<and> V (snd s) (snd s')"

lemma related_refl: "list_all G rows \<Longrightarrow> related (rows, s) (rows, s)"
  by (auto simp: related_def V_refl list_all_iff intro: R_refl list.rel_refl_strong)

lemma related_trans:
  assumes "related s t" "related t u"
  shows "related s u"
proof -
  have "R (fst s ! i) (fst u ! i)" if "i < length (fst s)" for i
    by (rule R_trans [of _ "fst t ! i"]) (use assms that in \<open>auto simp: related_def list_all2_conv_all_nth\<close>)
  moreover have "V (snd s) (snd u)" by (rule V_trans [of _ "snd t"]) (use assms in \<open>auto simp: related_def\<close>)
  ultimately show ?thesis using assms by (simp add: related_def list_all2_conv_all_nth)
qed

lemma related_kept: "related s s' \<Longrightarrow> list_all G (fst s) \<Longrightarrow> list_all G (fst s')"
  by (auto simp: related_def list_all_length list_all2_conv_all_nth intro: kept)

lemma related_update:
  assumes "list_all G rows" "R (rows ! i) row'" "V s s'"
  shows "related (rows, s) (rows[i := row'], s')"
proof -
  have "list_all2 R rows rows" using assms(1) by (auto simp: list_all_iff intro: R_refl list.rel_refl_strong)
  then have "R (rows ! j) (rows[i := row'] ! j)" if "j < length rows" for j
    using assms(2) that by (cases "j = i") (auto simp: list_all2_conv_all_nth)
  then have "list_all2 R rows (rows[i := row'])" by (simp add: list_all2_conv_all_nth)
  with assms(3) show ?thesis by (simp add: related_def)
qed

lemma sweep:
  assumes "sweep_rows ex ps codes quotes c fl is rows bk = (r, rows', bk')"
    and "\<forall>i \<in> set is. i < length rows" "list_all G rows"
  shows "related (rows, bk_venue bk) (rows', bk_venue bk')"
  using assms
proof (induction "is" arbitrary: rows bk r rows' bk')
  case Nil
  with related_refl show ?case by simp
next
  case (Cons i "is")
  let ?row = "rows ! i"
  obtain r1 row1 bk1 where one: "(let code = codes (row_symbol_id ?row) in
            (if \<not> truthy code then (Inr (skipped ?row ''symbol does not resolve''), ?row, bk)
             else case quotes (the code) of None \<Rightarrow> (Inr (skipped ?row ''no quote available''), ?row, bk)
             | Some m \<Rightarrow> process ex ps codes m c (fl (row_id ?row)) ?row bk)) = (r1, row1, bk1)"
    by (metis prod_cases3)
  have g: "G ?row" using Cons.prems(2,3) by (simp add: list_all_length)
  have "R ?row row1 \<and> V (bk_venue bk) (bk_venue bk1)"
    using one R_refl [OF g] V_refl
    by (auto simp: Let_def split: if_splits option.splits) (metis pass [OF g] fst_conv snd_conv)+
  then have st: "related (rows, bk_venue bk) (rows[i := row1], bk_venue bk1)"
    by (intro related_update [OF Cons.prems(3)]) auto
  show ?case
  proof (cases r1)
    case (Inl e)
    then have "rows' = rows[i := row1]" "bk' = bk1"
      using Cons.prems(1) one by (auto simp: Let_def)
    with st show ?thesis by simp
  next
    case (Inr res)
    then obtain r2 where rest: "sweep_rows ex ps codes quotes c fl is (rows[i := row1]) bk1 = (r2, rows', bk')"
      using Cons.prems(1) one by (auto simp: Let_def split: sum.splits prod.splits)
    have "related (rows[i := row1], bk_venue bk1) (rows', bk_venue bk')"
      by (rule Cons.IH [OF rest]) (use Cons.prems(2) related_kept [OF st] Cons.prems(3) in auto)
    with st show ?thesis by (rule related_trans)
  qed
qed

lemma tick_step:
  assumes "tick ex ps codes quotes c mode fl rows bk = (ev, rows', bk')" "list_all G rows"
  shows "related (rows, bk_venue bk) (rows', bk_venue bk')"
proof -
  let ?bk = "bk\<lparr>bk_pending := []\<rparr>"
  obtain r rows1 bk1 where one: "run_once ex ps codes quotes c mode fl rows ?bk = (r, rows1, bk1)"
    by (metis prod_cases3)
  have "related (rows, bk_venue ?bk) (rows1, bk_venue bk1)"
    using one unfolding run_once_def by (rule sweep) (use assms(2) in \<open>simp_all add: set_open_positions\<close>)
  then have "related (rows, bk_venue bk) (rows1, bk_venue bk1)" "related (rows, bk_venue bk) (rows, bk_venue bk1)"
    using related_refl [OF assms(2), of "bk_venue bk"] by (simp_all add: related_def)
  then show ?thesis using assms(1) one
    by (auto simp: tick_def drain_position_events_def Let_def split: sum.splits)
qed

lemma operator_step:
  assumes "i < length rows" "close_position_route ex codes quote q pl why i rows bk = Some (r, rows', bk')"
    and "\<And>x. q = Some x \<Longrightarrow> on_grid 8 x" "list_all G rows"
  shows "related (rows, bk_venue bk) (rows', bk_venue bk')"
proof -
  from route_cases [OF assms(2)] obtain m r1 row1 bk1 where
    g: "row_status (rows ! i) \<in> set MANAGEABLE" "\<And>x. q = Some x \<Longrightarrow> 0 < x \<and> x \<le> row_quantity (rows ! i)"
    and cn: "close_now ex codes m (operator_decision m (rows ! i) q pl why) (rows ! i) bk = (r1, row1, bk1)"
    and v: "bk_venue bk' = bk_venue bk1" and rows': "rows' = rows \<or> rows' = rows[i := row1]" by metis
  have "G (rows ! i)" using assms(1,4) by (simp add: list_all_length)
  then have rv: "R (rows ! i) row1 \<and> V (bk_venue bk) (bk_venue bk1)"
    using close [OF _ g(1), of q m pl why bk] g(2) assms(3) cn by simp
  then have "related (rows, bk_venue bk) (rows[i := row1], bk_venue bk1)"
    by (intro related_update [OF assms(4)]) auto
  moreover have "related (rows, bk_venue bk) (rows, bk_venue bk1)"
    using related_refl [OF assms(4), of "bk_venue bk"] rv by (simp add: related_def)
  ultimately show ?thesis using rows' v by auto
qed

lemma steps:
  assumes "(pstep ex codes)\<^sup>*\<^sup>* (rows, bk) (rows', bk')" "list_all G rows"
  shows "related (rows, bk_venue bk) (rows', bk_venue bk')"
  using assms(1)
proof (induction rule: rtranclp_induct2)
  case refl
  show ?case by (rule related_refl) (rule assms(2))
next
  case (step rows1 bk1 rows2 bk2)
  have g: "list_all G rows1" using related_kept [OF step.IH] assms(2) by simp
  from step.hyps(2) have "related (rows1, bk_venue bk1) (rows2, bk_venue bk2)"
  proof cases
    case by_tick
    then show ?thesis by (rule tick_step) (rule g)
  next
    case by_operator
    then show ?thesis by (intro operator_step [OF by_operator(1,2)]) (use g in auto)
  qed
  with step.IH show ?case by (rule related_trans)
qed

lemma row_steps:
  assumes "(pstep ex codes)\<^sup>*\<^sup>* (rows, bk) (rows', bk')" "list_all G rows" "i < length rows"
  shows "R (rows ! i) (rows' ! i)" "length rows' = length rows"
  using steps [OF assms(1,2)] assms(3) by (auto simp: related_def list_all2_conv_all_nth)

end

section \<open>Stops only tighten\<close>

definition stop_kept :: "position_row \<Rightarrow> position_row \<Rightarrow> bool" where
  "stop_kept row row' \<longleftrightarrow> row_id row' = row_id row \<and> row_side row' = row_side row
     \<and> (case row_stop_loss row of None \<Rightarrow> True | Some old \<Rightarrow>
          (case row_stop_loss row' of None \<Rightarrow> False | Some new \<Rightarrow> new = old \<or> tighter (row_side row = ''long'') new old))"

lemma stop_kept_refl: "stop_kept row row"
  by (auto simp: stop_kept_def split: option.splits)

lemma stop_kept_trans: "stop_kept a b \<Longrightarrow> stop_kept b c \<Longrightarrow> stop_kept a c"
  by (auto simp: stop_kept_def tighter_def split: option.splits if_splits)

lemma stop_kept_moved: "stop_kept row (moved ps m f code row)"
  using best_stop_improves [of ps "view_of row f code" m]
  by (auto simp: stop_kept_def moved_def improves_def view_of_def is_long_def split: option.splits)

lemma book_close_frame [simp]:
  "row_id (book_close row d oc fill) = row_id row"
  "row_side (book_close row d oc fill) = row_side row"
  "row_stop_loss (book_close row d oc fill) = row_stop_loss row"
  "row_places (book_close row d oc fill) = row_places row"
  by (simp_all add: book_close_def reduce_by_def add_money_def backfilled_def Let_def split: option.splits)

lemma stop_kept_act: "stop_kept row (fst (snd (act ex p m d row bk)))"
proof (cases rule: act_cases [of ex p m d bk row])
  case (Raised e s)
  then show ?thesis by (simp add: stop_kept_refl)
next
  case (Booked oc fill s)
  show ?thesis unfolding Booked(5) by (auto simp: stop_kept_def split: option.splits)
next
  case (Parked oc oc' s)
  show ?thesis unfolding Parked(5) by (auto simp: stop_kept_def split: option.splits)
qed (simp add: stop_kept_refl)

interpretation stops: row_contract ex codes "\<lambda>_. True" stop_kept "\<lambda>_ _. True" for ex codes
proof
  fix row ps m c f bk
  show "stop_kept row (fst (snd (process ex ps codes m c f row bk))) \<and> True"
    by (cases rule: process_cases [where row = row and codes = codes and ps = ps and m = m and f = f and c = c and ex = ex and bk = bk])
       (simp_all add: stop_kept_refl stop_kept_moved stop_kept_trans [OF stop_kept_moved stop_kept_act])
next
  fix m q pl why row bk
  show "stop_kept row (fst (snd (close_now ex codes m (operator_decision m row q pl why) row bk))) \<and> True"
    by (cases rule: close_now_cases [where row = row and codes = codes and m = m and ex = ex and bk = bk and d = "operator_decision m row q pl why"])
       (simp add: stop_kept_act)
qed (auto intro: stop_kept_refl stop_kept_trans)

section \<open>Quantities\<close>

definition row_inv :: "position_row \<Rightarrow> bool" where
  "row_inv row \<longleftrightarrow> row_places row = 8 \<and> on_grid 8 (row_quantity row) \<and> on_grid 8 (row_closed_quantity row)
   \<and> 0 \<le> row_quantity row \<and> 0 \<le> row_closed_quantity row \<and> row_quantity row + row_closed_quantity row \<le> 10 ^ 10
   \<and> (row_initial_quantity row = row_quantity row + row_closed_quantity row
      \<or> row_initial_quantity row = 0 \<and> row_closed_quantity row = 0)
   \<and> (row_status row \<in> set MANAGEABLE \<longrightarrow> 0 < row_quantity row)
   \<and> (row_status row = P_closed \<longrightarrow> row_quantity row = 0)
   \<and> (row_status row = P_partially_closed \<longrightarrow> 0 < row_closed_quantity row)"

lemma quantize_grid:
  assumes "quantize rhe 8 x = Some w"
  shows "on_grid 8 w" "\<bar>w\<bar> < 10 ^ 20"
proof -
  let ?c = "rhe (x * p10 8)"
  have w: "w = of_int ?c / 10 ^ 8" and c: "\<bar>?c\<bar> < 10 ^ 28"
    using assms by (auto simp: quantize_def Let_def p10_minus p10_nat [of 8, simplified] split: if_splits)
  show "on_grid 8 w" unfolding on_grid_def w using c by (intro exI [of _ ?c]) simp
  have "\<bar>of_int ?c :: rat\<bar> < of_int (10 ^ 28)" using c by (simp only: of_int_less_iff flip: of_int_abs)
  then show "\<bar>w\<bar> < 10 ^ 20" unfolding w by (simp add: abs_divide field_simps)
qed

lemma grid8_exact:
  assumes "on_grid 8 x" "on_grid 8 y"
  shows "\<bar>x - y\<bar> \<le> 10 ^ 20 \<Longrightarrow> dsub x y = x - y \<and> on_grid 8 (x - y)"
    and "\<bar>x + y\<bar> \<le> 10 ^ 20 \<Longrightarrow> dadd x y = x + y \<and> on_grid 8 (x + y)"
  using on_grid_sub_exact [OF assms] on_grid_add_exact [OF assms] by simp_all

text \<open>The amount of a decision is missing (all of it), or a positive part of what is open.\<close>

lemma partial_amount:
  assumes "partial_evaluate s p m = Inr (Some d)" "pv_places p = 8" "on_grid 8 (pv_quantity p)"
    "on_grid 8 (pv_closed_quantity p)" "0 \<le> pv_closed_quantity p" "pv_closed_quantity p \<le> 10 ^ 10"
  obtains q level w where "ed_quantity d = Some q" "0 < q" "q \<le> pv_quantity p" "on_grid 8 q"
    "pt_level s = Some level" "target_hit p m level" "0 < pt_fraction s" "pt_fraction s < 1"
    "quantize rhe 8 (dmul (initial_of p) (pt_fraction s)) = Some w" "0 < w" "pv_closed_quantity p < w"
    "q = min (pv_quantity p) (w - pv_closed_quantity p)" "ed_reason d = Partial_take_profit"
proof -
  from assms(1,2) obtain level w where l: "pt_level s = Some level" "target_hit p m level" "0 < pt_fraction s" "pt_fraction s < 1"
    and w: "quantize rhe 8 (dmul (initial_of p) (pt_fraction s)) = Some w" "0 < w" "pv_closed_quantity p < w"
    and q: "(if pv_quantity p < dsub w (pv_closed_quantity p) then pv_quantity p else dsub w (pv_closed_quantity p)) > 0"
      "ed_quantity d = Some (if pv_quantity p < dsub w (pv_closed_quantity p) then pv_quantity p
         else dsub w (pv_closed_quantity p))" "ed_reason d = Partial_take_profit"
    by (auto simp: partial_evaluate_def exit_at_market_def Let_def not_le
        split: option.splits if_splits)
  have "\<bar>w - pv_closed_quantity p\<bar> \<le> 10 ^ 20"
    using quantize_grid [OF w(1)] w(2,3) assms(5) by simp
  from grid8_exact(1) [OF quantize_grid(1) [OF w(1)] assms(4) this]
  have e: "dsub w (pv_closed_quantity p) = w - pv_closed_quantity p" "on_grid 8 (w - pv_closed_quantity p)" by simp_all
  show thesis
    by (rule that [of "min (pv_quantity p) (w - pv_closed_quantity p)" level w])
       (use l w q e assms(3) in \<open>auto simp: min_def not_less split: if_splits\<close>)
qed

lemma whole_amount: "evaluate_policy x p m c = Inr (Some d) \<Longrightarrow> (\<And>s. x \<noteq> PartialTakeProfit s) \<Longrightarrow> ed_quantity d = None"
  by (cases x) (auto simp: emergency_evaluate_def risk_evaluate_def stop_evaluate_def target_evaluate_def
      time_evaluate_def strategy_evaluate_def exit_at_market_def Let_def split: if_splits option.splits)

lemma decide_Some:
  assumes "decide ps p m c = Inr (Some d)"
  obtains x where "x \<in> set ps" "evaluate_policy x p m c = Inr (Some d)"
  using assms
proof (cases rule: decide_cases)
  case (2 f d')
  then show thesis using by_reason_from [OF 2(1) 2(3)] that by auto
qed simp

lemma decided_amount:
  assumes "decide ps (view_of row f code) m c = Inr (Some d)" "row_inv row" "ed_quantity d = Some q"
  shows "0 < q \<and> q \<le> row_quantity row \<and> on_grid 8 q"
proof -
  from decide_Some [OF assms(1)] obtain x where x: "evaluate_policy x (view_of row f code) m c = Inr (Some d)" .
  then obtain s where "x = PartialTakeProfit s" using whole_amount assms(3) by fastforce
  with x have pe: "partial_evaluate s (view_of row f code) m = Inr (Some d)" by simp
  show ?thesis
    by (rule partial_amount [OF pe]) (use assms(2,3) in \<open>auto simp: row_inv_def view_of_def\<close>)
qed

lemma book_close_parts:
  "row_quantity (book_close row d oc fill) = dsub (row_quantity row) (closed_now row d)"
  "row_closed_quantity (book_close row d oc fill) = dadd (row_closed_quantity row) (closed_now row d)"
  "row_initial_quantity (book_close row d oc fill) = row_initial_quantity (backfilled row)"
  "row_status (book_close row d oc fill) =
     (if dsub (row_quantity row) (closed_now row d) \<le> 0 then P_closed else P_partially_closed)"
proof -
  have "closed_now (backfilled row) d = closed_now row d"
    by (auto simp: closed_now_def backfilled_def Let_def split: option.splits)
  then show "row_quantity (book_close row d oc fill) = dsub (row_quantity row) (closed_now row d)"
    "row_closed_quantity (book_close row d oc fill) = dadd (row_closed_quantity row) (closed_now row d)"
    "row_initial_quantity (book_close row d oc fill) = row_initial_quantity (backfilled row)"
    "row_status (book_close row d oc fill) =
     (if dsub (row_quantity row) (closed_now row d) \<le> 0 then P_closed else P_partially_closed)"
    by (simp_all add: book_close_def reduce_by_def add_money_def backfilled_def Let_def split: option.splits)
qed

lemma book_close_inv:
  assumes inv: "row_inv row" and man: "row_status row \<in> set MANAGEABLE"
    and q: "\<And>q. ed_quantity d = Some q \<Longrightarrow> 0 < q \<and> q \<le> row_quantity row \<and> on_grid 8 q"
  defines "n \<equiv> (case ed_quantity d of Some q \<Rightarrow> q | None \<Rightarrow> row_quantity row)"
  shows "row_inv (book_close row d oc fill)"
    and "row_quantity (book_close row d oc fill) = row_quantity row - n"
    and "row_closed_quantity (book_close row d oc fill) = row_closed_quantity row + n"
    and "row_initial_quantity (book_close row d oc fill) = row_quantity row + row_closed_quantity row"
    and "row_status (book_close row d oc fill) = (if n = row_quantity row then P_closed else P_partially_closed)"
proof -
  note i = inv [unfolded row_inv_def]
  have pos: "0 < row_quantity row" using i man by blast
  have n: "0 < n" "n \<le> row_quantity row" "on_grid 8 n"
    using q i pos by (auto simp: n_def split: option.splits)
  have b: "\<bar>row_quantity row - n\<bar> \<le> 10 ^ 20" "\<bar>row_closed_quantity row + n\<bar> \<le> 10 ^ 20"
    "\<bar>row_quantity row + row_closed_quantity row\<bar> \<le> 10 ^ 20"
    using i n(1,2) by auto
  have sub: "dsub (row_quantity row) n = row_quantity row - n" "on_grid 8 (row_quantity row - n)"
    using grid8_exact(1) [OF _ n(3) b(1)] i by auto
  have add: "dadd (row_closed_quantity row) n = row_closed_quantity row + n" "on_grid 8 (row_closed_quantity row + n)"
    using grid8_exact(2) [OF _ n(3) b(2)] i by auto
  have ini: "dadd (row_quantity row) (row_closed_quantity row) = row_quantity row + row_closed_quantity row"
    using grid8_exact(2) [OF _ _ b(3)] i by auto
  have cn: "closed_now row d = n" using n(2) by (simp add: closed_now_def Let_def n_def)
  show Q: "row_quantity (book_close row d oc fill) = row_quantity row - n"
    by (simp add: book_close_parts cn sub)
  show C: "row_closed_quantity (book_close row d oc fill) = row_closed_quantity row + n"
    by (simp add: book_close_parts cn add)
  show I: "row_initial_quantity (book_close row d oc fill) = row_quantity row + row_closed_quantity row"
    using i by (auto simp: book_close_parts backfilled_def ini)
  show S: "row_status (book_close row d oc fill) = (if n = row_quantity row then P_closed else P_partially_closed)"
    using n(2) by (auto simp: book_close_parts cn sub)
  show "row_inv (book_close row d oc fill)"
    unfolding row_inv_def Q C I S using i n sub add by (auto simp: MANAGEABLE_def)
qed

text \<open>What a pass or a close leaves of a row: it is well formed, what was open is open or closed,
  and the closed part only grows.\<close>

definition accounted :: "position_row \<Rightarrow> position_row \<Rightarrow> bool" where
  "accounted row row' \<longleftrightarrow> row_inv row' \<and> row_closed_quantity row \<le> row_closed_quantity row'
     \<and> row_quantity row' + row_closed_quantity row' = row_quantity row + row_closed_quantity row"

lemma accounted_refl: "row_inv row \<Longrightarrow> accounted row row"
  by (simp add: accounted_def)

lemma accounted_trans: "accounted a b \<Longrightarrow> accounted b c \<Longrightarrow> accounted a c"
  by (simp add: accounted_def)

lemma row_inv_moved: "row_inv (moved ps m f code row) = row_inv row"
  by (simp add: row_inv_def)

lemma row_inv_parked: "row_inv row \<Longrightarrow> row_inv (row\<lparr>row_status := P_unknown\<rparr>)"
  by (simp add: row_inv_def MANAGEABLE_def)

lemma accounted_act:
  assumes inv: "row_inv row" and man: "row_status row \<in> set MANAGEABLE"
    and q: "\<And>q. ed_quantity d = Some q \<Longrightarrow> 0 < q \<and> q \<le> row_quantity row \<and> on_grid 8 q"
  shows "accounted row (fst (snd (act ex p m d row bk)))"
proof (cases rule: act_cases [of ex p m d bk row])
  case (Raised e s)
  then show ?thesis using inv by (simp add: accounted_refl)
next
  case (Booked oc fill s)
  have "0 < row_quantity row" using inv man by (auto simp: row_inv_def)
  then show ?thesis unfolding Booked(5) accounted_def
    using book_close_inv [where oc = oc and fill = fill, OF inv man q] q by (auto split: option.splits)
next
  case (Parked oc oc' s)
  show ?thesis unfolding Parked(5) using row_inv_parked [OF inv] by (simp add: accounted_def)
qed (simp add: accounted_refl inv)

interpretation accounts: row_contract ex codes row_inv accounted "\<lambda>_ _. True" for ex codes
proof
  fix row ps m c f bk
  assume inv: "row_inv row"
  let ?row1 = "moved ps m f (codes (row_symbol_id row)) row"
  have m1: "accounted row ?row1" using inv by (simp add: accounted_def row_inv_moved)
  show "accounted row (fst (snd (process ex ps codes m c f row bk))) \<and> True"
  proof (cases rule: process_cases [where row = row and codes = codes and ps = ps and m = m and f = f and c = c and ex = ex and bk = bk])
    case (Acts d bk0)
    have "accounted ?row1 (fst (snd (act ex (view_of ?row1 f (codes (row_symbol_id row))) m d ?row1 bk0)))"
      by (rule accounted_act) (use inv Acts(1) decided_amount [OF Acts(2)] in \<open>auto simp: row_inv_moved\<close>)
    then show ?thesis unfolding Acts(4) using accounted_trans [OF m1] by blast
  qed (simp_all add: accounted_refl inv m1)
next
  fix m q pl why row bk
  assume g: "row_inv row" "row_status row \<in> set MANAGEABLE"
    and q: "\<And>x. q = Some x \<Longrightarrow> 0 < x \<and> x \<le> row_quantity row \<and> on_grid 8 x"
  obtain bk0 where "snd (close_now ex codes m (operator_decision m row q pl why) row bk)
      = snd (act ex (view_of row None (codes (row_symbol_id row))) m (operator_decision m row q pl why) row bk0)"
    by (cases rule: close_now_cases [where row = row and codes = codes and m = m and ex = ex and bk = bk
          and d = "operator_decision m row q pl why"])
  moreover have "accounted row (fst (snd (act ex (view_of row None (codes (row_symbol_id row))) m
      (operator_decision m row q pl why) row bk0)))"
    by (rule accounted_act [OF g]) (use q in \<open>simp add: operator_decision_def\<close>)
  ultimately show "accounted row (fst (snd (close_now ex codes m (operator_decision m row q pl why) row bk))) \<and> True"
    by simp
qed (auto simp: accounted_def)

section \<open>Parked positions\<close>

text \<open>An executor that also keeps the list of the positions it was asked to close.\<close>

definition logged :: "'s executor \<Rightarrow> (string list \<times> 's) executor" where
  "logged ex p m d s = (let (answer, s') = ex p m d (snd s) in (answer, (fst s @ [pv_id p], s')))"

definition asked_for :: "string \<Rightarrow> string list \<times> 's \<Rightarrow> nat" where
  "asked_for a s = count_list (fst s) a"

definition left_alone :: "string \<Rightarrow> position_row \<Rightarrow> bool" where
  "left_alone a row \<longleftrightarrow> (row_id row = a \<longrightarrow> row_status row \<notin> set MANAGEABLE)"

definition unmoved :: "position_row \<Rightarrow> position_row \<Rightarrow> bool" where
  "unmoved row row' \<longleftrightarrow> row_id row' = row_id row \<and> (row_status row \<notin> set MANAGEABLE \<longrightarrow> row' = row)"

lemma act_logged:
  "asked_for a (bk_venue (snd (snd (act (logged ex) p m d row bk)))) =
     asked_for a (bk_venue bk) + (if pv_id p = a then 1 else 0)"
proof -
  obtain answer s where ex: "ex p m d (snd (bk_venue bk)) = (answer, s)" by fastforce
  then have l: "logged ex p m d (bk_venue bk) = (answer, (fst (bk_venue bk) @ [pv_id p], s))"
    by (simp add: logged_def)
  have "bk_venue (snd (snd (act (logged ex) p m d row bk))) = (fst (bk_venue bk) @ [pv_id p], s)"
    by (cases rule: act_cases [of "logged ex" p m d bk row]) (use l in auto)
  then show ?thesis by (simp add: asked_for_def)
qed

lemma act_id: "row_id (fst (snd (act ex p m d row bk))) = row_id row"
  using stop_kept_act [of row ex p m d bk] by (simp add: stop_kept_def)

lemma view_id [simp]: "pv_id (view_of row f code) = row_id row"
  by (simp add: view_of_def)

interpretation parked: row_contract "logged ex" codes "left_alone a" unmoved "\<lambda>s s'. asked_for a s' = asked_for a s"
  for ex codes a
proof
  fix row ps m c f bk
  assume g: "left_alone a row"
  show "unmoved row (fst (snd (process (logged ex) ps codes m c f row bk)))
    \<and> asked_for a (bk_venue (snd (snd (process (logged ex) ps codes m c f row bk)))) = asked_for a (bk_venue bk)"
  proof (cases rule: process_cases [where row = row and codes = codes and ps = ps and m = m and f = f and c = c
        and ex = "logged ex" and bk = bk])
    case (Acts d bk0)
    then show ?thesis using g by (simp add: unmoved_def act_id act_logged left_alone_def)
  qed (simp_all add: unmoved_def)
next
  fix m q pl why row bk
  assume "left_alone a row" "row_status row \<in> set MANAGEABLE"
  then show "unmoved row (fst (snd (close_now (logged ex) codes m (operator_decision m row q pl why) row bk)))
    \<and> asked_for a (bk_venue (snd (snd (close_now (logged ex) codes m (operator_decision m row q pl why) row bk))))
      = asked_for a (bk_venue bk)"
    by (cases rule: close_now_cases [where row = row and codes = codes and m = m and ex = "logged ex" and bk = bk
          and d = "operator_decision m row q pl why"])
       (simp add: unmoved_def act_id act_logged left_alone_def)
qed (auto simp: unmoved_def left_alone_def)

section \<open>A position in the simulator\<close>

definition demo_row :: position_row where
  "demo_row = \<lparr>row_id = ''p1'', row_mode = ''paper'', row_broker_account_id = None,
     row_paper_account_id = Some ''a1'', row_symbol_id = ''s1'', row_strategy_version_id = None,
     row_broker_position_id = None, row_side = ''long'', row_quantity = 1, row_places = 8,
     row_entry_price = 11/10, row_stop_loss = Some (109/100), row_take_profit = Some (12/10), row_status = P_open,
     row_opened_at = 0, row_closed_at = None, row_source = ''pipeline'', row_initial_quantity = 1,
     row_closed_quantity = 0, row_realized_pnl = None, row_broker_stop_loss = None,
     row_broker_take_profit = None, row_broker_synced_at = None\<rparr>"

definition demo_quote :: "rat \<Rightarrow> market_state" where
  "demo_quote bid = \<lparr>mk_symbol = ''EURUSD'', mk_bid = bid, mk_ask = bid + 1/10000, mk_as_of = 1000, mk_atr = None\<rparr>"

definition demo_codes :: "string \<Rightarrow> string option" where
  "demo_codes s = (if s = ''s1'' then Some ''EURUSD'' else None)"

definition calm :: risk_context where
  "calm = \<lparr>rx_emergency_stop = False, rx_kill_switch_reason = None, rx_max_floating_loss = None,
     rx_daily_loss_breached = False, rx_strategy_exit_signalled = False, rx_max_hold = None\<rparr>"

definition demo_policies :: "policy list" where
  "demo_policies = default_policies (Some \<lparr>ts_atr_multiple = None, ts_distance = Some (1/100)\<rparr>) None None
     (Some \<lparr>pt_level = Some (115/100), pt_fraction = 3/10\<rparr>)"

definition no_books :: "'s \<Rightarrow> 's books" where
  "no_books s = \<lparr>bk_record = [], bk_pending = [], bk_venue = s\<rparr>"

definition demo_quotes :: "rat \<Rightarrow> string \<Rightarrow> market_state option" where
  "demo_quotes bid = (\<lambda>s. if s = ''EURUSD'' then Some (demo_quote bid) else None)"

definition demo_tick ::
    "'s executor \<Rightarrow> risk_context \<Rightarrow> rat \<Rightarrow> position_row \<Rightarrow> 's
     \<Rightarrow> position_event_out list \<times> position_row list \<times> 's books" where
  "demo_tick ex c bid row s = tick ex demo_policies demo_codes (demo_quotes bid) c None (\<lambda>_. None) [row] (no_books s)"

lemma demo_row_inv: "row_inv demo_row"
  unfolding row_inv_def on_grid_def by (auto simp: demo_row_def MANAGEABLE_def intro: exI [of _ "10^8"])

lemma demo_step:
  obtains ev rows' bk' where "demo_tick ex c bid row s = (ev, rows', bk')"
    "(pstep ex demo_codes)\<^sup>*\<^sup>* ([row], no_books s) (rows', bk')"
proof -
  obtain ev rows' bk' where t: "demo_tick ex c bid row s = (ev, rows', bk')" by (metis prod_cases3)
  then have "pstep ex demo_codes ([row], no_books s) (rows', bk')"
    unfolding demo_tick_def by (rule by_tick)
  with t that show thesis by blast
qed

section \<open>The properties of a run\<close>

text \<open>C21: no run of sweeps and operator closes loosens a stop. Whatever the policies, the quotes,
  the context and the venue do, a position that had a stop has one afterwards, and it is the same
  or more protective: higher for a long, lower for a short.\<close>

theorem stops_only_tighten:
  assumes "(pstep ex codes)\<^sup>*\<^sup>* (rows, bk) (rows', bk')" "i < length rows" "row_stop_loss (rows ! i) = Some old"
  shows "\<exists>new. row_stop_loss (rows' ! i) = Some new
    \<and> (if row_side (rows ! i) = ''long'' then old \<le> new else new \<le> old)"
  using stops.row_steps(1) [OF assms(1) _ assms(2)] assms(3)
  by (fastforce simp: stop_kept_def tighter_def list_all_iff split: option.splits if_splits)

theorem stops_only_tighten_witness:
  "\<exists>rows' bk'. (pstep paper_executor demo_codes)\<^sup>*\<^sup>* ([demo_row], no_books ()) (rows', bk')
    \<and> row_stop_loss (rows' ! 0) = Some (111/100) \<and> (109/100 :: rat) \<le> 111/100"
proof -
  obtain ev rows' bk' where t: "demo_tick paper_executor calm (112/100) demo_row () = (ev, rows', bk')"
    and st: "(pstep paper_executor demo_codes)\<^sup>*\<^sup>* ([demo_row], no_books ()) (rows', bk')" by (rule demo_step)
  have "(case demo_tick paper_executor calm (112/100) demo_row () of (ev, rows, bk) \<Rightarrow> (length rows, row_stop_loss (hd rows)))
      = (1, Some (111/100))" by code_simp
  then have "row_stop_loss (rows' ! 0) = Some (111/100)" unfolding t by (cases rows') auto
  moreover have "\<exists>new. row_stop_loss (rows' ! 0) = Some new \<and> 109/100 \<le> new"
    using stops_only_tighten [OF st, of 0 "109/100"] by (simp add: demo_row_def)
  ultimately show ?thesis using st by auto
qed



text \<open>C23: a parked position is never acted on. While a position's status is unknown, reconciling,
  closing, opening or closed, no run of sweeps and operator closes changes anything of it or asks
  the venue to close it, so a close whose outcome is unknown is never sent a second time.\<close>

theorem parked_is_left_alone:
  assumes "(pstep (logged ex) codes)\<^sup>*\<^sup>* (rows, bk) (rows', bk')" "i < length rows"
    and "row_status (rows ! i) \<notin> {P_open, P_partially_closed}" "distinct (map row_id rows)"
  shows "rows' ! i = rows ! i
    \<and> asked_for (row_id (rows ! i)) (bk_venue bk') = asked_for (row_id (rows ! i)) (bk_venue bk)"
proof -
  let ?a = "row_id (rows ! i)"
  have st: "row_status (rows ! i) \<notin> set MANAGEABLE" using assms(3) by (simp add: MANAGEABLE_def)
  have g: "list_all (left_alone ?a) rows"
    using st assms(2,4) by (auto simp: list_all_length left_alone_def distinct_conv_nth)
  show ?thesis
    using parked.row_steps(1) [OF assms(1) g assms(2)] parked.steps [OF assms(1) g] st
    by (simp add: unmoved_def parked.related_def)
qed

theorem parked_is_left_alone_witness:
  "\<exists>rows' bk'. (pstep (logged paper_executor) demo_codes)\<^sup>*\<^sup>*
      ([demo_row\<lparr>row_status := P_unknown\<rparr>], no_books ([], ())) (rows', bk')
    \<and> rows' ! 0 = demo_row\<lparr>row_status := P_unknown\<rparr> \<and> asked_for ''p1'' (bk_venue bk') = 0"
proof -
  obtain ev rows' bk' where st: "(pstep (logged paper_executor) demo_codes)\<^sup>*\<^sup>*
      ([demo_row\<lparr>row_status := P_unknown\<rparr>], no_books ([], ())) (rows', bk')"
    using demo_step [of "logged paper_executor" calm "1/2" "demo_row\<lparr>row_status := P_unknown\<rparr>" "([], ())"] by blast
  show ?thesis using parked_is_left_alone [OF st, of 0] st
    by (auto simp: demo_row_def no_books_def asked_for_def)
qed

section \<open>A pass\<close>

text \<open>C24: only a confirmed fill closes. When a pass over a manageable position decides to close, the
  executor is asked exactly once, about this position and with the stop as just moved. If it
  confirms with a fill price the fill is booked; if it refuses nothing but the stop has changed; any
  other answer, and a confirmation without a price, parks the position, and the result says that it
  needs reconciliation.\<close>

theorem only_a_confirmed_fill_closes:
  assumes "process ex ps codes m c f row bk = (Inr res, row', bk')" "mr_decision res = Some d"
  shows "\<exists>p oc. ex p m d (bk_venue bk) = (Inr oc, bk_venue bk') \<and> pv_id p = row_id row
    \<and> pv_stop_loss p = row_stop_loss row'
    \<and> (let row1 = row\<lparr>row_stop_loss := row_stop_loss row'\<rparr> in
        row' = (case (co_status oc, co_fill_price oc) of
            (C_confirmed, Some fill) \<Rightarrow> book_close row1 d oc fill
          | (C_rejected, _) \<Rightarrow> row1
          | _ \<Rightarrow> row1\<lparr>row_status := P_unknown\<rparr>)
      \<and> (mr_closed res \<longleftrightarrow> co_status oc = C_confirmed \<and> co_fill_price oc \<noteq> None)
      \<and> (mr_needs_reconciliation res \<longleftrightarrow> \<not> mr_closed res \<and> co_status oc \<noteq> C_rejected))"
proof (cases rule: process_cases [where row = row and codes = codes and ps = ps and m = m and f = f and c = c
      and ex = ex and bk = bk])
  case (Acts d' bk0)
  let ?code = "codes (row_symbol_id row)"
  let ?row1 = "moved ps m f ?code row"
  let ?p = "view_of ?row1 f ?code"
  have r1: "?row1 = row\<lparr>row_stop_loss := row_stop_loss ?row1\<rparr>" by (simp add: moved_def split: option.splits)
  have ps: "pv_stop_loss ?p = row_stop_loss ?row1" by (simp add: view_of_def)
  have "snd (act ex ?p m d' ?row1 bk0) = (row', bk')" unfolding Acts(4) [symmetric] assms(1) by simp
  then have snd: "row' = fst (snd (act ex ?p m d' ?row1 bk0))" "bk' = snd (snd (act ex ?p m d' ?row1 bk0))"
    by simp_all
  have ok: "\<exists>oc. fst (act ex ?p m d' ?row1 bk0) = Inr oc"
    using Acts(5) assms(1) by (cases "fst (act ex ?p m d' ?row1 bk0)") auto
  then have d: "d' = d" using Acts(6) assms by fastforce
  show ?thesis
  proof (cases rule: act_cases [of ex ?p m d' bk0 ?row1])
    case (Raised e s)
    with ok show ?thesis by simp
  next
    case (Booked oc fill s)
    then have "mr_outcome res = Some oc" using Acts(6) assms(1) by fastforce
    then have "mr_closed res" "\<not> mr_needs_reconciliation res"
      using Booked(2) by (simp_all add: mr_closed_def mr_needs_reconciliation_def is_confirmed_def)
    with Booked snd r1 ps Acts(3) d show ?thesis by (intro exI [of _ ?p] exI [of _ oc]) (auto simp: Let_def)
  next
    case (Parked oc oc' s)
    then have "mr_outcome res = Some oc'" using Acts(6) assms(1) by fastforce
    then have "\<not> mr_closed res" "mr_needs_reconciliation res"
      using Parked(4) by (simp_all add: mr_closed_def mr_needs_reconciliation_def is_confirmed_def)
    with Parked snd r1 ps Acts(3) d show ?thesis
      by (intro exI [of _ ?p] exI [of _ oc]) (auto simp: Let_def)
  next
    case (Refused oc s)
    then have "mr_outcome res = Some oc" using Acts(6) assms(1) by fastforce
    then have "\<not> mr_closed res" "\<not> mr_needs_reconciliation res"
      using Refused(2) by (simp_all add: mr_closed_def mr_needs_reconciliation_def is_confirmed_def)
    with Refused snd r1 ps Acts(3) d show ?thesis by (intro exI [of _ ?p] exI [of _ oc]) (auto simp: Let_def)
  qed
qed (use assms in \<open>auto simp: skipped_def\<close>)

end
