(* ===== verification/Position_Exits.thy ===== *)
theory Position_Exits
  imports Position_Props
begin

text \<open>
  What the exits of a position do: the order between the policies, the partial target, the trail
  behind the best price, and the emergency stop.
\<close>

section \<open>The priority of the exits\<close>

lemma by_reason_total: "by_reason ps p m c acc = Inr f \<Longrightarrow> x \<in> set ps \<Longrightarrow> \<exists>d. evaluate_policy x p m c = Inr d"
proof (induction ps arbitrary: acc)
  case (Cons y ps)
  then show ?case by (auto simp: bindE_Inr)
qed simp

lemma by_reason_raises: "by_reason ps p m c acc = Inl e \<Longrightarrow> \<exists>x \<in> set ps. evaluate_policy x p m c = Inl e"
  by (induction ps arbitrary: acc) (auto simp: bindE_Inl)

text \<open>C25: exits follow the priority. A decision of a set of policies is the decision of one of them,
  and no other policy of the set decided with a reason of higher priority; its reason
  does not depend on the order of the list. In particular an emergency precedes everything, and when a quote reaches both the
  stop and the target the loss is booked. No decision means that every policy holds.\<close>

theorem exits_follow_the_priority:
  assumes "decide ps p m c = Inr v"
  shows "case v of
      None \<Rightarrow> list_all (\<lambda>x. evaluate_policy x p m c = Inr None) ps
    | Some d \<Rightarrow> list_ex (\<lambda>x. evaluate_policy x p m c = Inr (Some d)) ps
        \<and> list_all (\<lambda>x. case evaluate_policy x p m c of Inr (Some e) \<Rightarrow> rank (ed_reason d) \<le> rank (ed_reason e)
             | Inr None \<Rightarrow> True | Inl _ \<Rightarrow> False) ps"
  using assms
proof (cases rule: decide_cases)
  case (1 f)
  have "evaluate_policy x p m c = Inr None" if "x \<in> set ps" for x
  proof -
    from by_reason_total [OF 1(1) that] obtain d where d: "evaluate_policy x p m c = Inr d" by blast
    then show ?thesis using by_reason_absent [OF 1(1) 1(3) that] by (cases d) auto
  qed
  with 1(2) show ?thesis by (simp add: list_all_iff)
next
  case (2 f d)
  have "\<exists>x \<in> set ps. evaluate_policy x p m c = Inr (Some d)" using by_reason_from [OF 2(1,3)] by simp
  moreover have "case evaluate_policy x p m c of Inr (Some e) \<Rightarrow> rank (ed_reason d) \<le> rank (ed_reason e)
             | Inr None \<Rightarrow> True | Inl _ \<Rightarrow> False" if x: "x \<in> set ps" for x
  proof -
    from by_reason_total [OF 2(1) x] obtain e where e: "evaluate_policy x p m c = Inr e" by blast
    have "rank (ed_reason d) \<le> rank (ed_reason e')" if "e = Some e'" for e'
      using by_reason_absent [OF 2(1) _ x] e that 2(4) by blast
    with e show ?thesis by (cases e) auto
  qed
  ultimately show ?thesis using 2(2) by (simp add: list_all_iff list_ex_iff)
qed

theorem exits_follow_the_priority_witness:
  "\<exists>d. decide demo_policies (view_of (demo_row\<lparr>row_take_profit := Some (108/100)\<rparr>) None None) (demo_quote (108/100)) calm
      = Inr (Some d) \<and> ed_reason d = Stop_loss_hit
    \<and> list_ex (\<lambda>x. evaluate_policy x (view_of (demo_row\<lparr>row_take_profit := Some (108/100)\<rparr>) None None) (demo_quote (108/100)) calm
        = Inr (Some d)) demo_policies"
proof -
  let ?d = "decide demo_policies (view_of (demo_row\<lparr>row_take_profit := Some (108/100)\<rparr>) None None) (demo_quote (108/100)) calm"
  have "map_sum (\<lambda>_. ()) (map_option ed_reason) ?d = Inr (Some Stop_loss_hit)" by code_simp
  then obtain d where d: "?d = Inr (Some d)" "ed_reason d = Stop_loss_hit" by (cases ?d) auto
  with exits_follow_the_priority [OF d(1)] show ?thesis by auto
qed

section \<open>The partial target\<close>

lemma view_amounts:
  assumes "row_inv row"
  shows "pv_places (view_of row f code) = 8" "on_grid 8 (pv_quantity (view_of row f code))"
    "on_grid 8 (pv_closed_quantity (view_of row f code))" "0 \<le> pv_closed_quantity (view_of row f code)"
    "pv_closed_quantity (view_of row f code) \<le> 10 ^ 10"
    "initial_of (view_of row f code) = row_quantity row + row_closed_quantity row"
  using assms by (auto simp: row_inv_def view_of_def initial_of_def or_zero_def)

lemma fraction_below:
  assumes "on_grid 8 t" "0 \<le> t" "t \<le> 10 ^ 10" "0 < fr" "fr < 1"
  obtains w where "quantize rhe 8 (dmul t fr) = Some w" "w \<le> t"
proof -
  obtain n where t: "t = of_int n / 10 ^ 8" using assms(1) unfolding on_grid_def by blast
  have le: "dmul t fr \<le> t" unfolding dmul_def
    by (rule dec.le_ok) (use assms on_grid_repr mult_left_le [of fr t] in \<open>auto simp: mult.commute\<close>)
  have p8: "p10 8 = 10 ^ 8" using p10_nat [of 8] by simp
  have n: "t * p10 8 = of_int n" by (simp add: t p8)
  have up: "rhe (dmul t fr * p10 8) \<le> n"
    using rhe_mono [OF mult_right_mono [OF le, of "p10 8"]] n by simp
  have "0 \<le> dmul t fr" unfolding dmul_def by (rule dec.nonneg) (use assms in simp)
  then have lo: "0 \<le> rhe (dmul t fr * p10 8)" using rhe_mono [of 0 "dmul t fr * p10 8"] by simp
  have "(of_int n :: rat) \<le> of_int (10 ^ 18)" using assms(3) unfolding t by (simp add: field_simps)
  then have "n \<le> 10 ^ 18" by (simp only: of_int_le_iff)
  with up lo have "\<bar>rhe (dmul t fr * p10 8)\<bar> < 10 ^ 28" by simp
  then have "quantize rhe 8 (dmul t fr) = Some (of_int (rhe (dmul t fr * p10 8)) / 10 ^ 8)"
    by (simp add: quantize_def Let_def p10_minus p8)
  moreover have "of_int (rhe (dmul t fr * p10 8)) / 10 ^ 8 \<le> t"
    using up unfolding t by (simp add: divide_right_mono)
  ultimately show thesis by (rule that)
qed

lemma partial_never_raises:
  assumes "row_inv row"
  shows "partial_evaluate s (view_of row f code) m \<noteq> Inl e"
proof -
  let ?t = "row_quantity row + row_closed_quantity row"
  have g: "on_grid 8 ?t" "0 \<le> ?t" "?t \<le> 10 ^ 10"
    using assms grid8_exact(2) [of "row_quantity row" "row_closed_quantity row"] by (auto simp: row_inv_def)
  show ?thesis
  proof (cases "0 < pt_fraction s \<and> pt_fraction s < 1")
    case True
    with fraction_below [OF g, of "pt_fraction s"] obtain w where
      "quantize rhe 8 (dmul ?t (pt_fraction s)) = Some w" by blast
    then show ?thesis
      by (auto simp: partial_evaluate_def Let_def view_amounts [OF assms] split: option.splits)
  qed (auto simp: partial_evaluate_def split: option.splits)
qed

lemma partial_silent:
  assumes inv: "row_inv row" and w: "quantize rhe 8 (dmul (row_quantity row + row_closed_quantity row) (pt_fraction s)) = Some w"
    and "w \<le> row_closed_quantity row"
  shows "partial_evaluate s (view_of row f code) m = Inr None"
  using assms(3) w view_amounts [OF inv] by (auto simp: partial_evaluate_def Let_def view_of_def split: option.splits)

text \<open>A partial target is taken once. When the partial take-profit decides on a well-formed
  position, booking the fill leaves exactly the configured fraction of the initial size closed, to
  the precision of the quantity, and from then on the policy stays silent at every quote.\<close>

theorem partial_target_taken_once:
  assumes "row_inv row" "row_status row \<in> {P_open, P_partially_closed}"
    and "partial_evaluate s (view_of row f code) m = Inr (Some d)"
  shows "let row' = book_close row d oc fill in
      quantize rhe 8 (dmul (row_quantity row + row_closed_quantity row) (pt_fraction s)) = Some (row_closed_quantity row')
    \<and> partial_evaluate s (view_of row' f' code') m' = Inr None"
proof (rule partial_amount [OF assms(3) view_amounts(1-5) [OF assms(1)]])
  let ?row' = "book_close row d oc fill" and ?t = "row_quantity row + row_closed_quantity row"
  fix q level w
  assume q: "ed_quantity d = Some q" "0 < q" "q \<le> pv_quantity (view_of row f code)" "on_grid 8 q"
    and fr: "0 < pt_fraction s" "pt_fraction s < 1"
    and w: "quantize rhe 8 (dmul (initial_of (view_of row f code)) (pt_fraction s)) = Some w" "0 < w"
      "pv_closed_quantity (view_of row f code) < w"
      "q = min (pv_quantity (view_of row f code)) (w - pv_closed_quantity (view_of row f code))"
  have man: "row_status row \<in> set MANAGEABLE" using assms(2) by (simp add: MANAGEABLE_def)
  have "ed_quantity d = Some x \<Longrightarrow> 0 < x \<and> x \<le> row_quantity row \<and> on_grid 8 x" for x
    using q by (simp add: view_of_def)
  note b = book_close_inv [where oc = oc and fill = fill and d = d, OF assms(1) man this]
  have t: "on_grid 8 ?t" "0 \<le> ?t" "?t \<le> 10 ^ 10"
    using assms(1) grid8_exact(2) [of "row_quantity row" "row_closed_quantity row"] by (auto simp: row_inv_def)
  have w': "quantize rhe 8 (dmul ?t (pt_fraction s)) = Some w" using w(1) view_amounts(6) [OF assms(1)] by simp
  then have "w \<le> ?t" using fraction_below [OF t fr] by force
  then have c: "row_closed_quantity ?row' = w" using b(3) q(1) w(4) by (simp add: view_of_def)
  have "row_quantity ?row' + row_closed_quantity ?row' = ?t" using b(2,3) by simp
  then show ?thesis using partial_silent [OF b(1), of s w] w' c by (simp add: Let_def)
qed

theorem partial_target_taken_once_witness:
  "\<exists>d. partial_evaluate \<lparr>pt_level = Some (115/100), pt_fraction = 3/10\<rparr> (view_of demo_row None None) (demo_quote (116/100))
      = Inr (Some d)
    \<and> partial_evaluate \<lparr>pt_level = Some (115/100), pt_fraction = 3/10\<rparr>
        (view_of (book_close demo_row d (no_fill C_confirmed (C_text []) ''simulator'') (116/100)) None None)
        (demo_quote (117/100)) = Inr None"
proof -
  let ?s = "\<lparr>pt_level = Some (115/100), pt_fraction = 3/10\<rparr>"
  let ?d = "partial_evaluate ?s (view_of demo_row None None) (demo_quote (116/100))"
  have "map_sum (\<lambda>_. ()) (map_option ed_quantity) ?d = Inr (Some (Some (3/10)))" by code_simp
  then obtain d where d: "?d = Inr (Some d)" by (cases ?d) auto
  have "row_status demo_row = P_open" by (simp add: demo_row_def)
  with partial_target_taken_once [OF demo_row_inv _ d] d show ?thesis by (auto simp: Let_def)
qed

section \<open>The trail behind the best price\<close>

text \<open>A position held through some quotes: every pass succeeds and decides nothing.\<close>

fun run_held ::
    "'s executor \<Rightarrow> policy list \<Rightarrow> (string \<Rightarrow> string option) \<Rightarrow> risk_context \<Rightarrow> rat option \<Rightarrow> market_state list
     \<Rightarrow> position_row \<Rightarrow> 's books \<Rightarrow> (position_row \<times> 's books) option" where
  "run_held ex ps codes c f [] row bk = Some (row, bk)"
| "run_held ex ps codes c f (m # ms) row bk = (case process ex ps codes m c f row bk of
     (Inl e, _) \<Rightarrow> None
   | (Inr r, row', bk') \<Rightarrow> if mr_decision r = None then run_held ex ps codes c f ms row' bk' else None)"

text \<open>The reference: the distance behind the best price, unless the stop was better already.\<close>

definition best_price :: "bool \<Rightarrow> market_state list \<Rightarrow> rat" where
  "best_price long ms = (if long then Max (set (map mk_bid ms)) else Min (set (map mk_ask ms)))"

definition trail_behind :: "bool \<Rightarrow> rat \<Rightarrow> rat option \<Rightarrow> rat \<Rightarrow> rat" where
  "trail_behind long g old best = (let s = (if long then dsub best g else dadd best g)
     in case old of None \<Rightarrow> s | Some x \<Rightarrow> if long then max x s else min x s)"

lemma held_step:
  assumes "process ex ps codes m c f row bk = (Inr r, row', bk')" "mr_decision r = None" "row_status row \<in> set MANAGEABLE"
  shows "row' = moved ps m f (codes (row_symbol_id row)) row"
proof (cases rule: process_cases [where row = row and codes = codes and ps = ps and m = m and f = f and c = c
      and ex = ex and bk = bk])
  case (Acts d bk0)
  then show ?thesis using assms by (cases "fst (act ex (view_of (moved ps m f (codes (row_symbol_id row)) row) f
      (codes (row_symbol_id row))) m d (moved ps m f (codes (row_symbol_id row)) row) bk0)") fastforce+
qed (use assms in auto)

lemma moved_trail:
  assumes "stop_movers ps = [TrailingStop s]" "ts_distance s = Some g" "0 < g"
  shows "row_stop_loss (moved ps m f code row) =
    Some (trail_behind (row_side row = ''long'') g (row_stop_loss row) (exit_price m (row_side row = ''long'')))"
  using assms
  by (auto simp: moved_def best_stop_def propose_def trailing_stop_def gap_of_def modification_to_def improves_def
      tighter_def new_extreme_def view_of_def is_long_def trail_behind_def Let_def split: option.splits)

lemma trail_behind_trail:
  "trail_behind l g (Some (trail_behind l g old a)) b = trail_behind l g old (if l then max a b else min a b)"
proof -
  have "dsub (max a b) g = max (dsub a g) (dsub b g)" "dadd (min a b) g = min (dadd a g) (dadd b g)"
    unfolding dsub_def dadd_def by (auto simp: max_def min_def intro!: antisym rnd_mono)
  then show ?thesis by (auto simp: trail_behind_def Let_def max.assoc min.assoc split: option.splits)
qed

lemma best_price_Cons:
  "ms \<noteq> [] \<Longrightarrow> best_price l (m # ms) = (if l then max (exit_price m l) (best_price l ms) else min (exit_price m l) (best_price l ms))"
  by (simp add: best_price_def exit_price_def)

lemma best_price_single: "best_price l [m] = exit_price m l"
  by (simp add: best_price_def exit_price_def)

lemma run_held_Cons:
  assumes "run_held ex ps codes c f (m # ms) row bk = Some (row', bk')" "row_status row \<in> set MANAGEABLE"
  obtains bk1 where "run_held ex ps codes c f ms (moved ps m f (codes (row_symbol_id row)) row) bk1 = Some (row', bk')"
proof -
  obtain r row1 bk1 where p: "process ex ps codes m c f row bk = (Inr r, row1, bk1)" "mr_decision r = None"
    "run_held ex ps codes c f ms row1 bk1 = Some (row', bk')"
    using assms(1) by (auto split: prod.splits sum.splits if_splits)
  with held_step [OF p(1,2) assms(2)] that show thesis by blast
qed

text \<open>C26: the trail needs no memory. The code never fills in the best price seen, so the trailing
  policy works from the last quote alone; yet for a position held through any run of quotes the stop
  ends exactly at the configured distance behind the best exit price of the run, or where it was if
  that is more protective. The ratchet is equivalent to a trail that remembers the best price.\<close>

theorem trail_follows_the_best_price:
  assumes "run_held ex ps codes c f ms row bk = Some (row', bk')" "ms \<noteq> []"
    and "stop_movers ps = [TrailingStop s]" "ts_distance s = Some g" "0 < g"
    and "row_status row \<in> {P_open, P_partially_closed}"
  shows "row_stop_loss row' = Some (trail_behind (row_side row = ''long'') g (row_stop_loss row)
    (best_price (row_side row = ''long'') ms))"
proof -
  have man: "row_status row \<in> set MANAGEABLE" using assms(6) by (simp add: MANAGEABLE_def)
  from assms(1,2) man show ?thesis
  proof (induction ms arbitrary: row bk)
    case (Cons m ms)
    let ?row1 = "moved ps m f (codes (row_symbol_id row)) row"
    from run_held_Cons [OF Cons.prems(1,3)] obtain bk1 where
      h: "run_held ex ps codes c f ms ?row1 bk1 = Some (row', bk')" .
    note st = moved_trail [OF assms(3-5), of m f "codes (row_symbol_id row)" row]
    show ?case
    proof (cases "ms = []")
      case True
      then show ?thesis using h st by (simp add: best_price_single)
    next
      case False
      from Cons.IH [OF h False] Cons.prems(3) st show ?thesis
        by (simp add: trail_behind_trail best_price_Cons [OF False])
    qed
  qed simp
qed

theorem trail_follows_the_best_price_witness:
  "\<exists>row' bk'. run_held paper_executor demo_policies demo_codes calm None
      [demo_quote (111/100), demo_quote (112/100), demo_quote (1115/1000)] demo_row (no_books ()) = Some (row', bk')
    \<and> row_stop_loss row' = Some (111/100)"
proof -
  let ?ms = "[demo_quote (111/100), demo_quote (112/100), demo_quote (1115/1000)]"
  let ?r = "run_held paper_executor demo_policies demo_codes calm None ?ms demo_row (no_books ())"
  have "map_option (\<lambda>_. ()) ?r = Some ()" by code_simp
  then obtain row' bk' where r: "?r = Some (row', bk')" by (cases ?r) auto
  have sm: "stop_movers demo_policies = [TrailingStop \<lparr>ts_atr_multiple = None, ts_distance = Some (1/100)\<rparr>]" by code_simp
  have "trail_behind True (1/100) (Some (109/100)) (best_price True ?ms) = 111/100" by code_simp
  moreover have "row_side demo_row = ''long''" "row_status demo_row = P_open" "row_stop_loss demo_row = Some (109/100)"
    by (simp_all add: demo_row_def)
  ultimately show ?thesis using trail_follows_the_best_price [OF r _ sm, of "1/100"] r by simp
qed

section \<open>The emergency stop\<close>

lemma sweep_rows_all:
  assumes "distinct is" "\<forall>i \<in> set is. i < length rows"
    and "\<And>i bk. i \<in> set is \<Longrightarrow> \<exists>m res row' bk'. codes (row_symbol_id (rows ! i)) = Some (code i) \<and> code i \<noteq> []
        \<and> quotes (code i) = Some m
        \<and> process ex ps codes m c (fl (row_id (rows ! i))) (rows ! i) bk = (Inr res, row', bk') \<and> Q row'"
  shows "\<exists>ress rows' bk'. sweep_rows ex ps codes quotes c fl is rows bk = (Inr ress, rows', bk')
    \<and> (\<forall>i \<in> set is. Q (rows' ! i))"
  using assms
proof (induction "is" arbitrary: rows bk)
  case (Cons i "is")
  from Cons.prems(3) [of i bk] obtain m res row1 bk1 where one: "codes (row_symbol_id (rows ! i)) = Some (code i)"
    "code i \<noteq> []" "quotes (code i) = Some m"
    "process ex ps codes m c (fl (row_id (rows ! i))) (rows ! i) bk = (Inr res, row1, bk1)" "Q row1" by auto
  let ?rows = "rows[i := row1]"
  have "\<exists>ress rows' bk'. sweep_rows ex ps codes quotes c fl is ?rows bk1 = (Inr ress, rows', bk')
    \<and> (\<forall>i \<in> set is. Q (rows' ! i))"
  proof (rule Cons.IH)
    fix j bk
    assume "j \<in> set is"
    then have "j \<noteq> i" using Cons.prems(1) by auto
    then have "?rows ! j = rows ! j" by simp
    with Cons.prems(3) [of j bk] \<open>j \<in> set is\<close> show "\<exists>m res row' bk'. codes (row_symbol_id (?rows ! j)) = Some (code j)
        \<and> code j \<noteq> [] \<and> quotes (code j) = Some m
        \<and> process ex ps codes m c (fl (row_id (?rows ! j))) (?rows ! j) bk = (Inr res, row', bk') \<and> Q row'" by simp
  qed (use Cons.prems in auto)
  then obtain ress rows' bk' where rest: "sweep_rows ex ps codes quotes c fl is ?rows bk1 = (Inr ress, rows', bk')"
    "\<forall>i \<in> set is. Q (rows' ! i)" by blast
  have "rows' ! i = row1" using sweep_rows_frame [OF rest(1)] Cons.prems(1,2) by simp
  with rest one show ?case by (auto simp: Let_def)
qed simp

lemma policy_never_raises: "row_inv row \<Longrightarrow> evaluate_policy x (view_of row f code) m c \<noteq> Inl e"
  using partial_never_raises by (cases x) auto

lemma emergency_decided:
  assumes "row_inv row" "EmergencyExit \<in> set ps" "rx_emergency_stop c"
  obtains d where "decide ps (view_of row f code) m c = Inr (Some d)" "ed_reason d = Emergency_exit"
proof -
  let ?p = "view_of row f code"
  obtain e where e: "evaluate_policy EmergencyExit ?p m c = Inr (Some e)" "ed_reason e = Emergency_exit"
    using assms(3) by (auto simp: emergency_evaluate_def exit_at_market_def)
  have "decide ps ?p m c \<noteq> Inl x" for x
    using by_reason_raises [of ps ?p m c _ x] policy_never_raises [OF assms(1)]
    by (auto simp: decide_def bindE_Inl)
  then obtain v where v: "decide ps ?p m c = Inr v" by (cases "decide ps ?p m c") auto
  then show thesis
  proof (cases rule: decide_cases)
    case (1 g)
    with by_reason_absent [OF 1(1) _ assms(2) e(1), of Emergency_exit] e(2) show ?thesis by simp
  next
    case (2 g d)
    have "g Emergency_exit \<noteq> None" using by_reason_absent [OF 2(1) _ assms(2) e(1), of Emergency_exit] e(2) by blast
    then have "rank (ed_reason d) \<le> rank Emergency_exit" by (rule 2(4))
    then have "ed_reason d = Emergency_exit" by (intro rank_inj) (simp add: rank_def PRIORITY_def)
    with that v 2(2) show ?thesis by simp
  qed
qed

lemma emergency_amount:
  assumes "decide ps p m c = Inr (Some d)" "ed_reason d = Emergency_exit"
  shows "ed_quantity d = None"
proof -
  from decide_Some [OF assms(1)] obtain x where x: "evaluate_policy x p m c = Inr (Some d)" .
  show ?thesis
  proof (rule whole_amount [OF x])
    fix s
    show "x \<noteq> PartialTakeProfit s"
      using x assms(2) by (auto simp: partial_evaluate_def exit_at_market_def Let_def split: option.splits if_splits)
  qed
qed

lemma paper_pass_closes:
  assumes "row_inv row" "row_status row \<in> set MANAGEABLE" "EmergencyExit \<in> set ps" "rx_emergency_stop c"
    and "codes (row_symbol_id row) = Some (mk_symbol m)" "0 < mk_bid m" "0 < mk_ask m"
  shows "\<exists>res row' bk'. process paper_executor ps codes m c f row bk = (Inr res, row', bk')
    \<and> row_status row' = P_closed \<and> row_quantity row' = 0 \<and> mr_decision res \<noteq> None"
proof (cases rule: process_cases [where row = row and codes = codes and ps = ps and m = m and f = f and c = c
      and ex = paper_executor and bk = bk])
  case (Acts d bk0)
  let ?row1 = "moved ps m f (codes (row_symbol_id row)) row"
  let ?p = "view_of ?row1 f (codes (row_symbol_id row))"
  have inv: "row_inv ?row1" using assms(1) by (simp add: row_inv_moved)
  from emergency_decided [OF inv assms(3,4)] Acts(2) have er: "ed_reason d = Emergency_exit"
    by (metis Inr_inject option.inject)
  note q = emergency_amount [OF Acts(2) er]
  have pos: "0 < exit_price m (is_long ?p)" using assms(6,7) by (simp add: exit_price_def)
  have man: "row_status ?row1 \<in> set MANAGEABLE" using assms(2) by simp
  show ?thesis
  proof (cases rule: act_cases [of paper_executor ?p m d bk0 ?row1])
    case (Booked oc fill s)
    from Acts(6) [OF Booked(4)] obtain res where
      "fst (process paper_executor ps codes m c f row bk) = Inr res" "mr_decision res = Some d" by blast
    moreover have "row_status (book_close ?row1 d oc fill) = P_closed" "row_quantity (book_close ?row1 d oc fill) = 0"
      using book_close_inv(2,5) [where oc = oc and fill = fill and d = d, OF inv man] q by simp_all
    ultimately show ?thesis using Booked(5) Acts(4) by (metis option.distinct(1) prod.collapse)
  qed (use assms(5) pos in \<open>auto simp: paper_executor_def view_of_def Let_def\<close>)
qed (use assms emergency_decided policy_never_raises in \<open>metis (no_types, lifting) Inl_not_Inr option.distinct(1) sum.inject(2) row_inv_moved\<close>)+

lemma calm_quote: "demo_codes (row_symbol_id demo_row) = Some (mk_symbol (demo_quote (1/2)))"
  by (simp add: demo_codes_def demo_row_def demo_quote_def)

theorem only_a_confirmed_fill_closes_witness:
  "\<exists>res row' bk' d. process paper_executor demo_policies demo_codes (demo_quote (1/2))
       (calm\<lparr>rx_emergency_stop := True\<rparr>) None demo_row (no_books ()) = (Inr res, row', bk')
     \<and> mr_decision res = Some d \<and> row_status row' = P_closed \<and> mr_closed res"
proof -
  have st: "row_status demo_row \<in> set MANAGEABLE" by (simp add: demo_row_def MANAGEABLE_def)
  have ps: "EmergencyExit \<in> set demo_policies" by (simp add: demo_policies_def default_policies_def)
  have c: "rx_emergency_stop (calm\<lparr>rx_emergency_stop := True\<rparr>)" by simp
  from paper_pass_closes [where codes = demo_codes, OF demo_row_inv st ps c calm_quote, of None "no_books ()"]
  obtain res row' bk' d where p: "process paper_executor demo_policies demo_codes (demo_quote (1/2))
      (calm\<lparr>rx_emergency_stop := True\<rparr>) None demo_row (no_books ()) = (Inr res, row', bk')"
    "row_status row' = P_closed" "mr_decision res = Some d" by (auto simp: demo_quote_def)
  have op: "row_status demo_row = P_open" by (simp add: demo_row_def)
  from only_a_confirmed_fill_closes [OF p(1,3)] obtain oc where
    k: "row' = (case (co_status oc, co_fill_price oc) of
            (C_confirmed, Some fill) \<Rightarrow> book_close (demo_row\<lparr>row_stop_loss := row_stop_loss row'\<rparr>) d oc fill
          | (C_rejected, _) \<Rightarrow> demo_row\<lparr>row_stop_loss := row_stop_loss row'\<rparr>
          | _ \<Rightarrow> demo_row\<lparr>row_stop_loss := row_stop_loss row', row_status := P_unknown\<rparr>)"
    "mr_closed res \<longleftrightarrow> co_status oc = C_confirmed \<and> co_fill_price oc \<noteq> None" unfolding Let_def by blast
  have "mr_closed res" using arg_cong [OF k(1), of row_status] k(2) op p(2) by (cases "co_status oc"; cases "co_fill_price oc") simp_all
  with p show ?thesis by blast
qed

text \<open>The rows a sweep of a mode, or of all modes, is about.\<close>

definition swept :: "string option \<Rightarrow> position_row \<Rightarrow> bool" where
  "swept mode row \<longleftrightarrow> row_status row \<in> {P_open, P_partially_closed} \<and> (mode = None \<or> mode = Some (row_mode row))"

text \<open>C27: an emergency stop flattens the book. With the emergency stop engaged, one sweep in the
  simulator over the positions of a mode, or of every mode, with any set of policies that contains the
  emergency exit, sound rows (\<open>row_inv\<close>) and a usable quote for every manageable position of the
  mode, closes every one of them completely, whatever else the policies want, and leaves every
  other row as it is.\<close>

theorem emergency_stop_flattens:
  assumes "rx_emergency_stop c" "EmergencyExit \<in> set ps" "list_all row_inv rows"
    and "\<forall>row \<in> set rows. swept mode row \<longrightarrow> (\<exists>m. codes (row_symbol_id row) = Some (mk_symbol m)
      \<and> mk_symbol m \<noteq> [] \<and> quotes (mk_symbol m) = Some m \<and> 0 < mk_bid m \<and> 0 < mk_ask m)"
  shows "\<exists>ev rows' bk'. tick paper_executor ps codes quotes c mode fl rows bk = (ev, rows', bk')
    \<and> length rows' = length rows
    \<and> list_all (\<lambda>i. if swept mode (rows ! i) then row_status (rows' ! i) = P_closed \<and> row_quantity (rows' ! i) = 0
        else rows' ! i = rows ! i) [0..<length rows]"
proof -
  let ?is = "open_positions mode rows" and ?bk = "bk\<lparr>bk_pending := []\<rparr>"
  let ?Q = "\<lambda>row. row_status row = P_closed \<and> row_quantity row = 0"
  have d: "distinct ?is" by (simp add: open_positions_def)
  have M: "set MANAGEABLE = {P_open, P_partially_closed}" by (simp add: MANAGEABLE_def)
  have sw_iff: "i \<in> set ?is \<longleftrightarrow> i < length rows \<and> swept mode (rows ! i)" for i
    by (auto simp: set_open_positions swept_def M split: option.split)
  have one: "\<exists>m res row' bk'. codes (row_symbol_id (rows ! i)) = Some (the (codes (row_symbol_id (rows ! i))))
        \<and> the (codes (row_symbol_id (rows ! i))) \<noteq> [] \<and> quotes (the (codes (row_symbol_id (rows ! i)))) = Some m
        \<and> process paper_executor ps codes m c (fl (row_id (rows ! i))) (rows ! i) bk = (Inr res, row', bk') \<and> ?Q row'"
    if i: "i \<in> set ?is" for i bk
  proof -
    have l: "i < length rows" "row_status (rows ! i) \<in> set MANAGEABLE" and sw: "swept mode (rows ! i)"
      using i by (simp_all add: sw_iff) (simp add: swept_def M)
    with assms(4) obtain m where m: "codes (row_symbol_id (rows ! i)) = Some (mk_symbol m)" "mk_symbol m \<noteq> []"
      "quotes (mk_symbol m) = Some m" "0 < mk_bid m" "0 < mk_ask m" by (metis nth_mem)
    have "row_inv (rows ! i)" using assms(3) l(1) by (simp add: list_all_length)
    from paper_pass_closes [where codes = codes, OF this l(2) assms(2,1) m(1,4,5), of "fl (row_id (rows ! i))" bk] m show ?thesis by auto
  qed
  obtain ress rows' bk' where sw: "sweep_rows paper_executor ps codes quotes c fl ?is rows ?bk = (Inr ress, rows', bk')"
    and q: "\<forall>i \<in> set ?is. ?Q (rows' ! i)"
    using sweep_rows_all [where Q = ?Q and code = "\<lambda>i. the (codes (row_symbol_id (rows ! i)))", OF d _ one, of ?bk]
    by (auto simp: set_open_positions)
  have fr: "length rows' = length rows" "\<And>j. j \<notin> set ?is \<Longrightarrow> rows' ! j = rows ! j"
    using sweep_rows_frame [OF sw] by auto
  have st: "if swept mode (rows ! i) then ?Q (rows' ! i) else rows' ! i = rows ! i"
    if "i < length rows" for i
    using q fr(2) [of i] that by (simp add: sw_iff)
  have "list_all (\<lambda>i. if swept mode (rows ! i) then ?Q (rows' ! i) else rows' ! i = rows ! i) [0..<length rows]"
    using st by (simp add: list_all_iff)
  then show ?thesis using sw fr(1)
    by (simp add: tick_def run_once_def drain_position_events_def)
qed

theorem emergency_stop_flattens_witness:
  "\<exists>ev rows' bk'. tick paper_executor demo_policies demo_codes (demo_quotes (111/100)) (calm\<lparr>rx_emergency_stop := True\<rparr>) (Some ''paper'')
      (\<lambda>_. None) [demo_row\<lparr>row_mode := ''paper''\<rparr>, demo_row\<lparr>row_id := ''p2'', row_mode := ''demo'', row_side := ''short''\<rparr>] (no_books ()) = (ev, rows', bk')
    \<and> row_status (rows' ! 0) = P_closed \<and> rows' ! 1 = demo_row\<lparr>row_id := ''p2'', row_mode := ''demo'', row_side := ''short''\<rparr>"
proof -
  let ?c = "calm\<lparr>rx_emergency_stop := True\<rparr>" and ?rows = "[demo_row\<lparr>row_mode := ''paper''\<rparr>, demo_row\<lparr>row_id := ''p2'', row_mode := ''demo'', row_side := ''short''\<rparr>]"
  have inv: "list_all row_inv ?rows" using demo_row_inv by (simp add: row_inv_def)
  have ps: "EmergencyExit \<in> set demo_policies" by (simp add: demo_policies_def default_policies_def)
  have q: "\<forall>row \<in> set ?rows. swept (Some ''paper'') row \<longrightarrow>
      (\<exists>m. demo_codes (row_symbol_id row) = Some (mk_symbol m)
      \<and> mk_symbol m \<noteq> [] \<and> demo_quotes (111/100) (mk_symbol m) = Some m \<and> 0 < mk_bid m \<and> 0 < mk_ask m)"
    by (auto simp: demo_codes_def demo_quotes_def demo_row_def demo_quote_def)
  from emergency_stop_flattens [OF _ ps inv q, of ?c "\<lambda>_. None" "no_books ()"] show ?thesis
    by (auto simp: list_all_iff swept_def demo_row_def)
qed

end
