(* ===== verification/Position_Ingest.thy ===== *)
theory Position_Ingest
  imports Managed_Order Broker Position_Props "HOL-Library.AList"
begin

text \<open>
  Where position rows come from and how they are settled: the row a confirmed broker fill implies
  (\<open>backend/app/positions/ingest.py\<close>), the comparison of the two views
  (\<open>backend/app/brokers/reconcile.py\<close>) and the sweep that settles the rows against the venue
  (\<open>backend/app/positions/reconciler.py\<close>).

  The table is a list of rows; a query that returns the first match returns the first of the list.
  A dictionary built from a list is an association list with the order of the insertions, updated in
  place (\<open>AList.update\<close>).
\<close>

section \<open>The row of a fill\<close>

definition FILLED_STATES :: "order_status list" where
  "FILLED_STATES = [Filled, Partially_filled]"

definition position_side :: "string \<Rightarrow> string option" where
  "position_side s = map_of [(''buy'', ''long''), (''sell'', ''short'')] (str_lower s)"

definition find_row :: "string \<Rightarrow> string \<Rightarrow> position_row list \<Rightarrow> nat option" where
  "find_row venue_id mode rows =
     find (\<lambda>i. row_broker_position_id (rows ! i) = Some venue_id \<and> row_mode (rows ! i) = mode) [0..<length rows]"

definition updated_row :: "managed_order \<Rightarrow> rat \<Rightarrow> rat \<Rightarrow> position_row \<Rightarrow> position_row" where
  "updated_row ord q entry row = row
     \<lparr>row_quantity := q, row_entry_price := entry,
      row_initial_quantity := (if row_initial_quantity row < q then q else row_initial_quantity row),
      row_stop_loss := stop_loss ord, row_take_profit := take_profit ord\<rparr>"

text \<open>\<open>new_id\<close> is the id the database draws and \<open>utcnow\<close> the clock; a quantity has the eight decimal
  places of its column.\<close>

definition new_row ::
    "managed_order \<Rightarrow> rat \<Rightarrow> rat \<Rightarrow> string \<Rightarrow> string \<Rightarrow> string \<Rightarrow> string option \<Rightarrow> string option \<Rightarrow> string
     \<Rightarrow> time \<Rightarrow> string \<Rightarrow> position_row" where
  "new_row ord q entry venue_id sd symbol_id account version src utcnow new_id =
     \<lparr>row_id = new_id, row_mode = order_mode ord, row_broker_account_id = account, row_paper_account_id = None,
      row_symbol_id = symbol_id, row_strategy_version_id = version, row_broker_position_id = Some venue_id,
      row_side = sd, row_quantity = q, row_places = 8, row_entry_price = entry,
      row_stop_loss = stop_loss ord, row_take_profit = take_profit ord, row_status = P_open,
      row_opened_at = (case order_filled_at ord of Some t \<Rightarrow> t | None \<Rightarrow> utcnow), row_closed_at = None,
      row_source = src, row_initial_quantity = q, row_closed_quantity = 0, row_realized_pnl = None,
      row_broker_stop_loss = None, row_broker_take_profit = None, row_broker_synced_at = None\<rparr>"

definition record_fill_row ::
    "managed_order \<Rightarrow> string \<Rightarrow> string option \<Rightarrow> string option \<Rightarrow> string \<Rightarrow> time \<Rightarrow> string \<Rightarrow> position_row list
     \<Rightarrow> position_row option \<times> position_row list" where
  "record_fill_row ord symbol_id account version src utcnow new_id rows =
     (if order_mode ord \<notin> set BROKER_MODES then (None, rows)
      else if status ord \<notin> set FILLED_STATES then (None, rows)
      else let q = filled_quantity (book ord) in
      (case average_price (book ord) of None \<Rightarrow> (None, rows) | Some entry \<Rightarrow>
       if q \<le> 0 then (None, rows)
       else if \<not> truthy (broker_order_id ord) then (None, rows)
       else let venue_id = the (broker_order_id ord) in
       (case position_side (side ord) of None \<Rightarrow> (None, rows) | Some sd \<Rightarrow>
        (case find_row venue_id (order_mode ord) rows of
           Some i \<Rightarrow> let row = updated_row ord q entry (rows ! i) in (Some row, rows[i := row])
         | None \<Rightarrow> let row = new_row ord q entry venue_id sd symbol_id account version src utcnow new_id
                   in (Some row, rows @ [row])))))"

definition open_internal_positions :: "string \<Rightarrow> position_row list \<Rightarrow> position_row list" where
  "open_internal_positions mode rows =
     filter (\<lambda>r. row_mode r = mode \<and> row_status r \<in> {P_open, P_partially_closed, P_opening}) rows"

section \<open>Comparing the two views\<close>

datatype finding =
  Unexpected_at_broker | Missing_at_broker | Volume_mismatch | Price_mismatch | Bracket_mismatch
  | Unresolved_unknown | Unexpected_order_at_broker

record mismatch =
  mm_finding :: finding
  mm_position_id :: "string option"
  mm_symbol :: "string option"
  mm_ours :: "note_text option"
  mm_theirs :: "note_text option"

record internal_position =
  ip_position_id :: string
  ip_symbol :: string
  ip_side :: string
  ip_volume :: rat
  ip_entry_price :: "rat option"
  ip_stop_loss :: "rat option"
  ip_take_profit :: "rat option"
  ip_status :: string

record reconciliation =
  rn_checked_at :: time
  rn_broker_positions :: nat
  rn_internal_positions :: nat
  rn_mismatches :: "mismatch list"
  rn_unresolved_unknowns :: "string list"

definition rn_clean :: "reconciliation \<Rightarrow> bool" where
  "rn_clean r \<longleftrightarrow> rn_mismatches r = [] \<and> rn_unresolved_unknowns r = []"

definition rn_safe_to_trade :: "reconciliation \<Rightarrow> bool" where
  "rn_safe_to_trade r \<longleftrightarrow> rn_unresolved_unknowns r = []"

definition PRICE_TOLERANCE :: rat where "PRICE_TOLERANCE = 1 / 100000"

definition differs :: "rat option \<Rightarrow> rat option \<Rightarrow> rat \<Rightarrow> bool" where
  "differs a b tolerance = (case (a, b) of
     (Some x, Some y) \<Rightarrow> tolerance < dabs (dsub x y) | (None, None) \<Rightarrow> False | _ \<Rightarrow> True)"

definition dict_by :: "('v \<Rightarrow> 'k) \<Rightarrow> 'v list \<Rightarrow> ('k \<times> 'v) list" where
  "dict_by key xs = foldl (\<lambda>d x. AList.update (key x) x d) [] xs"

definition opt_text :: "rat option \<Rightarrow> frag" where
  "opt_text x = (case x of Some v \<Rightarrow> Num v | None \<Rightarrow> Txt ''None'')"

definition compare_pair :: "rat \<Rightarrow> string \<Rightarrow> broker_position \<Rightarrow> internal_position \<Rightarrow> mismatch list" where
  "compare_pair tol pid theirs ours =
     (if ip_volume ours \<noteq> bp_volume theirs
      then [\<lparr>mm_finding = Volume_mismatch, mm_position_id = Some pid, mm_symbol = Some (bp_symbol theirs),
             mm_ours = Some [Num (ip_volume ours)], mm_theirs = Some [Num (bp_volume theirs)]\<rparr>] else [])
   @ (if differs (ip_entry_price ours) (Some (bp_entry_price theirs)) tol
      then [\<lparr>mm_finding = Price_mismatch, mm_position_id = Some pid, mm_symbol = Some (bp_symbol theirs),
             mm_ours = Some [opt_text (ip_entry_price ours)], mm_theirs = Some [Num (bp_entry_price theirs)]\<rparr>] else [])
   @ (if differs (ip_stop_loss ours) (bp_stop_loss theirs) tol \<or> differs (ip_take_profit ours) (bp_take_profit theirs) tol
      then [\<lparr>mm_finding = Bracket_mismatch, mm_position_id = Some pid, mm_symbol = Some (bp_symbol theirs),
             mm_ours = Some [Txt ''sl='', opt_text (ip_stop_loss ours), Txt '' tp='', opt_text (ip_take_profit ours)],
             mm_theirs = Some [Txt ''sl='', opt_text (bp_stop_loss theirs), Txt '' tp='', opt_text (bp_take_profit theirs)]\<rparr>]
      else [])"

definition reconcile_positions ::
    "broker_position list \<Rightarrow> internal_position list \<Rightarrow> time \<Rightarrow> string list \<Rightarrow> broker_order list \<Rightarrow> string list option
     \<Rightarrow> rat \<Rightarrow> reconciliation" where
  "reconcile_positions broker internal now unknowns borders known tol =
     (let open_internal = filter (\<lambda>p. ip_status p = ''open'') internal;
          by_broker = dict_by bp_id broker;
          by_internal = dict_by ip_position_id open_internal;
          theirs = concat (map (\<lambda>(pid, t). case map_of by_internal pid of
             None \<Rightarrow> [\<lparr>mm_finding = Unexpected_at_broker, mm_position_id = Some pid, mm_symbol = Some (bp_symbol t),
               mm_ours = None, mm_theirs = Some [Txt (bp_side t), Txt '' '', Num (bp_volume t), Txt '' @ '',
                 Num (bp_entry_price t)]\<rparr>]
           | Some i \<Rightarrow> compare_pair tol pid t i) by_broker);
          ours = concat (map (\<lambda>(pid, i). if map_of by_broker pid \<noteq> None then []
             else [\<lparr>mm_finding = Missing_at_broker, mm_position_id = Some pid, mm_symbol = Some (ip_symbol i),
               mm_ours = Some [Txt (ip_side i), Txt '' '', Num (ip_volume i)], mm_theirs = None\<rparr>]) by_internal);
          orders = (case known of None \<Rightarrow> [] | Some ids \<Rightarrow> map (\<lambda>b. \<lparr>mm_finding = Unexpected_order_at_broker,
               mm_position_id = None, mm_symbol = Some (bo_symbol b), mm_ours = None,
               mm_theirs = Some [Txt (bo_side b), Txt '' '', Num (bo_volume b), Txt '' @ '', opt_text (bo_price b)]\<rparr>)
             (filter (\<lambda>b. bo_id b \<notin> set ids) borders));
          unresolved = map (\<lambda>i. \<lparr>mm_finding = Unresolved_unknown, mm_position_id = None, mm_symbol = None,
               mm_ours = None, mm_theirs = None\<rparr>) unknowns
      in \<lparr>rn_checked_at = now, rn_broker_positions = length broker, rn_internal_positions = length open_internal,
          rn_mismatches = theirs @ ours @ orders @ unresolved, rn_unresolved_unknowns = unknowns\<rparr>)"

section \<open>The sweep that settles\<close>

definition LIVE :: "position_status list" where
  "LIVE = [P_open, P_partially_closed, P_unknown, P_closing, P_opening]"

record reconcile_report =
  rr_at :: time
  rr_account_id :: string
  rr_reconciliation :: "reconciliation option"
  rr_closed_locally :: "string list"
  rr_synced :: "string list"
  rr_unexpected_at_broker :: "string list"
  rr_unattributed :: "string list"
  rr_failed :: "string option"

definition rr_clean :: "reconcile_report \<Rightarrow> bool" where
  "rr_clean r \<longleftrightarrow> rr_failed r = None
     \<and> (case rr_reconciliation r of None \<Rightarrow> False | Some x \<Rightarrow> rn_clean x) \<and> rr_unattributed r = []"

definition local_rows :: "string \<Rightarrow> string \<Rightarrow> position_row list \<Rightarrow> nat list" where
  "local_rows mode account rows = sort_key (\<lambda>i. row_opened_at (rows ! i)) (filter (\<lambda>i. let r = rows ! i in
     row_mode r = mode \<and> row_status r \<in> set LIVE
     \<and> (row_broker_account_id r = Some account \<or> row_paper_account_id r = Some account)) [0..<length rows])"

definition unattributed_rows :: "string \<Rightarrow> position_row list \<Rightarrow> nat list" where
  "unattributed_rows mode rows = sort_key (\<lambda>i. row_opened_at (rows ! i)) (filter (\<lambda>i. let r = rows ! i in
     row_mode r = mode \<and> row_status r \<in> set LIVE
     \<and> row_broker_account_id r = None \<and> row_paper_account_id r = None) [0..<length rows])"

definition marked :: "position_row \<Rightarrow> position_row" where
  "marked r = (if row_status r \<in> {P_open, P_partially_closed, P_unknown} then r\<lparr>row_status := P_reconciling\<rparr> else r)"

definition internal_of :: "position_row \<Rightarrow> internal_position" where
  "internal_of r = \<lparr>ip_position_id = (if truthy (row_broker_position_id r) then the (row_broker_position_id r) else row_id r),
     ip_symbol = row_symbol_id r, ip_side = row_side r, ip_volume = row_quantity r,
     ip_entry_price = Some (row_entry_price r), ip_stop_loss = row_stop_loss r, ip_take_profit = row_take_profit r,
     ip_status = ''open''\<rparr>"

datatype settled = Inconclusive | Gone string | Held broker_position

text \<open>\<open>_settle\<close>: what the venue says about a row, and the row afterwards.\<close>

definition verdict_on :: "(string \<times> broker_position) list \<Rightarrow> position_row \<Rightarrow> settled" where
  "verdict_on by_id r =
     (case (if truthy (row_broker_position_id r) then map_of by_id (the (row_broker_position_id r)) else None) of
        Some b \<Rightarrow> Held b
      | None \<Rightarrow> (case row_broker_position_id r of None \<Rightarrow> Inconclusive | Some i \<Rightarrow> Gone i))"

definition settled_row :: "settled \<Rightarrow> position_status \<Rightarrow> time \<Rightarrow> position_row \<Rightarrow> position_row" where
  "settled_row v previous t r = (case v of
     Inconclusive \<Rightarrow> r\<lparr>row_status := previous\<rparr>
   | Gone _ \<Rightarrow> r\<lparr>row_status := P_closed, row_closed_at := Some (case row_closed_at r of Some x \<Rightarrow> x | None \<Rightarrow> t),
               row_quantity := 0\<rparr>
   | Held b \<Rightarrow> r\<lparr>row_broker_stop_loss := bp_stop_loss b, row_broker_take_profit := bp_take_profit b,
               row_broker_synced_at := Some t,
               row_status := (if previous = P_partially_closed then P_partially_closed else P_open)\<rparr>)"

definition settled_change :: "settled \<Rightarrow> position_status \<Rightarrow> position_row \<Rightarrow> string \<times> position_change" where
  "settled_change v previous r = (case v of
     Inconclusive \<Rightarrow> (''reconcile_inconclusive'', Ch_restored previous)
   | Gone i \<Rightarrow> (''reconcile_closed'', Ch_gone i)
   | Held b \<Rightarrow> (''reconciled'', Ch_compared
       (if bp_volume b \<noteq> row_quantity r then Some (row_quantity r, bp_volume b) else None)
       (if bp_stop_loss b \<noteq> row_stop_loss r then Some (row_stop_loss r, bp_stop_loss b) else None)
       (if bp_take_profit b \<noteq> row_take_profit r then Some (row_take_profit r, bp_take_profit b) else None)))"

fun settle_rows ::
    "(string \<times> broker_position) list \<Rightarrow> (nat \<times> position_status) list \<Rightarrow> time \<Rightarrow> position_row list \<Rightarrow> reconcile_report
     \<Rightarrow> 's books \<Rightarrow> position_row list \<times> reconcile_report \<times> 's books" where
  "settle_rows by_id [] t rows rep bk = (rows, rep, bk)"
| "settle_rows by_id ((i, previous) # is) t rows rep bk =
     (let r = rows ! i; v = verdict_on by_id r; r' = settled_row v previous t r;
          (kind, ch) = settled_change v previous r;
          rep' = (case v of Inconclusive \<Rightarrow> rep
            | Gone _ \<Rightarrow> rep\<lparr>rr_closed_locally := rr_closed_locally rep @ [row_id r]\<rparr>
            | Held _ \<Rightarrow> rep\<lparr>rr_synced := rr_synced rep @ [row_id r]\<rparr>)
      in settle_rows by_id is t (rows[i := r']) rep' (record_change r' kind t ch bk))"

definition empty_report :: "time \<Rightarrow> string \<Rightarrow> reconcile_report" where
  "empty_report t account = \<lparr>rr_at = t, rr_account_id = account, rr_reconciliation = None, rr_closed_locally = [],
     rr_synced = [], rr_unexpected_at_broker = [], rr_unattributed = [], rr_failed = None\<rparr>"

definition mark_rows :: "nat list \<Rightarrow> position_row list \<Rightarrow> position_row list" where
  "mark_rows is rows = foldl (\<lambda>rs i. rs[i := marked (rs ! i)]) rows is"

definition reconcile_sweep ::
    "broker_position list answer \<Rightarrow> string \<Rightarrow> string \<Rightarrow> time \<Rightarrow> position_row list \<Rightarrow> 's books
     \<Rightarrow> reconcile_report \<times> position_row list \<times> 's books" where
  "reconcile_sweep answer mode account t rows bk =
     (let is = local_rows mode account rows; rep = empty_report t account in
      case answer of
        Broker_error e \<Rightarrow> (rep\<lparr>rr_failed := Some e\<rparr>, rows, bk)
      | Other_error e \<Rightarrow> (rep\<lparr>rr_failed := Some e\<rparr>, rows, bk)
      | Answer positions \<Rightarrow>
          let marked_rows = mark_rows is rows;
              rn = reconcile_positions positions (map (\<lambda>i. internal_of (rows ! i)) is) t [] [] None PRICE_TOLERANCE;
              (rows', rep', bk') = settle_rows (dict_by bp_id positions)
                 (map (\<lambda>i. (i, row_status (rows ! i))) is) t marked_rows (rep\<lparr>rr_reconciliation := Some rn\<rparr>) bk
          in (rep'\<lparr>rr_unattributed := map (\<lambda>i. row_id (rows' ! i)) (unattributed_rows mode rows'),
                   rr_unexpected_at_broker := map (\<lambda>m. the (mm_position_id m)) (filter (\<lambda>m.
                     mm_finding m = Unexpected_at_broker \<and> truthy (mm_position_id m)) (rn_mismatches rn))\<rparr>, rows', bk'))"

section \<open>A fill is recorded once\<close>

lemma find_row_Some:
  "find_row v m rows = Some i \<Longrightarrow> i < length rows \<and> row_broker_position_id (rows ! i) = Some v \<and> row_mode (rows ! i) = m"
  unfolding find_row_def by (drule find_Some_mem) simp

lemma find_upt_same:
  "find P [0..<n] = Some i \<Longrightarrow> (\<And>j. j < n \<Longrightarrow> Q j = P j) \<Longrightarrow> find Q [0..<n] = Some i"
  using find_cong [of "[0..<n]" "[0..<n]" Q P] by simp

lemma find_row_updated:
  assumes "find_row v m rows = Some i"
  shows "find_row v m (rows[i := updated_row ord q e (rows ! i)]) = Some i"
proof -
  note i = find_row_Some [OF assms]
  have "find (\<lambda>j. row_broker_position_id (rows[i := updated_row ord q e (rows ! i)] ! j) = Some v
      \<and> row_mode (rows[i := updated_row ord q e (rows ! i)] ! j) = m) [0..<length rows] = Some i"
    by (rule find_upt_same [OF assms [unfolded find_row_def]]) (use i in \<open>auto simp: nth_list_update updated_row_def\<close>)
  then show ?thesis by (simp add: find_row_def)
qed

lemma find_snoc: "find P (xs @ [x]) = (case find P xs of None \<Rightarrow> if P x then Some x else None | Some y \<Rightarrow> Some y)"
  by (induction xs) auto

lemma find_row_appended:
  assumes "find_row v m rows = None" "row_broker_position_id r = Some v" "row_mode r = m"
  shows "find_row v m (rows @ [r]) = Some (length rows)"
proof -
  have "find (\<lambda>i. row_broker_position_id ((rows @ [r]) ! i) = Some v \<and> row_mode ((rows @ [r]) ! i) = m) [0..<length rows] = None"
    using assms(1) by (auto simp: find_row_def find_None_iff' nth_append)
  then show ?thesis using assms(2,3)
    by (simp add: find_row_def find_snoc)
qed

lemma updated_twice: "updated_row ord q e (updated_row ord q e r) = updated_row ord q e r"
  by (simp add: updated_row_def)

lemma updated_new: "updated_row ord q e (new_row ord q e v sd sy ac ve src t i) = new_row ord q e v sd sy ac ve src t i"
  by (simp add: updated_row_def new_row_def)

text \<open>What a fill that is recorded is.\<close>

definition recordable :: "managed_order \<Rightarrow> bool" where
  "recordable ord \<longleftrightarrow> order_mode ord \<in> set BROKER_MODES \<and> status ord \<in> set FILLED_STATES
     \<and> average_price (book ord) \<noteq> None \<and> 0 < filled_quantity (book ord) \<and> truthy (broker_order_id ord)
     \<and> position_side (side ord) \<noteq> None"

lemma record_fill_not: "\<not> recordable ord \<Longrightarrow> record_fill_row ord sy ac ve src t i rows = (None, rows)"
  by (auto simp: recordable_def record_fill_row_def Let_def split: option.splits)

lemma record_fill_recordable:
  assumes "recordable ord"
  shows "record_fill_row ord sy ac ve src t i rows =
    (let q = filled_quantity (book ord); e = the (average_price (book ord)); v = the (broker_order_id ord) in
     case find_row v (order_mode ord) rows of
       Some j \<Rightarrow> (Some (updated_row ord q e (rows ! j)), rows[j := updated_row ord q e (rows ! j)])
     | None \<Rightarrow> let r = new_row ord q e v (the (position_side (side ord))) sy ac ve src t i in (Some r, rows @ [r]))"
  using assms by (auto simp: recordable_def record_fill_row_def Let_def split: option.splits)

text \<open>A fill becomes one position. An order is persisted several times; however often and
  whenever its fill is recorded, the table afterwards is the one after the first time, which has at
  most one row more. Nothing is recorded unless the order is a demo or live one that the venue has
  filled, with a price and an identifier.\<close>

theorem fill_recorded_once:
  "let rows1 = snd (record_fill_row ord sy ac ve src t i rows) in
     snd (record_fill_row ord sy' ac' ve' src' t' i' rows1) = rows1
   \<and> length rows1 \<le> length rows + 1 \<and> (rows1 = rows \<or> recordable ord)"
proof (cases "recordable ord")
  case False
  then show ?thesis by (simp add: record_fill_not)
next
  case True
  let ?q = "filled_quantity (book ord)" and ?e = "the (average_price (book ord))" and ?v = "the (broker_order_id ord)"
  show ?thesis
  proof (cases "find_row ?v (order_mode ord) rows")
    case None
    let ?r = "new_row ord ?q ?e ?v (the (position_side (side ord))) sy ac ve src t i"
    have "find_row ?v (order_mode ord) (rows @ [?r]) = Some (length rows)"
      by (rule find_row_appended [OF None]) (simp_all add: new_row_def)
    with None True show ?thesis by (simp add: record_fill_recordable Let_def updated_new)
  next
    case (Some j)
    from find_row_updated [OF Some, of ord ?q ?e] find_row_Some [OF Some] Some True show ?thesis
      by (simp add: record_fill_recordable Let_def updated_twice)
  qed
qed

text \<open>An order whose row has been reduced since: recording its fill again opens the closed part
  again, and the row counts more than the position ever had.\<close>

lemma recording_again_reopens:
  assumes "recordable ord" "find_row (the (broker_order_id ord)) (order_mode ord) rows = Some j"
    and "row_initial_quantity (rows ! j) = filled_quantity (book ord)" "0 < row_closed_quantity (rows ! j)"
  shows "let r' = snd (record_fill_row ord sy ac ve src t i rows) ! j in row_quantity r' = row_initial_quantity r'
    \<and> row_initial_quantity r' < row_quantity r' + row_closed_quantity r' \<and> row_stop_loss r' = stop_loss ord"
  using assms find_row_Some [OF assms(2)] by (simp_all add: record_fill_recordable Let_def updated_row_def)

section \<open>A sweep settles against the venue\<close>

lemma mark_rows_nth:
  "i < length rows \<Longrightarrow> distinct is \<Longrightarrow> mark_rows is rows ! i = (if i \<in> set is then marked (rows ! i) else rows ! i)"
proof (induction "is" arbitrary: rows)
  case (Cons j "is")
  have "mark_rows (j # is) rows = mark_rows is (rows[j := marked (rows ! j)])" by (simp add: mark_rows_def)
  with Cons.IH [of "rows[j := marked (rows ! j)]"] Cons.prems show ?case by (cases "i = j") auto
qed (simp add: mark_rows_def)

lemma length_mark_rows [simp]: "length (mark_rows is rows) = length rows"
  unfolding mark_rows_def by (induction "is" arbitrary: rows) auto

lemma settle_rows_Cons:
  "\<exists>rep1 bk1. settle_rows by_id ((j, p) # is) t rows rep bk
     = settle_rows by_id is t (rows[j := settled_row (verdict_on by_id (rows ! j)) p t (rows ! j)]) rep1 bk1
   \<and> rr_failed rep1 = rr_failed rep"
  by (cases "settled_change (verdict_on by_id (rows ! j)) p (rows ! j)"; cases "verdict_on by_id (rows ! j)")
     (auto simp: Let_def)

lemma settle_rows_nth:
  "settle_rows by_id is t rows rep bk = (rows', rep', bk') \<Longrightarrow> distinct (map fst is) \<Longrightarrow> i < length rows \<Longrightarrow>
     length rows' = length rows \<and> rr_failed rep' = rr_failed rep
   \<and> rows' ! i = (case map_of is i of None \<Rightarrow> rows ! i
       | Some previous \<Rightarrow> settled_row (verdict_on by_id (rows ! i)) previous t (rows ! i))"
proof (induction "is" arbitrary: rows rep bk)
  case (Cons x "is")
  obtain j p where x: "x = (j, p)" by fastforce
  let ?rows = "rows[j := settled_row (verdict_on by_id (rows ! j)) p t (rows ! j)]"
  from settle_rows_Cons [of by_id j p "is" t rows rep bk] Cons.prems(1) obtain rep1 bk1 where
    r: "settle_rows by_id is t ?rows rep1 bk1 = (rows', rep', bk')" "rr_failed rep1 = rr_failed rep" unfolding x by metis
  have "distinct (map fst is)" "i < length ?rows" using Cons.prems x by simp_all
  note IH = Cons.IH [OF r(1) this]
  show ?case
  proof (cases "i = j")
    case True
    then have "map_of is i = None" using Cons.prems(2) x by (simp add: map_of_eq_None_iff)
    with IH True r(2) Cons.prems(3) x show ?thesis by simp
  next
    case False
    then have e: "?rows ! i = rows ! i" by (metis nth_list_update_neq)
    show ?thesis using IH [unfolded e] False r(2) x by simp
  qed
qed simp

lemma verdict_marked: "verdict_on by_id (marked r) = verdict_on by_id r"
  by (auto simp: verdict_on_def marked_def split: option.splits)

lemma settled_marked: "settled_row v previous t (marked r) = settled_row v previous t r"
  by (simp add: settled_row_def marked_def split: settled.splits)

lemma set_local_rows:
  "i \<in> set (local_rows mode account rows) \<longleftrightarrow> i < length rows \<and> row_mode (rows ! i) = mode
     \<and> row_status (rows ! i) \<in> set LIVE
     \<and> (row_broker_account_id (rows ! i) = Some account \<or> row_paper_account_id (rows ! i) = Some account)"
  by (auto simp: local_rows_def Let_def)

lemma sweep_rows_settled:
  assumes "reconcile_sweep (Answer ps) mode account t rows bk = (rep, rows', bk')" "i < length rows"
  shows "length rows' = length rows \<and> rows' ! i = (if i \<in> set (local_rows mode account rows)
    then settled_row (verdict_on (dict_by bp_id ps) (rows ! i)) (row_status (rows ! i)) t (rows ! i) else rows ! i)"
proof -
  let ?is = "local_rows mode account rows"
  let ?ms = "map (\<lambda>i. (i, row_status (rows ! i))) ?is"
  have d: "distinct ?is" by (simp add: local_rows_def)
  obtain rep0 rep1 where s: "settle_rows (dict_by bp_id ps) ?ms t (mark_rows ?is rows) rep0 bk = (rows', rep1, bk')"
    using assms(1) by (auto simp: reconcile_sweep_def Let_def split: prod.splits)
  have m: "map_of ?ms i = (if i \<in> set ?is then Some (row_status (rows ! i)) else None)"
    by (induction ?is) (auto simp: map_of_eq_None_iff map_of_map_restrict restrict_map_def)
  have dm: "distinct (map fst ?ms)" using d by (simp add: comp_def)
  from settle_rows_nth [OF s dm, of i] show ?thesis
    using assms(2) d m by (simp add: mark_rows_nth verdict_marked settled_marked)
qed

lemma dict_by_None: "map_of (dict_by f xs) k = None \<longleftrightarrow> k \<notin> f ` set xs"
proof -
  have "map_of (foldl (\<lambda>d x. AList.update (f x) x d) d xs) k = None \<longleftrightarrow> map_of d k = None \<and> k \<notin> f ` set xs" for d
    by (induction xs arbitrary: d) (auto simp: update_conv')
  then show ?thesis by (simp add: dict_by_def)
qed

lemma sweep_failed:
  assumes "reconcile_sweep (Answer ps) mode account t rows bk = (rep, rows', bk')" "i < length rows"
  shows "rr_failed rep = None"
proof -
  let ?ms = "map (\<lambda>i. (i, row_status (rows ! i))) (local_rows mode account rows)"
  obtain rn rep1 where s: "settle_rows (dict_by bp_id ps) ?ms t (mark_rows (local_rows mode account rows) rows)
      ((empty_report t account)\<lparr>rr_reconciliation := rn\<rparr>) bk = (rows', rep1, bk')" "rr_failed rep = rr_failed rep1"
    using assms(1) by (auto simp: reconcile_sweep_def Let_def split: prod.splits)
  have "distinct (map fst ?ms)" by (simp add: comp_def local_rows_def)
  from settle_rows_nth [OF s(1) this, of i] assms(2) s(2) show ?thesis by (simp add: empty_report_def)
qed

lemma settled_row_frame:
  "row_stop_loss (settled_row v p t r) = row_stop_loss r" "row_take_profit (settled_row v p t r) = row_take_profit r"
  "row_entry_price (settled_row v p t r) = row_entry_price r"
  "row_initial_quantity (settled_row v p t r) = row_initial_quantity r"
  "row_closed_quantity (settled_row v p t r) = row_closed_quantity r"
  "row_realized_pnl (settled_row v p t r) = row_realized_pnl r"
  "p \<noteq> P_reconciling \<Longrightarrow> row_status (settled_row v p t r) \<noteq> P_reconciling"
  "row_quantity (settled_row v p t r) = (case v of Gone _ \<Rightarrow> 0 | _ \<Rightarrow> row_quantity r)"
  "v = Gone i \<Longrightarrow> row_status (settled_row v p t r) = P_closed"
  by (auto simp: settled_row_def split: settled.splits)

lemma verdict_Gone:
  assumes "verdict_on (dict_by bp_id ps) r = Gone i"
  shows "row_broker_position_id r = Some i \<and> (i = [] \<or> i \<notin> set (map bp_id ps))"
  using assms dict_by_None [of bp_id ps i] by (auto simp: verdict_on_def split: option.splits if_splits)


definition held_row :: position_row where
  "held_row = demo_row\<lparr>row_mode := ''demo'', row_paper_account_id := None, row_broker_account_id := Some ''a1'',
     row_broker_position_id := Some ''v9''\<rparr>"


end
