(* ===== verification/Broker_Exit.thy ===== *)
theory Broker_Exit
  imports Oms_Props Position_Ingest
begin

text \<open>
  Closing a position at a venue, \<open>backend/app/positions/broker_executor.py\<close>: the executor that
  approves a close with the risk engine, creates its order with the account's order manager and
  sends it (\<open>oms/registry.py\<close> keeps one manager for an account). Its state is the managers and the
  list of the orders it has written down. The adapters, the clock, the identifiers drawn and the
  digest of the approvals are parameters; the texts of the outcomes are abbreviated.
\<close>

record exit_venue =
  xv_managers :: "string \<rightharpoonup> oms"
  xv_orders :: "managed_order list" \<comment> \<open>the orders given to the store, in order\<close>

section \<open>The amount and the intent\<close>

text \<open>\<open>_volume\<close>: the amount and its decimal places; None is an impossible request.\<close>

definition close_volume :: "position_view \<Rightarrow> exit_decision \<Rightarrow> (rat \<times> int) option" where
  "close_volume p d = (case ed_quantity d of
     None \<Rightarrow> if pv_quantity p \<le> 0 then None else Some (pv_quantity p, pv_places p)
   | Some q \<Rightarrow> if q \<le> 0 \<or> pv_quantity p < q then None else Some (q, ed_places d))"

text \<open>\<open>str\<close> of a positive Decimal with a number of decimal places: fixed notation, or scientific
  notation when its leading digit is more than six places after the point or it has no point.\<close>

function digits_of :: "int \<Rightarrow> string" where
  "digits_of n = (if n < 10 then [char_of (48 + n)] else digits_of (n div 10) @ [char_of (48 + n mod 10)])"
  by pat_completeness auto
termination by (relation "measure nat") auto

declare digits_of.simps [simp del]

definition str_decimal :: "rat \<Rightarrow> int \<Rightarrow> string" where
  "str_decimal v places =
     (let ds = digits_of \<lfloor>v * p10 places\<rfloor>; left = int (length ds) - places in
      if 0 \<le> places \<and> - 6 < left
      then (if places = 0 then ds
            else if left \<le> 0 then ''0.'' @ replicate (nat (- left)) (CHR ''0'') @ ds
            else take (nat left) ds @ ''.'' @ drop (nat left) ds)
      else take 1 ds @ (if length ds = 1 then [] else ''.'' @ drop 1 ds) @ ''E''
        @ (if left - 1 < 0 then ''-'' else ''+'') @ digits_of \<bar>left - 1\<bar>)"

definition exit_intent :: "position_view \<Rightarrow> rat \<Rightarrow> int \<Rightarrow> string" where
  "exit_intent p volume places = ''close:'' @ pv_id p @ '':'' @ str_decimal volume places"

section \<open>The order\<close>

definition close_proposal :: "string \<Rightarrow> string \<Rightarrow> position_view \<Rightarrow> exit_decision \<Rightarrow> rat \<Rightarrow> order_proposal" where
  "close_proposal mode account p d volume =
     \<lparr>pp_symbol = pv_symbol p, pp_side = (if pv_side p = ''long'' then ''sell'' else ''buy''), pp_mode = mode,
      pp_volume = Some volume, pp_entry_price = Some (ed_reference_price d), pp_stop_loss = None,
      pp_take_profit = None, pp_risk_amount = None, pp_spread_points = None, pp_account_id = Some account,
      pp_strategy_id = pv_strategy_version_id p, pp_signal_id = None, pp_signal_time = None,
      pp_base_currency = None, pp_quote_currency = None\<rparr>"

definition close_args :: "string \<Rightarrow> string \<Rightarrow> create_args" where
  "close_args intent account = \<lparr>ca_intent_id = intent, ca_account_id = account, ca_order_id = None,
     ca_order_type = ''market'', ca_time_in_force = ''gtc'', ca_bot_id = None, ca_expires_at = None\<rparr>"

text \<open>Inside the account's lock: the guard and the creation, whose refusals are caught.\<close>

definition open_close ::
    "(string \<Rightarrow> 'h) \<Rightarrow> 'h approval \<Rightarrow> string \<Rightarrow> string \<Rightarrow> string \<Rightarrow> time \<Rightarrow> (ref \<times> bool) act" where
  "open_close digest ap intent account new_id now =
     thenS (guard_resend intent) (create digest ap (close_args intent account) new_id now)"

text \<open>The reading of the order after the close.\<close>

definition rejected_close :: "string \<Rightarrow> close_outcome" where
  "rejected_close why = no_fill C_rejected (C_text why) ''none''"

definition unknown_close :: "string \<Rightarrow> close_outcome" where
  "unknown_close why = no_fill C_unknown (C_text why) ''none''"

definition outcome_of :: "managed_order \<Rightarrow> time \<Rightarrow> close_outcome" where
  "outcome_of ord now =
     (if status ord = Unknown then unknown_close ''the answer was unclear''
      else if status ord \<in> {Rejected, Failed} then rejected_close ''the venue refused the close''
      else if status ord \<noteq> Filled then unknown_close ''a close is confirmed only on a full fill''
      else (case average_price (book ord) of
        None \<Rightarrow> unknown_close ''the venue accepted the close but reported no fill price''
      | Some price \<Rightarrow> \<lparr>co_status = C_confirmed, co_detail = C_text (''closed at the venue as order '' @ oid ord),
          co_fill_price = Some price,
          co_closed_at = Some (case order_filled_at ord of Some t \<Rightarrow> t | None \<Rightarrow> now),
          co_broker_deal_id = broker_order_id ord,
          co_fill_source = (if fills (book ord) = [] then ''broker'' else fr_source (last (fills (book ord)))),
          co_realized_pnl = (if fills (book ord) = [] then None else fr_realized_pnl (last (fills (book ord))))\<rparr>))"

definition put_manager :: "string \<Rightarrow> oms \<Rightarrow> exit_venue \<Rightarrow> exit_venue" where
  "put_manager account st x = x\<lparr>xv_managers := (xv_managers x)(account \<mapsto> st)\<rparr>"

definition record_order :: "managed_order \<Rightarrow> exit_venue \<Rightarrow> exit_venue" where
  "record_order ord x = x\<lparr>xv_orders := xv_orders x @ [ord]\<rparr>"

text \<open>What follows a creation: the record, the close at the venue and the record again.\<close>

definition send_close ::
    "adapter \<Rightarrow> string \<Rightarrow> string \<Rightarrow> ref \<Rightarrow> time \<Rightarrow> oms \<Rightarrow> exit_venue \<Rightarrow> (string + close_outcome) \<times> exit_venue" where
  "send_close ad account pid r now st x =
     (let x = record_order (heap st ! r) (put_manager account st x) in
      case close ad r pid now st of
        (Inl e, st') \<Rightarrow> (Inl ''close raised'', put_manager account st' x)
      | (Inr _, st') \<Rightarrow> (Inr (outcome_of (heap st' ! r) now), record_order (heap st' ! r) (put_manager account st' x)))"

definition broker_close ::
    "(string \<Rightarrow> 'h) \<Rightarrow> risk_limits \<Rightarrow> kill_switches \<Rightarrow> (string \<Rightarrow> adapter) \<Rightarrow> string \<Rightarrow> string \<Rightarrow> string \<Rightarrow> time
     \<Rightarrow> exit_venue executor" where
  "broker_close digest li ks ads mode did new_id now p m d x =
     (case pv_broker_position_id p of None \<Rightarrow> (Inr (unknown_close ''the position has no broker id''), x)
      | Some pid \<Rightarrow>
      if \<not> truthy (pv_account_id p) then (Inr (rejected_close ''the position names no account''), x)
      else let account = the (pv_account_id p) in
      (case xv_managers x account of None \<Rightarrow> (Inr (rejected_close ''no order manager is registered''), x)
       | Some st \<Rightarrow>
       if mgr_mode st \<noteq> mode then (Inr (rejected_close ''the manager runs another mode''), x)
       else (case close_volume p d of None \<Rightarrow> (Inr (rejected_close ''the close exceeds what is open''), x)
        | Some (volume, places) \<Rightarrow>
        if pv_symbol p = [] then (Inr (rejected_close ''the position has no resolved symbol code''), x)
        else (case approve_close digest did li ks (close_proposal mode account p d volume) None now of
            (None, v) \<Rightarrow> (Inr (rejected_close ''the risk engine refused this close''), x)
          | (Some ap, v) \<Rightarrow>
            (case open_close digest ap (exit_intent p volume places) account new_id now st of
               (Inl (ReconciliationRequired q), st') \<Rightarrow>
                  (Inr (unknown_close ''a previous close is unresolved''), put_manager account st' x)
             | (Inl (OrderRefused q), st') \<Rightarrow>
                  (Inr (rejected_close ''the order was refused''), put_manager account st' x)
             | (Inl (OrderExc q), st') \<Rightarrow> (Inl ''create raised'', put_manager account st' x)
             | (Inr (r, True), st') \<Rightarrow>
                  (Inr (rejected_close ''this close is already an order; it is not sent twice''), put_manager account st' x)
             | (Inr (r, False), st') \<Rightarrow> send_close (ads account) account pid r now st' x)))))"

section \<open>The managers stay managed\<close>

definition registry_ok :: "(string \<Rightarrow> 'h) \<Rightarrow> exit_venue \<Rightarrow> bool" where
  "registry_ok digest x \<longleftrightarrow> (\<forall>acc st. xv_managers x acc = Some st \<longrightarrow> managed digest st)"

lemma guard_state: "snd (guard_resend i st) = st"
  by (auto simp: guard_resend_def run_all split: option.splits)

lemma open_close_managed:
  assumes "managed digest st" "open_close digest ap i acc n now st = (res, st')"
  shows "managed digest st'"
proof -
  obtain g st0 where g: "guard_resend i st = (g, st0)" by fastforce
  then have "st0 = st" using guard_state [of i st] by simp
  then have "st' = st \<or> st' = snd (create digest ap (close_args i acc) n now st)"
    using assms(2) g by (auto simp: open_close_def run_all split: sum.splits)
  then show ?thesis using assms(1) managed_step [OF assms(1) mgr_step.create] by metis
qed

lemma open_close_new:
  assumes "open_close digest ap i acc n now st = (Inr (r, False), st')"
  shows "create digest ap (close_args i acc) n now st = (Inr (r, False), st')"
  using assms guard_state [of i st] by (auto simp: open_close_def run_all split: sum.splits prod.splits)

lemma create_new_order:
  assumes "create digest ap ca n now st = (Inr (r, False), st')"
  shows "r = length (heap st)" "heap st' = heap st @ [order_of st ap ca n now]"
    "orders st' (oid (order_of st ap ca n now)) = Some r"
proof -
  have c: "creatable digest ap ca now st" using create_kept [of digest ap ca now st n] assms by fastforce
  have "r = length (heap st) \<and> st' = enrol (order_of st ap ca n now) st"
    using assms unfolding create_new [OF c] by simp
  then show "r = length (heap st)" "heap st' = heap st @ [order_of st ap ca n now]"
    "orders st' (oid (order_of st ap ca n now)) = Some r"
    using enrol_core [of "order_of st ap ca n now" st] by (auto simp: same_core_def register_def Let_def)
qed

lemma close_evolves: "evolves st (snd (close ad r pid now st))"
  using memory.close by (simp add: holds_def remembers_def)

lemma close_sends:
  assumes "manager_inv st" "held st r" "status (heap st ! r) = Intent" "pid \<noteq> []"
  shows "sends (snd (close ad r pid now st)) = sends st @ [Close r pid (quantity (heap st ! r)) Submitting]"
proof -
  let ?ord = "heap st ! r"
  have "sends (snd (seqS
       [moveS r Submitting now ''pipeline'' [Txt ''close persisted before transmission; a crash here is reconcilable''] None,
        countS ''closes_submitted'' 1,
        bindS (ordS r) (\<lambda>ord'. callS (Close r pid (quantity ord') (status ord'))),
        settle ad r (close_position ad pid (quantity ?ord)) now] st)) = sends st @ [Close r pid (quantity ?ord) Submitting]"
    by (rule send_and_settle(2) [OF assms(1,2,3), where mkc = "Close r pid (quantity ?ord)"
        and mkc' = "\<lambda>o'. Close r pid (quantity o') (status o')"])
       (simp_all add: grows_def)
  with assms(3,4) show ?thesis unfolding close_def run_bind(5) by simp
qed

lemma close_mode: "mgr_mode (snd (close ad r pid now st)) = mgr_mode st"
  using mode.close by (simp add: holds_def same_mode_def)

lemma create_mode: "create digest ap ca n now st = (Inr (r, False), st') \<Longrightarrow> mgr_mode st' = mgr_mode st"
proof -
  assume c: "create digest ap ca n now st = (Inr (r, False), st')"
  then have k: "creatable digest ap ca now st" using create_kept [of digest ap ca now st n] by fastforce
  show ?thesis using c enrol_core [of "order_of st ap ca n now" st] unfolding create_new [OF k]
    by (simp add: same_core_def register_def Let_def)
qed

section \<open>How a close can end\<close>

text \<open>Only the path through an approval, a new order and the venue confirms.\<close>

lemma broker_close_cases:
  assumes "broker_close digest li ks ads mode did n now p m d x = (res, x')"
  obtains (Nothing) oc where "res = Inr oc" "co_status oc \<noteq> C_confirmed" "x' = x"
  | (Opened) acc st st' ap a v pl where "pv_account_id p = Some acc" "xv_managers x acc = Some st" "mgr_mode st = mode"
      "close_volume p d = Some (v, pl)" "x' = put_manager acc st' x"
      "open_close digest ap (exit_intent p v pl) acc n now st = (a, st')"
      "\<And>oc. res = Inr oc \<Longrightarrow> co_status oc \<noteq> C_confirmed"
  | (Sent) acc pid st st' ap vd v pl r where "pv_account_id p = Some acc" "pv_broker_position_id p = Some pid"
      "xv_managers x acc = Some st" "mgr_mode st = mode" "close_volume p d = Some (v, pl)"
      "approve_close digest did li ks (close_proposal mode acc p d v) None now = (Some ap, vd)"
      "open_close digest ap (exit_intent p v pl) acc n now st = (Inr (r, False), st')"
      "(res, x') = send_close (ads acc) acc pid r now st' x"
proof (cases "pv_broker_position_id p")
  case None
  then show thesis using assms by (intro Nothing) (auto simp: broker_close_def unknown_close_def no_fill_def)
next
  case pid: (Some pid)
  let ?acc = "the (pv_account_id p)"
  have rej: "co_status (rejected_close w) \<noteq> C_confirmed" "co_status (unknown_close w) \<noteq> C_confirmed" for w
    by (simp_all add: rejected_close_def unknown_close_def no_fill_def)
  show thesis
  proof (cases "truthy (pv_account_id p) \<and> xv_managers x ?acc \<noteq> None \<and> mgr_mode (the (xv_managers x ?acc)) = mode
      \<and> close_volume p d \<noteq> None \<and> pv_symbol p \<noteq> []
      \<and> fst (approve_close digest did li ks (close_proposal mode ?acc p d (fst (the (close_volume p d)))) None now) \<noteq> None")
    case False
    then have "\<exists>oc. res = Inr oc \<and> co_status oc \<noteq> C_confirmed \<and> x' = x" using assms pid rej
      by (auto simp: broker_close_def Let_def split: if_splits option.splits prod.splits)
    then show thesis using Nothing by blast
  next
    case True
    then obtain st v pl ap vd where ok: "pv_account_id p = Some ?acc" "truthy (pv_account_id p)" "xv_managers x ?acc = Some st"
      "mgr_mode st = mode" "close_volume p d = Some (v, pl)" "pv_symbol p \<noteq> []"
      "approve_close digest did li ks (close_proposal mode ?acc p d v) None now = (Some ap, vd)"
      by (cases "close_volume p d"; cases "approve_close digest did li ks
        (close_proposal mode ?acc p d (fst (the (close_volume p d)))) None now"; cases "pv_account_id p") auto
    obtain a st' where oc: "open_close digest ap (exit_intent p v pl) ?acc n now st = (a, st')" by fastforce
    have red: "broker_close digest li ks ads mode did n now p m d x =
      (case a of Inl (ReconciliationRequired q) \<Rightarrow> (Inr (unknown_close ''a previous close is unresolved''), put_manager ?acc st' x)
         | Inl (OrderRefused q) \<Rightarrow> (Inr (rejected_close ''the order was refused''), put_manager ?acc st' x)
         | Inl (OrderExc q) \<Rightarrow> (Inl ''create raised'', put_manager ?acc st' x)
         | Inr (r, True) \<Rightarrow> (Inr (rejected_close ''this close is already an order; it is not sent twice''), put_manager ?acc st' x)
         | Inr (r, False) \<Rightarrow> send_close (ads ?acc) ?acc pid r now st' x)"
      using ok pid oc by (simp add: broker_close_def Let_def split: sum.split oms_exc.split)
    show thesis
    proof (cases "\<exists>r. a = Inr (r, False)")
      case True
      then obtain r where "a = Inr (r, False)" by blast
      with red assms oc ok pid show thesis by (intro Sent [OF ok(1) pid ok(3-5,7)]) auto
    next
      case False
      with red assms rej show thesis
        by (intro Opened [OF ok(1,3-5) _ oc]) (auto split: sum.splits oms_exc.splits bool.splits)
    qed
  qed
qed

lemma managed_close: "managed digest st \<Longrightarrow> held st r \<Longrightarrow> managed digest (snd (close ad r pid now st))"
  by (erule managed_step) (rule mgr_step.close)

lemma send_close_managers:
  assumes "(res, x') = send_close ad acc pid r now st x"
  shows "xv_managers x' = (xv_managers x)(acc \<mapsto> snd (close ad r pid now st))"
  using assms by (auto simp: send_close_def put_manager_def record_order_def Let_def split: sum.splits prod.splits)

lemma broker_close_registry:
  assumes ok: "registry_ok digest x" and bc: "broker_close digest li ks ads mode did n now p m d x = (res, x')"
  shows "registry_ok digest x'"
  using bc
proof (cases rule: broker_close_cases)
  case (Nothing oc)
  with ok show ?thesis by simp
next
  case (Opened acc st st' ap a v pl)
  have "managed digest st'" using open_close_managed [OF _ Opened(6)] ok Opened(2) by (simp add: registry_ok_def)
  with ok Opened(5) show ?thesis by (auto simp: registry_ok_def put_manager_def)
next
  case (Sent acc pid st st' ap vd v pl r)
  have m: "managed digest st'" using open_close_managed [OF _ Sent(7)] ok Sent(3) by (simp add: registry_ok_def)
  have "orders st' (oid (order_of st ap (close_args (exit_intent p v pl) acc) n now)) = Some r"
    using create_new_order(3) [OF open_close_new [OF Sent(7)]] .
  then have "managed digest (snd (close (ads acc) r pid now st'))" by (rule managed_close [OF m heldI(1)])
  with ok show ?thesis by (auto simp: registry_ok_def send_close_managers [OF Sent(8)])
qed

lemma broker_close_keeps_account:
  assumes "broker_close digest li ks ads mode did n now p m d x = (res, x')" "xv_managers x a \<noteq> None"
  shows "xv_managers x' a \<noteq> None"
  using assms(1)
proof (cases rule: broker_close_cases)
  case (Sent acc pid st st' ap vd v pl r)
  then show ?thesis using assms(2) send_close_managers [OF Sent(8)] by simp
qed (use assms(2) in \<open>auto simp: put_manager_def\<close>)

text \<open>
  The traffic of a process: closes of any positions with any decisions, adapters, clocks and
  settings, and any other call on any of the managers.
\<close>

inductive traffic :: "(string \<Rightarrow> 'h) \<Rightarrow> exit_venue \<Rightarrow> exit_venue \<Rightarrow> bool" for digest :: "string \<Rightarrow> 'h" where
  exit: "traffic digest x (snd (broker_close digest li ks ads mode did n now p m d x))"
| other: "xv_managers x acc = Some st \<Longrightarrow> mgr_step digest st st' \<Longrightarrow> traffic digest x (put_manager acc st' x)"

lemma traffic_registry: "traffic digest x x' \<Longrightarrow> registry_ok digest x \<Longrightarrow> registry_ok digest x'"
proof (induction rule: traffic.induct)
  case (exit x li ks ads mode did n now p m d)
  then show ?case using broker_close_registry by (metis prod.collapse)
next
  case (other x acc st st')
  then have "managed digest st'" using managed_step [OF _ other(2)] by (simp add: registry_ok_def)
  with other(3) show ?case by (auto simp: registry_ok_def put_manager_def)
qed

definition fresh_registry :: "exit_venue \<Rightarrow> bool" where
  "fresh_registry x \<longleftrightarrow> (\<forall>acc st. xv_managers x acc = Some st \<longrightarrow> (\<exists>mode brk cache. st = new_manager mode brk cache))"

lemma fresh_registry_ok: "fresh_registry x \<Longrightarrow> registry_ok digest x"
  unfolding fresh_registry_def registry_ok_def managed_def by blast

lemma traffic_reaches: "(traffic digest)\<^sup>*\<^sup>* x x' \<Longrightarrow> registry_ok digest x \<Longrightarrow> registry_ok digest x'"
  by (induction rule: rtranclp_induct) (auto intro: traffic_registry)

section \<open>What a close sends\<close>

definition sends_at :: "exit_venue \<Rightarrow> string \<Rightarrow> venue_call list option" where
  "sends_at x a = map_option sends (xv_managers x a)"

lemma open_close_state:
  assumes "open_close digest ap i acc n now st = (a, st')"
  shows "sends st' = sends st" "remembers st st'"
proof -
  obtain g where g: "guard_resend i st = (g, st)" using guard_state [of i st] by (metis prod.collapse)
  have o: "st' = st \<or> st' = snd (create digest ap (close_args i acc) n now st)"
    using assms g by (auto simp: open_close_def run_all split: sum.splits)
  have "sends (snd (create digest ap ca n now st)) = sends st" for ca
  proof (cases "creatable digest ap ca now st")
    case True
    have "sends (enrol ord st) = sends st" for ord
      using enrol_core [of ord st] by (simp add: same_core_def register_def Let_def sends_def)
    then show ?thesis unfolding create_new [OF True] by simp
  next
    case False
    from create_kept [OF False, of n] show ?thesis by (simp add: same_core_def)
  qed
  then show "sends st' = sends st" "remembers st st'" using o remembers_create memory.ok_refl by auto
qed

text \<open>A close either sends nothing, or it sends one request: for the whole amount, to the position's
  account, under the position's intent, which was free until then.\<close>

lemma broker_close_sends:
  assumes bc: "broker_close digest li ks ads mode did n now p m d x = (res, x')" and ok: "registry_ok digest x"
  obtains (quiet) "sends_at x' = sends_at x" "\<And>oc. res = Inr oc \<Longrightarrow> co_status oc \<noteq> C_confirmed"
  | (sent) acc st st' r pid v pl where "pv_account_id p = Some acc" "close_volume p d = Some (v, pl)"
      "pv_broker_position_id p = Some pid" "xv_managers x acc = Some st" "by_intent st (exit_intent p v pl) = None"
      "xv_managers x' = (xv_managers x)(acc \<mapsto> st')" "sends st' = sends st @ [Close r pid v Submitting]"
      "client_order_id (heap st' ! r) = exit_intent p v pl"
  using bc
proof (cases rule: broker_close_cases)
  case (Nothing oc)
  then show thesis by (intro quiet) auto
next
  case (Opened acc st st' ap a v pl)
  then show thesis using open_close_state(1) [OF Opened(6)]
    by (intro quiet [OF _ Opened(7)]) (auto simp: sends_at_def put_manager_def fun_eq_iff)
next
  case (Sent acc pid st st1 ap vd v pl r)
  let ?ord0 = "order_of st ap (close_args (exit_intent p v pl) acc) n now"
  let ?st2 = "snd (close (ads acc) r pid now st1)"
  note cr = open_close_new [OF Sent(7)] note new = create_new_order [OF cr]
  have inv: "manager_inv st1" using open_close_managed [OF _ Sent(7)] ok Sent(3) managed_inv by (auto simp: registry_ok_def)
  have h0: "heap st1 ! r = ?ord0" "r < length (heap st1)" using new(1,2) by simp_all
  have x': "xv_managers x' = (xv_managers x)(acc \<mapsto> ?st2)" by (rule send_close_managers [OF Sent(8)])
  have av: "approved_volume ap = v"
    using Sent(6) by (auto simp: approve_close_def Let_def grant_def close_verdict_def close_proposal_def split: if_splits)
  have o0: "status ?ord0 = Intent" "quantity ?ord0 = v" "client_order_id ?ord0 = exit_intent p v pl"
    using av by (simp_all add: order_of_def close_args_def Let_def)
  show thesis
  proof (cases "pid = []")
    case True
    then have c: "close (ads acc) r pid now st1 = (Inl (OrderRefused R_no_position_id), st1)"
      using h0(1) o0(1) by (simp add: close_def run_bind(5) run_basic)
    then have "res = Inl ''close raised''" using Sent(8) by (simp add: send_close_def Let_def)
    then show thesis using x' c open_close_state(1) [OF Sent(7)] Sent(3)
      by (intro quiet) (auto simp: sends_at_def fun_eq_iff)
  next
    case False
    have free: "by_intent st (exit_intent p v pl) = None"
      using create_kept [of digest ap "close_args (exit_intent p v pl) acc" now st n] cr
      by (cases "creatable digest ap (close_args (exit_intent p v pl) acc) now st") (auto simp: creatable_def close_args_def)
    have "sends ?st2 = sends st @ [Close r pid v Submitting]"
      using close_sends [OF inv heldI(1) [OF new(3)], of pid "ads acc" now] h0(1) o0 False
        open_close_state(1) [OF Sent(7)] by simp
    moreover have "client_order_id (heap ?st2 ! r) = exit_intent p v pl"
      using close_evolves [of st1 "ads acc" r pid now] h0 o0(3) by (simp add: evolves_def grows_def)
    ultimately show thesis by (rule sent [OF Sent(1,5,2,3) free x'])
  qed
qed

text \<open>Whatever happens in the process, a manager remembers what it has sent.\<close>

lemma traffic_remembers:
  assumes "traffic digest x x'" "xv_managers x a = Some st"
  obtains st' where "xv_managers x' a = Some st'" "remembers st st'"
proof -
  have "\<exists>st'. xv_managers x' a = Some st' \<and> remembers st st'" using assms
  proof (induction rule: traffic.induct)
    case (exit x li ks ads mode did n now p m d)
    obtain res x' where bc: "broker_close digest li ks ads mode did n now p m d x = (res, x')" by fastforce
    then show ?case
    proof (cases rule: broker_close_cases)
      case (Nothing oc)
      with exit bc show ?thesis using memory.ok_refl by auto
    next
      case (Opened acc st0 st1 ap r v pl)
      with exit bc show ?thesis
        using open_close_state(2) [OF Opened(6)] memory.ok_refl by (auto simp: put_manager_def)
    next
      case (Sent acc pid st0 st1 ap vd v pl r)
      have "remembers st0 (snd (close (ads acc) r pid now st1))"
        using memory.ok_trans [OF open_close_state(2) [OF Sent(7)]] memory.close by (simp add: holds_def)
      with exit bc Sent(3) send_close_managers [OF Sent(8)] show ?thesis using memory.ok_refl by auto
    qed
  next
    case (other x acc st0 st1)
    then show ?case using step_remembers [OF other(2)] memory.ok_refl by (auto simp: put_manager_def)
  qed
  then show thesis using that by blast
qed

lemma traffic_taken:
  assumes "(traffic digest)\<^sup>*\<^sup>* x x'" "registry_ok digest x" "xv_managers x a = Some st" "taken st i"
  shows "\<exists>st'. xv_managers x' a = Some st' \<and> taken st' i"
  using assms
proof (induction rule: rtranclp_induct)
  case (step y z)
  then obtain st1 where st1: "xv_managers y a = Some st1" "taken st1 i" by blast
  obtain st2 where st2: "xv_managers z a = Some st2" "remembers st1 st2"
    using traffic_remembers [OF step.hyps(2) st1(1)] .
  have "manager_inv st1"
    using traffic_reaches [OF step.hyps(1) step.prems(1)] st1(1) managed_inv by (auto simp: registry_ok_def)
  then show ?case using taken_remembered [OF _ st2(2) st1(2)] st2(1) by blast
qed blast

section \<open>A full fill confirms\<close>

lemma record_fill_broker_id: "broker_order_id (snd (record_fill a f t src)) = broker_order_id a"
  by (cases rule: record_fill_shape [of a f t src]) simp_all

lemma set_ord_run: "set_ord r g st = (Inr (), put st r (g (heap st ! r)))"
  by (simp add: set_ord_def updS_def)

lemma apply_full_fill:
  assumes r: "r < length (heap st)" "status (heap st ! r) = Submitting"
    and res: "rs_status res = B_accepted" "rs_filled_volume res = Some q" "rs_fill_price res = Some price" "0 < price"
    and q: "0 < q" "repr q" and b: "book (heap st ! r) = \<lparr>requested = q, fills = []\<rparr>"
  shows "\<exists>st' f. apply_result r res now st = (Inr (), st') \<and> status (heap st' ! r) = Filled
    \<and> book (heap st' ! r) = \<lparr>requested = q, fills = [f]\<rparr> \<and> fr_quantity f = q \<and> fr_price f = price
    \<and> length (heap st') = length (heap st)
    \<and> (truthy (rs_order_id res) \<longrightarrow> broker_order_id (heap st' ! r) = rs_order_id res)"
proof -
  let ?w = "whenS (truthy (rs_order_id res)) (seqS
        [set_ord r (\<lambda>ord. ord\<lparr>broker_order_id := rs_order_id res\<rparr>),
         updS (\<lambda>st. st\<lparr>by_broker_id := (by_broker_id st)(the (rs_order_id res) \<mapsto> r)\<rparr>)])"
  obtain s0 where w: "?w st = (Inr (), s0)" and l0: "length (heap s0) = length (heap st)"
    and o0: "status (heap s0 ! r) = Submitting" "book (heap s0 ! r) = book (heap st ! r)"
      "truthy (rs_order_id res) \<longrightarrow> broker_order_id (heap s0 ! r) = rs_order_id res"
    using r by (cases "truthy (rs_order_id res)") (simp_all add: run_all set_ord_run)
  obtain o2 where m2: "moveS r Submitted now ''pipeline'' [Txt ''transmitted''] (rs_retcode res) s0 = (Inr (), put s0 r o2)"
    and o2: "status o2 = Submitted" "book o2 = book (heap s0 ! r)" "broker_order_id o2 = broker_order_id (heap s0 ! r)"
    by (rule moveS_ok [of Submitted s0 r "''pipeline''"]) (use o0 in \<open>simp_all add: SOURCES_def\<close>)
  obtain o3 where m3: "moveS r Accepted now ''broker'' (text_or (rs_detail res) ''accepted by the venue'') (rs_retcode res)
      (put s0 r o2) = (Inr (), put (put s0 r o2) r o3)"
    and o3: "status o3 = Accepted" "book o3 = book o2" "broker_order_id o3 = broker_order_id o2"
    by (rule moveS_ok [of Accepted "put s0 r o2" r "''broker''"]) (use o2 r l0 in \<open>simp_all add: SOURCES_def\<close>)
  let ?src = "if rs_fill_source res \<noteq> [] then rs_fill_source res else ''broker''"
  obtain f where f: "new_fill q price (case rs_filled_at res of Some t \<Rightarrow> t | None \<Rightarrow> now) ?src
      (str_or (str_or (rs_deal_id res) (rs_position_id res)) (rs_order_id res)) 0 0 (rs_realized_pnl res) = retS f"
    "fr_quantity f = q" "fr_price f = price"
    using q(1) res(4) by (simp add: new_fill_def make_fill_def)
  let ?b = "\<lparr>requested = q, fills = [f]\<rparr>"
  have z: "dadd 0 q = q" "dsub q 0 = q" "dsub q q = 0" using q(2) by (simp_all add: dadd_def dsub_def rnd_exact)
  have bk: "book o3 = \<lparr>requested = q, fills = []\<rparr>" using o3(2) o2(2) o0(2) b by simp
  have new: "\<not> already_recorded (book o3) (fr_deal f)" by (simp add: bk already_recorded_def split: option.split)
  have add: "add_fill (book o3) f = Inr ?b" by (simp add: bk fills_defs dsum_def z f(2))
  have full: "fill_state ?b = Filled" by (simp add: fill_state_def fills_defs dsum_def z f(2))
  obtain o4 where rf: "record_fill o3 f now ''broker'' = (Inr True, o4)" "book o4 = ?b" "status o4 = fill_state ?b"
    by (rule record_fill_applied [OF new add, of "''broker''" now]) (simp_all add: o3 takes_fills_def)
  have o4: "broker_order_id o4 = broker_order_id o3" using record_fill_broker_id [of o3 f now "''broker''"] rf(1) by simp
  let ?s3 = "put (put s0 r o2) r o3"
  have fs: "fillS r f now ''broker'' ?s3 = (Inr True, put ?s3 r o4)" using rf(1) r l0 by (simp add: fillS_def)
  have "\<exists>st'. record_exec r f now ?s3 = (Inr True, st') \<and> heap st' = (heap ?s3)[r := o4]"
    using fs by (simp add: record_exec_def run_all)
  then obtain st' where re: "record_exec r f now ?s3 = (Inr True, st')" "heap st' = (heap ?s3)[r := o4]" by blast
  have "apply_result r res now st = (Inr (), st')"
    unfolding apply_result_def run_then bindS_def w
    using res m2 m3 f(1) re(1) by (simp add: is_unknown_def run_all retS_def)
  then show ?thesis using re(2) rf(2,3) full f(2,3) r l0 o4 o3(3) o2(3) o0(3) by auto
qed

lemma close_fills:
  assumes r: "r < length (heap st)" "status (heap st ! r) = Intent" and pid: "pid \<noteq> []"
    and ans: "close_position ad pid (quantity (heap st ! r)) = Answer res"
    and res: "rs_status res = B_accepted" "rs_filled_volume res = Some (quantity (heap st ! r))"
      "rs_fill_price res = Some price" "0 < price"
    and q: "0 < quantity (heap st ! r)" "repr (quantity (heap st ! r))"
    and b: "book (heap st ! r) = \<lparr>requested = quantity (heap st ! r), fills = []\<rparr>"
  shows "\<exists>st' f. close ad r pid now st = (Inr (), st') \<and> status (heap st' ! r) = Filled
    \<and> book (heap st' ! r) = \<lparr>requested = quantity (heap st ! r), fills = [f]\<rparr>
    \<and> fr_quantity f = quantity (heap st ! r) \<and> fr_price f = price
    \<and> (truthy (rs_order_id res) \<longrightarrow> broker_order_id (heap st' ! r) = rs_order_id res)"
proof -
  obtain o1 where m1: "moveS r Submitting now ''pipeline''
      [Txt ''close persisted before transmission; a crash here is reconcilable''] None st = (Inr (), put st r o1)"
    and o1: "grows (heap st ! r) o1" "status o1 = Submitting" "book o1 = book (heap st ! r)"
    by (rule moveS_ok [of Submitting st r "''pipeline''"]) (use r in \<open>simp_all add: SOURCES_def\<close>)
  let ?s = "snd (seqS [countS ''closes_submitted'' 1, bindS (ordS r) (\<lambda>ord'. callS (Close r pid (quantity ord') (status ord'))),
    observe_latency ad] (put st r o1))"
  have h: "heap ?s = (heap st)[r := o1]"
    by (simp add: run_all run_simps callS_def updS_def observe_latency_def countS_def)
  obtain st' f where ap: "apply_result r res now ?s = (Inr (), st')" "status (heap st' ! r) = Filled"
    "book (heap st' ! r) = \<lparr>requested = quantity (heap st ! r), fills = [f]\<rparr>"
    "fr_quantity f = quantity (heap st ! r)" "fr_price f = price"
    "truthy (rs_order_id res) \<longrightarrow> broker_order_id (heap st' ! r) = rs_order_id res"
    using apply_full_fill [of r ?s res "quantity (heap st ! r)" price now] r h o1(2,3) res q b by auto
  have "close ad r pid now st = (Inr (), announced r st')"
    unfolding close_def settle_def
    using r(2) pid m1 ap(1) by (simp add: ans run_all run_simps callS_def updS_def observe_latency_def countS_def)
  with ap show ?thesis by (intro exI [of _ "announced r st'"] exI [of _ f]) (simp add: queue_events_run)
qed

lemma approve_close_Some:
  assumes "approve_close digest did li ks p pf now = (Some ap, vd)"
  shows "ap_proposal ap = p" "pp_volume p = Some (approved_volume ap)" "vd_approved (ap_verdict ap)"
    "ap_expires_at ap = Some (now + secs APPROVAL_TTL_SECONDS)" "0 < approved_volume ap"
    "ap_hash ap = Some (request_hash digest (bound_of p (approved_volume ap)))"
  using assms
  by (auto simp: approve_close_def Let_def grant_def ap_proposal_def close_verdict_def vd_approved_def
      split: if_splits option.splits)

lemma approve_close_creatable:
  assumes "approve_close digest did li ks (close_proposal mode acc p d v) pf now = (Some ap, vd)"
    and "mgr_mode st = mode" "by_intent st i = None"
  shows "creatable digest ap (close_args i acc) now st"
proof -
  note ap = approve_close_Some [OF assms(1)]
  have "(bound_fields ap)(''account_id'' := F_str acc, ''order_type'' := F_str ''market'', ''mode'' := F_str mode) = bound_fields ap"
    unfolding bound_fields_def ap(1) by (rule ext) (simp add: bound_of_def close_proposal_def opt_str_def)
  then have "binds_order digest ap acc ''market'' mode"
    unfolding binds_order_def binds_def ap(6) by (simp add: bound_fields_def ap(1))
  then show ?thesis using ap assms(2,3)
    by (simp add: creatable_def close_args_def expired_def secs_def APPROVAL_TTL_SECONDS_def close_proposal_def)
qed

text \<open>A close of a position whose account has a manager in the mode of the position, under an intent that
  is not taken, is confirmed at the venue's price when the venue fills it in full.\<close>

theorem full_fill_confirms:
  assumes p: "pv_account_id p = Some acc" "acc \<noteq> []" "pv_broker_position_id p = Some pid" "pid \<noteq> []" "pv_symbol p \<noteq> []"
    and st: "xv_managers x acc = Some st" "mgr_mode st = mode" "by_intent st (exit_intent p v places) = None"
    and v: "close_volume p d = Some (v, places)" "repr v"
    and ap: "approve_close digest did li ks (close_proposal mode acc p d v) None now = (Some ap, vd)"
    and res: "close_position (ads acc) pid v = Answer res" "rs_status res = B_accepted" "rs_filled_volume res = Some v"
      "rs_fill_price res = Some price" "0 < price"
  shows "\<exists>oc x' ord. broker_close digest li ks ads mode did n now p m d x = (Inr oc, x') \<and> co_status oc = C_confirmed
    \<and> co_fill_price oc = Some (ddiv (dmul v price) v)
    \<and> xv_orders x' = xv_orders x @ [order_of st ap (close_args (exit_intent p v places) acc) n now, ord]
    \<and> status ord = Filled \<and> side ord = (if pv_side p = ''long'' then ''sell'' else ''buy'') \<and> order_mode ord = mode
    \<and> filled_quantity (book ord) = v \<and> average_price (book ord) \<noteq> None
    \<and> (truthy (rs_order_id res) \<longrightarrow> broker_order_id ord = rs_order_id res)"
proof -
  let ?i = "exit_intent p v places"
  let ?o = "order_of st ap (close_args ?i acc) n now"
  let ?st1 = "enrol ?o st" and ?r = "length (heap st)"
  note a = approve_close_Some [OF ap]
  have v0: "approved_volume ap = v" "0 < v" using a(2,5) by (simp_all add: close_proposal_def)
  note new = create_new [OF approve_close_creatable [OF ap st(2,3)], of n]
  note no = create_new_order [OF new]
  have g: "guard_resend ?i st = (Inr (), st)" by (simp add: guard_resend_def run_all st(3))
  have oc: "open_close digest ap ?i acc n now st = (Inr (?r, False), ?st1)"
    using g new by (simp add: open_close_def run_all)
  have o0: "heap ?st1 ! ?r = ?o" "?r < length (heap ?st1)" using no(2) by simp_all
  have o1: "status ?o = Intent" "quantity ?o = v" "book ?o = \<lparr>requested = v, fills = []\<rparr>" "order_mode ?o = mode"
    "side ?o = (if pv_side p = ''long'' then ''sell'' else ''buy'')"
    using v0 st(2) a(1) by (simp_all add: order_of_def Let_def close_proposal_def)
  from close_fills [of ?r ?st1 pid "ads acc" res price now] o0 o1 p(4) res v0(2) v(2)
  obtain st2 f where cl: "close (ads acc) ?r pid now ?st1 = (Inr (), st2)" "status (heap st2 ! ?r) = Filled"
    "book (heap st2 ! ?r) = \<lparr>requested = v, fills = [f]\<rparr>" "fr_quantity f = v" "fr_price f = price"
    "truthy (rs_order_id res) \<longrightarrow> broker_order_id (heap st2 ! ?r) = rs_order_id res" by auto
  have gr: "grows ?o (heap st2 ! ?r)" using close_evolves [of ?st1 "ads acc" ?r pid now] o0 cl(1) by (auto simp: evolves_def)
  have z: "dadd 0 v = v" "dadd 0 (dmul v price) = dmul v price"
    using v(2) repr_rnd by (simp_all add: dadd_def dmul_def rnd_exact)
  have fq: "filled_quantity (book (heap st2 ! ?r)) = v" and av: "average_price (book (heap st2 ! ?r)) = Some (ddiv (dmul v price) v)"
    using v0(2) by (simp_all add: cl(3-5) average_price_def filled_quantity_def dsum_def z)
  have "broker_close digest li ks ads mode did n now p m d x = send_close (ads acc) acc pid ?r now ?st1 x"
    using p st(1,2) v(1) ap oc by (simp add: broker_close_def Let_def)
  also have "\<dots> = (Inr (outcome_of (heap st2 ! ?r) now),
      record_order (heap st2 ! ?r) (put_manager acc st2 (record_order ?o (put_manager acc ?st1 x))))"
    using cl(1) o0(1) by (simp add: send_close_def Let_def)
  finally have bc: "broker_close digest li ks ads mode did n now p m d x = (Inr (outcome_of (heap st2 ! ?r) now),
      record_order (heap st2 ! ?r) (put_manager acc st2 (record_order ?o (put_manager acc ?st1 x))))" .
  have out: "co_status (outcome_of (heap st2 ! ?r) now) = C_confirmed"
    "co_fill_price (outcome_of (heap st2 ! ?r) now) = Some (ddiv (dmul v price) v)"
    by (simp_all add: outcome_of_def cl(2) av)
  have xo: "xv_orders (record_order (heap st2 ! ?r) (put_manager acc st2 (record_order ?o (put_manager acc ?st1 x))))
      = xv_orders x @ [?o, heap st2 ! ?r]"
    by (simp add: record_order_def put_manager_def)
  have terms: "side (heap st2 ! ?r) = side ?o" "order_mode (heap st2 ! ?r) = order_mode ?o"
    using gr by (simp_all add: grows_def)
  show ?thesis
    by (rule exI, rule exI, rule exI [of _ "heap st2 ! ?r"], intro conjI, rule bc, rule out(1), rule out(2), rule xo,
        rule cl(2), simp only: terms o1(5), simp only: terms o1(4), rule fq, simp only: av option.distinct not_False_eq_True,
        rule cl(6))
qed

text \<open>The store writes the row that a filled order implies, and a close is an order like any other: the
  fill of a close becomes an open position of its own on the opposite side, beside the one it
  closed.\<close>

lemma closing_fill_opens_a_position:
  assumes "status ord = Filled" "side ord = (if pv_side p = ''long'' then ''sell'' else ''buy'')" "order_mode ord = ''demo''"
    and "filled_quantity (book ord) = v" "0 < v" "average_price (book ord) \<noteq> None" "broker_order_id ord = Some b" "b \<noteq> []"
    and "find_row b ''demo'' rows = None"
  shows "\<exists>row. record_fill_row ord sy ac ve src t i rows = (Some row, rows @ [row]) \<and> row_status row = P_open
    \<and> row_quantity row = v \<and> row_broker_position_id row = Some b
    \<and> row_side row = (if pv_side p = ''long'' then ''short'' else ''long'')"
proof -
  have sd: "position_side (side ord) = Some (if pv_side p = ''long'' then ''short'' else ''long'')"
    using assms(2) by (cases "pv_side p = ''long''") (simp_all add: position_side_def, code_simp+)
  have r: "recordable ord"
    using assms sd by (simp add: recordable_def BROKER_MODES_def FILLED_STATES_def)
  show ?thesis using assms sd by (simp add: record_fill_recordable [OF r] Let_def new_row_def)
qed

section \<open>A close in a demo account\<close>

definition fill_result :: order_result where
  "fill_result = \<lparr>rs_status = B_accepted, rs_detail = [], rs_order_id = Some ''8001'', rs_position_id = None,
     rs_deal_id = Some ''d1'', rs_fill_price = Some (108/100), rs_filled_volume = Some 1, rs_filled_at = Some 7,
     rs_retcode = None, rs_fill_source = ''broker'', rs_realized_pnl = Some (- 2)\<rparr>"

definition fill_venue :: adapter where
  "fill_venue = yes_venue\<lparr>close_position := (\<lambda>_ _. Answer fill_result)\<rparr>"

definition exit_start :: exit_venue where
  "exit_start = \<lparr>xv_managers = [''a1'' \<mapsto> new_manager ''demo'' None 300], xv_orders = []\<rparr>"

definition held_view :: position_view where
  "held_view = view_of held_row None (Some ''EURUSD'')"

definition leave_all :: exit_decision where
  "leave_all = operator_decision (demo_quote (108/100)) held_row None 0 ''done''"

definition exit_call :: "(string + close_outcome) \<times> exit_venue" where
  "exit_call = broker_close one_hash default_limits no_switches (\<lambda>_. fill_venue) ''demo'' ''d1'' ''o1'' 5 held_view
     (demo_quote (108/100)) leave_all exit_start"

lemma exit_start_sel: "fresh_registry exit_start" "xv_managers exit_start ''a1'' = Some (new_manager ''demo'' None 300)"
  "xv_orders exit_start = []"
  by (auto simp: exit_start_def fresh_registry_def)

text \<open>The text of an amount depends on its decimal places, so the same amount has two intents.\<close>

lemma two_intents_for_one_amount:
  "close_volume held_view leave_all = Some (1, 8)" "exit_intent held_view 1 8 = ''close:p1:1.00000000''"
  "close_volume held_view (leave_all\<lparr>ed_quantity := Some 1\<rparr>) = Some (1, 0)" "exit_intent held_view 1 0 = ''close:p1:1''"
  by code_simp+

lemma exit_call_confirmed:
  "\<exists>oc x' o1 ord. exit_call = (Inr oc, x') \<and> co_status oc = C_confirmed \<and> xv_orders x' = [o1, ord] \<and> status ord = Filled
    \<and> side ord = ''sell'' \<and> order_mode ord = ''demo'' \<and> filled_quantity (book ord) = 1 \<and> average_price (book ord) \<noteq> None
    \<and> broker_order_id ord = Some ''8001''"
proof -
  have g: "fst (approve_close one_hash ''d1'' default_limits no_switches (close_proposal ''demo'' ''a1'' held_view leave_all 1)
      None 5) \<noteq> None" by code_simp
  then obtain ap vd where ap: "approve_close one_hash ''d1'' default_limits no_switches
      (close_proposal ''demo'' ''a1'' held_view leave_all 1) None 5 = (Some ap, vd)"
    by (metis not_None_eq prod.collapse)
  have p: "pv_account_id held_view = Some ''a1''" "pv_broker_position_id held_view = Some ''v9''" "pv_symbol held_view \<noteq> []"
    "pv_side held_view = ''long''" by code_simp+
  have m: "mgr_mode (new_manager ''demo'' None 300) = ''demo''"
    "by_intent (new_manager ''demo'' None 300) (exit_intent held_view 1 8) = None"
    by (simp_all add: new_manager_def)
  have r: "close_position fill_venue ''v9'' 1 = Answer fill_result" by (simp add: fill_venue_def)
  have f: "rs_status fill_result = B_accepted" "rs_filled_volume fill_result = Some 1" "rs_fill_price fill_result = Some (108/100)"
    "rs_order_id fill_result = Some ''8001''" by (simp_all add: fill_result_def)
  have "repr 1" using repr_int [of 1] by simp
  from full_fill_confirms [where d = leave_all and ads = "\<lambda>_. fill_venue" and m = "demo_quote (108/100)" and n = "''o1''",
      OF p(1) _ p(2) _ p(3) exit_start_sel(2) m two_intents_for_one_amount(1) this ap r f(1,2,3)] f(4) p(4)
  show ?thesis unfolding exit_call_def exit_start_sel(3) by fastforce
qed

text \<open>After the confirmed close of the long position of one lot the table has an open short of one
  lot.\<close>

lemma confirmed_close_leaves_a_short:
  "\<exists>oc x' row. exit_call = (Inr oc, x') \<and> co_status oc = C_confirmed
    \<and> record_fill_row (last (xv_orders x')) ''s1'' (Some ''a1'') None ''pipeline'' 9 ''p2'' [held_row] = (Some row, [held_row, row])
    \<and> row_status row = P_open \<and> row_side row = ''short'' \<and> row_quantity row = 1"
proof -
  obtain oc x' o1 ord where e: "exit_call = (Inr oc, x')" "co_status oc = C_confirmed" "xv_orders x' = [o1, ord]"
    and o: "status ord = Filled" "side ord = ''sell''" "order_mode ord = ''demo''" "filled_quantity (book ord) = 1"
    "average_price (book ord) \<noteq> None" "broker_order_id ord = Some ''8001''"
    using exit_call_confirmed by blast
  have "find_row ''8001'' ''demo'' [held_row] = None" "pv_side held_view = ''long''" by code_simp+
  with closing_fill_opens_a_position [of ord held_view 1 "''8001''" "[held_row]" "''s1''" "Some ''a1''" None "''pipeline''" 9 "''p2''"]
    o obtain row where "record_fill_row (last (xv_orders x')) ''s1'' (Some ''a1'') None ''pipeline'' 9 ''p2'' [held_row]
      = (Some row, [held_row, row]) \<and> row_status row = P_open \<and> row_side row = ''short'' \<and> row_quantity row = 1"
    by (auto simp: e(3))
  with e(1,2) show ?thesis by blast
qed

section \<open>The properties of a close\<close>

text \<open>C28: a close is sent at most once. In a process that started with new managers, let the
  executor be asked to close a position. If anything was sent for it, it was one request, to the
  venue of the position's account, for that position and amount. From then on, whatever the venue
  answered and whatever closes and other calls on the managers came in between, asking again for a
  close of that position by the same amount, written with the same number of decimal places, with
  any decision, settings, adapters and clock, sends nothing to any account.\<close>

theorem close_sent_at_most_once:
  assumes start: "fresh_registry x0" "(traffic digest)\<^sup>*\<^sup>* x0 x1"
    and first: "broker_close digest li ks ads mode did n now p m d x1 = (res, x2)" "sends_at x2 \<noteq> sends_at x1"
    and between: "(traffic digest)\<^sup>*\<^sup>* x2 x3"
    and again: "pv_id p' = pv_id p" "pv_account_id p' = pv_account_id p" "close_volume p' d' = close_volume p d"
      "broker_close digest li' ks' ads' mode' did' n' now' p' m' d' x3 = (res', x4)"
  shows "(\<exists>acc pid v places sent r. pv_account_id p = Some acc \<and> pv_broker_position_id p = Some pid
      \<and> close_volume p d = Some (v, places) \<and> sends_at x1 acc = Some sent
      \<and> sends_at x2 = (sends_at x1)(acc \<mapsto> sent @ [Close r pid v Submitting]))
    \<and> sends_at x4 = sends_at x3"
proof -
  have ok1: "registry_ok digest x1" using traffic_reaches [OF start(2) fresh_registry_ok [OF start(1)]] .
  have ok2: "registry_ok digest x2" using broker_close_registry [OF ok1 first(1)] .
  have ok3: "registry_ok digest x3" by (rule traffic_reaches [OF between ok2])
  from first(1) ok1 show ?thesis
  proof (cases rule: broker_close_sends)
    case quiet
    with first(2) show ?thesis by simp
  next
    case (sent acc st st' r pid v pl)
    have "taken st' (exit_intent p v pl)" using sent(7,8) by (auto simp: taken_def intent_of_def)
    then obtain st3 where st3: "xv_managers x3 acc = Some st3" "taken st3 (exit_intent p v pl)"
      using traffic_taken [OF between ok2, of acc st'] sent(6) by auto
    have inv3: "manager_inv st3" using ok3 st3(1) managed_inv by (auto simp: registry_ok_def)
    have "sends_at x4 = sends_at x3"
      using again(4) ok3
    proof (cases rule: broker_close_sends)
      case sent': (sent acc' st4 st5 r' pid' v' pl')
      have "acc' = acc" "v' = v" "pl' = pl" "st4 = st3" using sent' sent(1,2) again(2,3) st3(1) by auto
      then have "by_intent st3 (exit_intent p v pl) = None" using sent'(5) again(1) by (simp add: exit_intent_def)
      with taken_settled [OF inv3 st3(2)] show ?thesis by fastforce
    qed
    moreover have "sends_at x2 = (sends_at x1)(acc \<mapsto> sends st @ [Close r pid v Submitting])"
      using sent(6,7) by (auto simp: sends_at_def fun_eq_iff)
    moreover have "sends_at x1 acc = Some (sends st)" using sent(4) by (simp add: sends_at_def)
    ultimately show ?thesis using sent(1-3) by blast
  qed
qed

text \<open>C29: only a filled order confirms. When the executor reports a confirmed close, the account's
  manager, which runs in the mode of the position, holds an order that the venue has filled: on the
  position's symbol, on the opposite side, for exactly the amount asked for, under the intent of this
  close; the venue was asked to close the position's own identifier by that amount; and the price
  reported is the average price of the order's fills.\<close>

theorem only_a_filled_order_confirms:
  assumes "broker_close digest li ks ads mode did n now p m d x = (Inr oc, x')"
    and "co_status oc = C_confirmed" "registry_ok digest x"
  shows "\<exists>acc st r v places pid. pv_account_id p = Some acc \<and> xv_managers x' acc = Some st \<and> mgr_mode st = mode
    \<and> close_volume p d = Some (v, places) \<and> pv_broker_position_id p = Some pid
    \<and> Close r pid v Submitting \<in> set (sends st)
    \<and> (let ord = heap st ! r in status ord = Filled \<and> quantity ord = v \<and> symbol ord = pv_symbol p
       \<and> side ord = (if pv_side p = ''long'' then ''sell'' else ''buy'') \<and> order_mode ord = mode
       \<and> client_order_id ord = exit_intent p v places
       \<and> average_price (book ord) = co_fill_price oc \<and> co_fill_price oc \<noteq> None)"
  using assms(1)
proof (cases rule: broker_close_cases)
  case (Nothing oc')
  with assms(2) show ?thesis by simp
next
  case (Opened acc st st' ap a v pl)
  with assms(2) show ?thesis by simp
next
  case (Sent acc pid st st1 ap vd v pl r)
  let ?ord0 = "order_of st ap (close_args (exit_intent p v pl) acc) n now"
  note cr = open_close_new [OF Sent(7)]
  note new = create_new_order [OF cr]
  obtain u st2 where cl: "close (ads acc) r pid now st1 = (Inr u, st2)" and oc: "oc = outcome_of (heap st2 ! r) now"
    using Sent(8) by (auto simp: send_close_def Let_def split: sum.splits prod.splits)
  have x': "xv_managers x' acc = Some st2" using send_close_managers [OF Sent(8)] cl by simp
  have h0: "heap st1 ! r = ?ord0" "r < length (heap st1)" using new(1,2) by simp_all
  have ap: "ap_proposal ap = close_proposal mode acc p d v" "approved_volume ap = v"
    using Sent(6) by (auto simp: approve_close_def Let_def grant_def ap_proposal_def close_verdict_def
        close_proposal_def split: if_splits)
  have o0: "status ?ord0 = Intent" "quantity ?ord0 = v" "symbol ?ord0 = pv_symbol p"
    "side ?ord0 = (if pv_side p = ''long'' then ''sell'' else ''buy'')" "order_mode ?ord0 = mode"
    "client_order_id ?ord0 = exit_intent p v pl"
    using Sent(4) ap by (simp_all add: order_of_def close_proposal_def close_args_def Let_def)
  have pid: "pid \<noteq> []"
    using cl h0 o0(1) by (auto simp: close_def run_bind(5) run_basic(2))
  have st1: "managed digest st1" using open_close_managed [OF _ Sent(7)] assms(3) Sent(3) by (simp add: registry_ok_def)
  have "sends st2 = sends st1 @ [Close r pid v Submitting]"
    using close_sends [OF managed_inv [OF st1] heldI(1) [OF new(3)], of pid "ads acc" now] h0 o0(1,2) pid cl by simp
  moreover have "grows (heap st1 ! r) (heap st2 ! r)"
    using close_evolves [of st1 "ads acc" r pid now] h0(2) cl by (simp add: evolves_def)
  moreover have "mgr_mode st2 = mode"
    using close_mode [of "ads acc" r pid now st1] create_mode [OF cr] cl Sent(4) by simp
  moreover have "status (heap st2 ! r) = Filled \<and> average_price (book (heap st2 ! r)) = co_fill_price oc
      \<and> co_fill_price oc \<noteq> None"
    using oc assms(2)
    by (auto simp: outcome_of_def unknown_close_def rejected_close_def no_fill_def split: if_splits option.splits)
  ultimately show ?thesis using Sent(1,2,5) x' h0(1) o0
    by (intro exI [of _ acc] exI [of _ st2] exI [of _ r] exI [of _ v] exI [of _ pl] exI [of _ pid])
       (simp add: grows_def Let_def)
qed

theorem only_a_filled_order_confirms_witness:
  "\<exists>oc x' acc st r. exit_call = (Inr oc, x') \<and> co_status oc = C_confirmed \<and> xv_managers x' acc = Some st
    \<and> Close r ''v9'' 1 Submitting \<in> set (sends st) \<and> status (heap st ! r) = Filled"
proof -
  obtain oc x' where e: "exit_call = (Inr oc, x')" "co_status oc = C_confirmed" using exit_call_confirmed by blast
  have p: "pv_broker_position_id held_view = Some ''v9''" by code_simp
  from only_a_filled_order_confirms [OF e(1) [unfolded exit_call_def] e(2) fresh_registry_ok [OF exit_start_sel(1)]]
  show ?thesis using e p two_intents_for_one_amount(1) by (auto simp: Let_def) blast
qed

theorem close_sent_at_most_once_witness:
  "sends_at (snd (broker_close one_hash default_limits no_switches (\<lambda>_. fill_venue) ''demo'' ''d2'' ''o2'' 6 held_view
      (demo_quote (109/100)) leave_all (snd exit_call))) = sends_at (snd exit_call)
    \<and> sends_at (snd exit_call) \<noteq> sends_at exit_start"
proof -
  obtain oc x' where e: "exit_call = (Inr oc, x')" "co_status oc = C_confirmed" using exit_call_confirmed by blast
  note c = e(1) [unfolded exit_call_def]
  from c fresh_registry_ok [OF exit_start_sel(1)] have n: "sends_at x' \<noteq> sends_at exit_start"
  proof (cases rule: broker_close_sends)
    case (sent acc st st' r pid v pl)
    then have "sends_at x' acc \<noteq> sends_at exit_start acc" by (simp add: sends_at_def)
    then show ?thesis by auto
  qed (use e(2) in simp)
  obtain res' x4 where again: "broker_close one_hash default_limits no_switches (\<lambda>_. fill_venue) ''demo'' ''d2'' ''o2'' 6
    held_view (demo_quote (109/100)) leave_all x' = (res', x4)" by fastforce
  from close_sent_at_most_once [OF exit_start_sel(1) rtranclp.rtrancl_refl c n rtranclp.rtrancl_refl HOL.refl HOL.refl HOL.refl again] n
  show ?thesis by (simp add: e(1) again)
qed

end
