(* ===== verification/Risk_State.thy ===== *)
theory Risk_State
  imports Prelude
begin

text \<open>
  The latched risk state of an account, \<open>backend/app/risk/state.py\<close>: the locks, who may release
  them, and the trading day a daily lock belongs to. Times are microseconds of UTC since 1970, so
  the day and the hour of a moment are a division. The texts of the exceptions are left out, and
  so are the two cuts of the history's texts; the reason of a lock is cut at 500 characters.
\<close>

section \<open>The states\<close>

datatype risk_state =
  Normal | Warning | Daily_loss_locked | Weekly_loss_locked | Drawdown_locked | Emergency_stop | Disabled

datatype rejection_code =
  C_kill_switch_active | C_emergency_stop | C_trading_mode_blocked | C_live_trading_disabled
  | C_account_disabled | C_account_state_invalid | C_bot_not_running | C_strategy_disabled
  | C_invalid_symbol | C_symbol_not_tradable | C_market_closed | C_market_data_stale
  | C_market_data_invalid | C_spread_too_wide | C_invalid_quantity | C_invalid_stop_loss
  | C_stop_loss_required | C_risk_reward_too_low | C_max_position_size_exceeded
  | C_max_open_positions_exceeded | C_position_already_open | C_max_exposure_exceeded
  | C_max_concentration_exceeded | C_max_risk_per_trade_exceeded | C_max_daily_loss_exceeded
  | C_max_weekly_loss_exceeded | C_max_consecutive_losses_reached
  | C_max_correlated_exposure_exceeded | C_daily_loss_locked | C_weekly_loss_locked
  | C_max_drawdown_exceeded | C_drawdown_locked | C_max_leverage_exceeded | C_insufficient_margin
  | C_trade_frequency_exceeded | C_cooldown_active | C_duplicate_signal | C_signal_too_old
  | C_invalid_risk_configuration | C_risk_engine_error

fun BLOCKING :: "risk_state \<Rightarrow> rejection_code option" where
  "BLOCKING Daily_loss_locked = Some C_daily_loss_locked"
| "BLOCKING Weekly_loss_locked = Some C_weekly_loss_locked"
| "BLOCKING Drawdown_locked = Some C_drawdown_locked"
| "BLOCKING Emergency_stop = Some C_emergency_stop"
| "BLOCKING Disabled = Some C_account_disabled"
| "BLOCKING _ = None"

definition NEEDS_AUTHORISED_RESET :: "risk_state list" where
  "NEEDS_AUTHORISED_RESET = [Weekly_loss_locked, Drawdown_locked, Emergency_stop, Disabled]"

section \<open>The trading day\<close>

definition DAY :: time where "DAY = secs (24 * 3600)"

definition HOUR :: time where "HOUR = secs 3600"

datatype risk_exc = Illegal_risk_transition | Reset_not_permitted | Bad_boundary int

text \<open>\<open>moment.replace(hour=h, minute=0, second=0, microsecond=0)\<close> is the start of the UTC day and
  \<open>h\<close> hours; \<open>weekday()\<close> counts from Monday and 1970 began on a Thursday.\<close>

definition day_start :: "time \<Rightarrow> int \<Rightarrow> risk_exc + time" where
  "day_start now boundary_hour =
     (if \<not> (0 \<le> boundary_hour \<and> boundary_hour \<le> 23) then Inl (Bad_boundary boundary_hour)
      else let start = (now div DAY) * DAY + boundary_hour * HOUR
           in Inr (if now < start then start - DAY else start))"

definition weekday :: "time \<Rightarrow> int" where
  "weekday t = (t div DAY + 3) mod 7"

definition week_start :: "time \<Rightarrow> int \<Rightarrow> risk_exc + time" where
  "week_start now boundary_hour =
     bindE (day_start now boundary_hour) (\<lambda>start. Inr (start - weekday start * DAY))"

section \<open>One account\<close>

datatype history_action = Locked_to risk_state | Cleared_from risk_state

record history_entry =
  he_at :: time
  he_action :: history_action
  he_detail :: string
  he_from :: risk_state

record account_risk_state =
  rs_scope :: string
  rs_scope_ref :: "string option"
  rs_state :: risk_state
  rs_reason :: string
  rs_since :: "time option"
  rs_set_by :: "string option"
  rs_locked_day :: "time option"
  rs_history :: "history_entry list"

definition fresh_state :: "string \<Rightarrow> string option \<Rightarrow> account_risk_state" where
  "fresh_state scope ref = \<lparr>rs_scope = scope, rs_scope_ref = ref, rs_state = Normal, rs_reason = [],
     rs_since = None, rs_set_by = None, rs_locked_day = None, rs_history = []\<rparr>"

definition blocking :: "account_risk_state \<Rightarrow> bool" where
  "blocking s \<longleftrightarrow> BLOCKING (rs_state s) \<noteq> None"

definition lock_code :: "account_risk_state \<Rightarrow> rejection_code option" where \<comment> \<open>\<open>code\<close>\<close>
  "lock_code s = BLOCKING (rs_state s)"

definition history_of :: "time \<Rightarrow> history_action \<Rightarrow> string \<Rightarrow> account_risk_state \<Rightarrow> history_entry" where
  "history_of t a d s = \<lparr>he_at = t, he_action = a, he_detail = d, he_from = rs_state s\<rparr>"

definition lock ::
    "risk_state \<Rightarrow> string \<Rightarrow> time \<Rightarrow> string option \<Rightarrow> time option \<Rightarrow> account_risk_state
     \<Rightarrow> risk_exc + account_risk_state" where
  "lock st reason t by day s =
     (if BLOCKING st = None then Inl Illegal_risk_transition
      else if rs_state s = Emergency_stop \<and> st \<noteq> Emergency_stop then Inr s
      else Inr (s\<lparr>rs_history := rs_history s @ [history_of t (Locked_to st) reason s],
                  rs_state := st, rs_reason := take 500 reason, rs_since := Some t, rs_set_by := by,
                  rs_locked_day := day\<rparr>))"

definition clear :: "time \<Rightarrow> string option \<Rightarrow> bool \<Rightarrow> account_risk_state \<Rightarrow> risk_exc + account_risk_state" where
  "clear t authorised_by force s =
     (if \<not> blocking s then Inr s
      else if rs_state s \<in> set NEEDS_AUTHORISED_RESET \<and> \<not> force then Inl Reset_not_permitted
      else if force \<and> \<not> truthy authorised_by then Inl Reset_not_permitted
      else Inr (s\<lparr>rs_history := rs_history s @ [history_of t (Cleared_from (rs_state s))
                     (if truthy authorised_by then the authorised_by else ''boundary passed'') s],
                  rs_state := Normal, rs_reason := [], rs_since := Some t, rs_set_by := authorised_by,
                  rs_locked_day := None\<rparr>))"

definition refresh :: "time \<Rightarrow> int \<Rightarrow> account_risk_state \<Rightarrow> risk_exc + account_risk_state" where
  "refresh now boundary_hour s =
     (if rs_state s \<noteq> Daily_loss_locked then Inr s
      else case rs_locked_day s of None \<Rightarrow> Inr s | Some d \<Rightarrow>
        bindE (day_start now boundary_hour) (\<lambda>start. if d < start then clear now None False s else Inr s))"

section \<open>The day is a day\<close>

lemma DAY_pos [simp]: "0 < DAY" and HOUR_pos [simp]: "0 < HOUR" and DAY_hours: "DAY = 24 * HOUR"
  by (simp_all add: DAY_def HOUR_def secs_def)

text \<open>The trading day contains the moment. For a legal boundary hour the start of the trading day
  is at that hour of UTC, no later than the moment and less than a day before it; the start of the
  week is such a start too, on a Monday, less than a week before it; another hour is refused.\<close>

theorem trading_day_bounds:
  "(case day_start now h of
      Inl e \<Rightarrow> e = Bad_boundary h \<and> (h < 0 \<or> 23 < h)
    | Inr s \<Rightarrow> 0 \<le> h \<and> h \<le> 23 \<and> s mod DAY = h * HOUR \<and> s \<le> now \<and> now < s + DAY
        \<and> (case week_start now h of Inl _ \<Rightarrow> False
           | Inr w \<Rightarrow> w mod DAY = h * HOUR \<and> weekday w = 0 \<and> w \<le> now \<and> now < w + 7 * DAY))"
proof (cases "0 \<le> h \<and> h \<le> 23")
  case True
  let ?q = "now div DAY"
  have m: "?q * DAY \<le> now" "now < ?q * DAY + DAY"
    using pos_mod_bound [of DAY now] pos_mod_sign [of DAY now] div_mult_mod_eq [of now DAY] DAY_pos by linarith+
  have "h * HOUR \<le> 23 * HOUR" by (rule mult_right_mono) (use True HOUR_pos less_imp_le [OF HOUR_pos] in simp_all)
  moreover have "0 \<le> h * HOUR" using True less_imp_le [OF HOUR_pos] by simp
  ultimately have h: "0 \<le> h * HOUR" "h * HOUR < DAY" using HOUR_pos unfolding DAY_hours by linarith+
  obtain k where k: "day_start now h = Inr (k * DAY + h * HOUR)"
    "k * DAY + h * HOUR \<le> now" "now < k * DAY + h * HOUR + DAY"
  proof (cases "now < ?q * DAY + h * HOUR")
    case lt: True
    then have "day_start now h = Inr ((?q - 1) * DAY + h * HOUR)"
      using True by (simp add: day_start_def Let_def algebra_simps)
    with that [of "?q - 1"] lt m h show ?thesis by (simp add: algebra_simps)
  next
    case False
    then have "day_start now h = Inr (?q * DAY + h * HOUR)" using True by (simp add: day_start_def Let_def)
    with that [of ?q] False m h show ?thesis by simp
  qed
  let ?w = "(k + 3) mod 7"
  have sub: "k * DAY + h * HOUR - x * DAY = h * HOUR + (k - x) * DAY" for x by (simp add: algebra_simps)
  have dv: "(h * HOUR + j * DAY) div DAY = j" "(h * HOUR + j * DAY) mod DAY = h * HOUR" for j
    using h DAY_pos by simp_all
  have wk: "week_start now h = Inr (h * HOUR + (k - ?w) * DAY)"
    using k(1) dv(1) [of k] by (simp add: week_start_def weekday_def sub add.commute left_diff_distrib)
  have "?w * DAY \<le> 6 * DAY" "0 \<le> ?w * DAY" by (auto intro!: mult_right_mono simp: DAY_pos less_imp_le)
  then have "h * HOUR + (k - ?w) * DAY \<le> now" "now < h * HOUR + (k - ?w) * DAY + 7 * DAY"
    using k(2,3) unfolding sub [symmetric] by linarith+
  moreover have "weekday (h * HOUR + (k - ?w) * DAY) = 0"
    unfolding weekday_def dv(1) by presburger
  ultimately show ?thesis using True k dv [of k] dv(2) [of "k - ?w"] wk by (simp add: add.commute)
qed (auto simp: day_start_def)

section \<open>Locks latch\<close>

text \<open>What may happen to an account: the calls of its three operations. A refused call leaves the
  state as it was.\<close>

datatype risk_call =
    Lock risk_state string time "string option" "time option"
  | Clear time "string option" bool
  | Refresh time int

fun call_result :: "risk_call \<Rightarrow> account_risk_state \<Rightarrow> risk_exc + account_risk_state" where
  "call_result (Lock st reason t by day) s = lock st reason t by day s"
| "call_result (Clear t by force) s = clear t by force s"
| "call_result (Refresh t h) s = refresh t h s"

definition after_call :: "account_risk_state \<Rightarrow> risk_call \<Rightarrow> account_risk_state" where
  "after_call s c = (case call_result c s of Inl _ \<Rightarrow> s | Inr s' \<Rightarrow> s')"

definition after_calls :: "risk_call list \<Rightarrow> account_risk_state \<Rightarrow> account_risk_state" where
  "after_calls cs s = foldl after_call s cs"

text \<open>A human release: forced, with a name.\<close>

fun authorised :: "risk_call \<Rightarrow> bool" where
  "authorised (Clear t by force) \<longleftrightarrow> force \<and> truthy by"
| "authorised _ \<longleftrightarrow> False"

fun daily_lock :: "risk_call \<Rightarrow> bool" where
  "daily_lock (Lock st _ _ _ _) \<longleftrightarrow> st = Daily_loss_locked"
| "daily_lock _ \<longleftrightarrow> False"

lemma after_calls_simps [simp]:
  "after_calls [] s = s" "after_calls (c # cs) s = after_calls cs (after_call s c)"
  by (simp_all add: after_calls_def)

lemma blocking_iff: "blocking s \<longleftrightarrow> rs_state s \<notin> {Normal, Warning}"
  unfolding blocking_def by (cases "rs_state s") simp_all

lemma clear_unforced:
  "clear t by False s = Inr s' \<Longrightarrow> rs_state s' = rs_state s \<or> rs_state s = Daily_loss_locked \<and> rs_state s' = Normal"
  unfolding clear_def blocking_iff NEEDS_AUTHORISED_RESET_def by (cases "rs_state s") (auto split: if_splits)

lemma after_call_cases:
  assumes "\<not> authorised c"
  shows "rs_state (after_call s c) = rs_state s
    \<or> (\<exists>st r t by d. c = Lock st r t by d \<and> rs_state (after_call s c) = st \<and> BLOCKING st \<noteq> None
        \<and> (rs_state s = Emergency_stop \<longrightarrow> st = Emergency_stop))
    \<or> rs_state s = Daily_loss_locked \<and> rs_state (after_call s c) = Normal"
proof (cases c)
  case (Lock st r t who d)
  then show ?thesis by (auto simp: after_call_def lock_def)
next
  case (Clear t who force)
  have "clear t who force s = Inl Reset_not_permitted \<or> clear t who force s = Inr s" if "force"
    using that assms Clear by (simp add: clear_def)
  then show ?thesis using Clear clear_unforced [of t who s]
    by (cases force) (auto simp: after_call_def split: sum.splits)
next
  case (Refresh t h)
  then show ?thesis using clear_unforced [of t None s]
    by (auto simp: after_call_def refresh_def bindE_def split: sum.splits option.splits if_splits)
qed

text \<open>C34: a lock latches. Without an authorised release an emergency stop outlasts every sequence of
  calls; any other lock that a person must clear keeps the account blocked as long as no daily
  lock is set; and whatever is called, an account that was blocked and is no longer was held by
  a daily lock at some moment of the sequence.\<close>

theorem locks_latch:
  assumes "list_all (\<lambda>c. \<not> authorised c) cs" "blocking s"
  shows "(rs_state s = Emergency_stop \<longrightarrow> rs_state (after_calls cs s) = Emergency_stop)
    \<and> (rs_state s \<in> set NEEDS_AUTHORISED_RESET \<and> list_all (\<lambda>c. \<not> daily_lock c) cs
        \<longrightarrow> rs_state (after_calls cs s) \<in> set NEEDS_AUTHORISED_RESET)
    \<and> (\<not> blocking (after_calls cs s) \<longrightarrow>
        (\<exists>n < length cs. rs_state (after_calls (take n cs) s) = Daily_loss_locked
           \<and> rs_state (after_calls (take (Suc n) cs) s) = Normal))"
  using assms
proof (induction cs arbitrary: s)
  case (Cons c cs)
  let ?s = "after_call s c"
  note cs = after_call_cases [of c s]
  have na: "\<not> authorised c" and rest: "list_all (\<lambda>c. \<not> authorised c) cs" using Cons.prems(1) by simp_all
  show ?case
  proof (cases "blocking ?s")
    case True
    note ih = Cons.IH [OF rest True]
    have "rs_state s = Emergency_stop \<Longrightarrow> rs_state ?s = Emergency_stop" using cs [OF na] by auto
    moreover have "rs_state s \<in> set NEEDS_AUTHORISED_RESET \<Longrightarrow> \<not> daily_lock c \<Longrightarrow> rs_state ?s \<in> set NEEDS_AUTHORISED_RESET"
      using cs [OF na] True by (auto simp: NEEDS_AUTHORISED_RESET_def blocking_iff) (cases "rs_state ?s"; simp)+
    moreover have "\<exists>n < length (c # cs). rs_state (after_calls (take n (c # cs)) s) = Daily_loss_locked
           \<and> rs_state (after_calls (take (Suc n) (c # cs)) s) = Normal" if "\<not> blocking (after_calls (c # cs) s)"
    proof -
      have "\<not> blocking (after_calls cs ?s)" using that by simp
      then obtain n where "n < length cs" "rs_state (after_calls (take n cs) ?s) = Daily_loss_locked"
        "rs_state (after_calls (take (Suc n) cs) ?s) = Normal" using ih by blast
      then show ?thesis by (intro exI [of _ "Suc n"]) simp
    qed
    ultimately show ?thesis using ih by simp
  next
    case False
    then have d: "rs_state s = Daily_loss_locked" "rs_state ?s = Normal"
      using cs [OF na] Cons.prems(2) by (auto simp: blocking_def)
    then show ?thesis by (auto simp: NEEDS_AUTHORISED_RESET_def intro!: exI [of _ 0])
  qed
qed simp

definition drawn_down :: account_risk_state where
  "drawn_down = (fresh_state ''paper_account'' (Some ''acct''))\<lparr>rs_state := Drawdown_locked,
     rs_reason := ''drawdown 21%'', rs_since := Some 0, rs_set_by := Some ''risk_engine'', rs_locked_day := Some 0\<rparr>"

theorem locks_latch_witness:
  "rs_state (after_calls [Refresh (9 * DAY) 0, Clear (9 * DAY) (Some ''bot'') False,
     Lock Weekly_loss_locked ''week'' (9 * DAY) None None, Clear (9 * DAY) None True] drawn_down)
     \<in> set NEEDS_AUTHORISED_RESET"
  using locks_latch [of "[Refresh (9 * DAY) 0, Clear (9 * DAY) (Some ''bot'') False,
     Lock Weekly_loss_locked ''week'' (9 * DAY) None None, Clear (9 * DAY) None True]" drawn_down]
  by (simp add: blocking_iff drawn_down_def NEEDS_AUTHORISED_RESET_def)

text \<open>C35: a daily lock washes out a drawdown lock. Only an emergency stop is protected from being
  displaced. On an account locked by a lock that a person must clear, setting a daily lock succeeds
  and replaces it, and the refresh of any later trading day then reopens the account without
  anybody having released it.\<close>

theorem daily_lock_washes_out:
  assumes "rs_state s \<in> {Weekly_loss_locked, Drawdown_locked, Disabled}"
    and "day_start t h = Inr d" "day_start t' h = Inr d'" "d < d'"
  shows "rs_state (after_calls [Lock Daily_loss_locked why t by (Some d), Refresh t' h] s) = Normal"
  using assms
  by (auto simp: after_call_def lock_def refresh_def clear_def blocking_iff NEEDS_AUTHORISED_RESET_def)

theorem daily_lock_washes_out_witness:
  "rs_state (after_calls [Lock Daily_loss_locked ''day'' 5 None (Some 0), Refresh (DAY + 1) 0] drawn_down) = Normal"
  by (rule daily_lock_washes_out [of _ _ _ _ _ "DAY"])
     (simp_all add: drawn_down_def day_start_def DAY_def HOUR_def secs_def)

end
