(* ===== verification/Risk_Config.thy ===== *)
theory Risk_Config
  imports Risk_Checks
begin

text \<open>
  The risk configuration, \<open>backend/app/risk/config.py\<close>: the layers of limits, their combination, the
  stored form of a layer and the validation. A value of a dictionary is a Decimal with its places, an
  int, a float (the number its \<open>repr\<close> shows), a text, a bool or None. \<open>decimal_of_text\<close> reads the numerals
  of finite numbers; the texts of infinities and of NaN, which \<open>Decimal\<close> reads too, are refused here.
\<close>

section \<open>Values\<close>

datatype jval = J_dec rat nat | J_int int | J_float rat | J_str string | J_bool bool | J_none

fun jnum :: "jval \<Rightarrow> rat option" where \<comment> \<open>a bool is an int\<close>
  "jnum (J_dec x _) = Some x"
| "jnum (J_int n) = Some (of_int n)"
| "jnum (J_float x) = Some x"
| "jnum (J_bool b) = Some (if b then 1 else 0)"
| "jnum _ = None"

fun jtruthy :: "jval \<Rightarrow> bool" where
  "jtruthy (J_str s) = (s \<noteq> [])"
| "jtruthy J_none = False"
| "jtruthy v = (jnum v \<noteq> Some 0)"

definition jeq :: "jval \<Rightarrow> jval \<Rightarrow> bool" where \<comment> \<open>\<open>==\<close>\<close>
  "jeq a b \<longleftrightarrow> (case (jnum a, jnum b) of (Some x, Some y) \<Rightarrow> x = y | _ \<Rightarrow> a = b)"

datatype limit_problem =
    Must_be_positive string jval | Not_a_percentage string jval | Cannot_be_negative string jval
  | Minute_over_hour jval jval | Hour_over_day jval jval

datatype config_exc =
    Not_a_number string string | Unknown_limits "string list" | Problems "limit_problem list"
  | Type_error

fun str_less :: "string \<Rightarrow> string \<Rightarrow> bool" where
  "str_less _ [] = False"
| "str_less [] (_ # _) = True"
| "str_less (a # as) (b # bs) =
     ((of_char a :: nat) < of_char b \<or> a = b \<and> str_less as bs)"

definition jless :: "jval \<Rightarrow> jval \<Rightarrow> config_exc + bool" where \<comment> \<open>\<open><\<close>; a text and a number do not compare\<close>
  "jless a b = (case (jnum a, jnum b, a, b) of
     (Some x, Some y, _) \<Rightarrow> Inr (x < y)
   | (_, _, J_str s, J_str t) \<Rightarrow> Inr (str_less s t)
   | _ \<Rightarrow> Inl Type_error)"

section \<open>The rules of combination\<close>

datatype combiner = Take_min | Take_max | Take_or

definition COMBINE :: "(string \<times> combiner) list" where
  "COMBINE =
    [(''max_risk_per_trade'', Take_min), (''max_daily_loss'', Take_min), (''max_weekly_loss'', Take_min),
     (''max_consecutive_losses'', Take_min), (''max_correlated_exposure'', Take_min),
     (''max_drawdown_pct'', Take_min), (''max_exposure_per_currency'', Take_min),
     (''max_open_positions'', Take_min), (''max_trades_per_day'', Take_min),
     (''max_trades_per_hour'', Take_min), (''max_trades_per_minute'', Take_min), (''max_leverage'', Take_min),
     (''max_position_size'', Take_min), (''max_concentration_pct'', Take_min),
     (''max_margin_utilisation_pct'', Take_min), (''max_spread_points'', Take_min),
     (''max_signal_age_seconds'', Take_min), (''market_data_max_age_seconds'', Take_min),
     (''min_risk_reward'', Take_max), (''cooldown_seconds'', Take_max),
     (''one_position_per_symbol'', Take_or), (''require_stop_loss'', Take_or),
     (''require_market_open'', Take_or)]"

text \<open>\<open>_min\<close>, \<open>_max\<close> and \<open>_or\<close> with the present value, which may be missing, and a value that is not
  None; Python's \<open>min\<close> and \<open>max\<close> keep their first argument on a tie.\<close>

definition combine :: "combiner \<Rightarrow> jval option \<Rightarrow> jval \<Rightarrow> config_exc + jval" where
  "combine c current v = (case c of
     Take_min \<Rightarrow> (case current of None \<Rightarrow> Inr v | Some a \<Rightarrow> bindE (jless v a) (\<lambda>less. Inr (if less then v else a)))
   | Take_max \<Rightarrow> (case current of None \<Rightarrow> Inr v | Some a \<Rightarrow> bindE (jless a v) (\<lambda>less. Inr (if less then v else a)))
   | Take_or \<Rightarrow> Inr (J_bool ((case current of None \<Rightarrow> False | Some a \<Rightarrow> jtruthy a) \<or> jtruthy v)))"

section \<open>Validation\<close>

definition POSITIVE_ONLY :: "string list" where
  "POSITIVE_ONLY =
    [''max_risk_per_trade'', ''max_daily_loss'', ''max_drawdown_pct'', ''max_exposure_per_currency'',
     ''max_leverage'', ''max_position_size'', ''max_concentration_pct'', ''max_margin_utilisation_pct'',
     ''max_spread_points'', ''max_signal_age_seconds'', ''market_data_max_age_seconds'', ''min_risk_reward'']"

definition PERCENTAGES :: "string list" where
  "PERCENTAGES = [''max_drawdown_pct'', ''max_concentration_pct'', ''max_margin_utilisation_pct'']"

definition NON_NEGATIVE_INTS :: "string list" where
  "NON_NEGATIVE_INTS = [''max_open_positions'', ''max_trades_per_day'', ''max_trades_per_hour'',
     ''max_trades_per_minute'', ''cooldown_seconds'']"

text \<open>The fields of \<open>RiskLimits\<close> in their order.\<close>

definition FIELDS :: "string list" where
  "FIELDS =
    [''max_risk_per_trade'', ''max_daily_loss'', ''max_weekly_loss'', ''max_consecutive_losses'',
     ''max_correlated_exposure'', ''max_drawdown_pct'', ''max_exposure_per_currency'', ''max_open_positions'',
     ''max_trades_per_day'', ''max_leverage'', ''max_trades_per_hour'', ''max_trades_per_minute'',
     ''max_position_size'', ''max_concentration_pct'', ''max_margin_utilisation_pct'', ''min_risk_reward'',
     ''cooldown_seconds'', ''market_data_max_age_seconds'', ''one_position_per_symbol'', ''require_stop_loss'',
     ''require_market_open'', ''max_spread_points'', ''max_signal_age_seconds'']"

text \<open>A comparison with a number, \<open>v <= 0\<close>, \<open>v > 100\<close> and \<open>v < 0\<close>.\<close>

definition jtest :: "(rat \<Rightarrow> bool) \<Rightarrow> jval \<Rightarrow> config_exc + bool" where
  "jtest P v = (case jnum v of Some x \<Rightarrow> Inr (P x) | None \<Rightarrow> Inl Type_error)"

definition problem_if :: "bool \<Rightarrow> (rat \<Rightarrow> bool) \<Rightarrow> jval \<Rightarrow> limit_problem \<Rightarrow> config_exc + limit_problem list" where
  "problem_if applies P v pr =
     (if applies then bindE (jtest P v) (\<lambda>bad. Inr (if bad then [pr] else [])) else Inr [])"

fun is_bool :: "jval \<Rightarrow> bool" where
  "is_bool (J_bool _) = True"
| "is_bool _ = False"

definition field_problems :: "string \<Rightarrow> jval option \<Rightarrow> config_exc + limit_problem list" where
  "field_problems f value = (case value of None \<Rightarrow> Inr [] | Some v \<Rightarrow>
     if v = J_none \<or> is_bool v then Inr [] else
     bindE (problem_if (f \<in> set POSITIVE_ONLY) (\<lambda>x. x \<le> 0) v (Must_be_positive f v)) (\<lambda>a.
     bindE (problem_if (f \<in> set PERCENTAGES) (\<lambda>x. 100 < x) v (Not_a_percentage f v)) (\<lambda>b.
     bindE (problem_if (f \<in> set NON_NEGATIVE_INTS) (\<lambda>x. x < 0) v (Cannot_be_negative f v)) (\<lambda>c.
     Inr (a @ b @ c)))))"

definition window_problem :: "jval option \<Rightarrow> jval option \<Rightarrow> (jval \<Rightarrow> jval \<Rightarrow> limit_problem) \<Rightarrow> config_exc + limit_problem list" where
  "window_problem narrow wide pr = (case (narrow, wide) of
     (Some a, Some b) \<Rightarrow> bindE (jless b a) (\<lambda>over. Inr (if over then [pr a b] else []))
   | _ \<Rightarrow> Inr [])"

fun concatE :: "('e + 'a list) list \<Rightarrow> 'e + 'a list" where
  "concatE [] = Inr []"
| "concatE (r # rs) = bindE r (\<lambda>xs. bindE (concatE rs) (\<lambda>ys. Inr (xs @ ys)))"

definition validate :: "(string \<rightharpoonup> jval) \<Rightarrow> config_exc + limit_problem list" where
  "validate lm = concatE (map (\<lambda>f. field_problems f (lm f)) FIELDS
     @ [window_problem (lm ''max_trades_per_minute'') (lm ''max_trades_per_hour'') Minute_over_hour,
        window_problem (lm ''max_trades_per_hour'') (lm ''max_trades_per_day'') Hour_over_day])"

definition check_valid :: "(string \<rightharpoonup> jval) \<Rightarrow> config_exc + unit" where
  "check_valid lm = bindE (validate lm) (\<lambda>ps. if ps = [] then Inr () else Inl (Problems ps))"

section \<open>The stored form\<close>

definition DECIMAL_FIELDS :: "string list" where
  "DECIMAL_FIELDS =
    [''max_risk_per_trade'', ''max_daily_loss'', ''max_drawdown_pct'', ''max_exposure_per_currency'',
     ''max_leverage'', ''max_position_size'', ''max_concentration_pct'', ''max_margin_utilisation_pct'',
     ''max_spread_points'', ''min_risk_reward'']"

definition digit_val :: "char \<Rightarrow> nat option" where
  "digit_val c = (let n = of_char c :: nat in if 48 \<le> n \<and> n \<le> 57 then Some (n - 48) else None)"

definition digits_val :: "string \<Rightarrow> nat option" where \<comment> \<open>the value of a run of digits\<close>
  "digits_val s = foldl (\<lambda>acc c. case (acc, digit_val c) of (Some a, Some d) \<Rightarrow> Some (10 * a + d) | _ \<Rightarrow> None) (Some 0) s"

fun split_at :: "(char \<Rightarrow> bool) \<Rightarrow> string \<Rightarrow> string \<times> string option" where
  "split_at P [] = ([], None)"
| "split_at P (c # cs) = (if P c then ([], Some cs) else (let (a, b) = split_at P cs in (c # a, b)))"

definition signed :: "string \<Rightarrow> bool \<times> string" where
  "signed s = (case s of [] \<Rightarrow> (False, [])
     | c # cs \<Rightarrow> if c = CHR ''-'' then (True, cs) else if c = CHR ''+'' then (False, cs) else (False, s))"

definition exponent_of :: "string option \<Rightarrow> int option" where
  "exponent_of e = (case e of None \<Rightarrow> Some 0 | Some t \<Rightarrow>
     (let (neg, ds) = signed t in if ds = [] then None
      else map_option (\<lambda>n. if neg then - int n else int n) (digits_val ds)))"

definition decimal_of_text :: "string \<Rightarrow> rat option" where
  "decimal_of_text s =
     (let t = filter (\<lambda>c. c \<noteq> CHR ''_'') (str_strip s);
          (neg, body) = signed t;
          (mantissa, e) = split_at (\<lambda>c. c = CHR ''e'' \<or> c = CHR ''E'') body;
          (ip, fp) = split_at (\<lambda>c. c = CHR ''.'') mantissa;
          frac = (case fp of None \<Rightarrow> [] | Some f \<Rightarrow> f)
      in case (digits_val (ip @ frac), exponent_of e) of
           (Some n, Some x) \<Rightarrow> if ip @ frac = [] then None
             else Some ((if neg then - 1 else 1) * of_nat n * p10 (x - int (length frac)))
         | _ \<Rightarrow> None)"

text \<open>The digits of a number, and \<open>format(value, "f")\<close> for a Decimal with some places.\<close>

function nat_text :: "nat \<Rightarrow> string" where
  "nat_text n = (if n < 10 then [char_of (48 + n)] else nat_text (n div 10) @ [char_of (48 + n mod 10)])"
  by pat_completeness auto
termination by (relation "measure id") auto

declare nat_text.simps [simp del]

definition fixed_text :: "rat \<Rightarrow> nat \<Rightarrow> string" where
  "fixed_text v places =
     (let ds = nat_text (nat \<lfloor>\<bar>v\<bar> * 10 ^ places\<rfloor>);
          ds = replicate (Suc places - length ds) (CHR ''0'') @ ds;
          k = length ds - places
      in (if v < 0 then ''-'' else []) @ take k ds @ (if places = 0 then [] else ''.'' @ drop k ds))"

definition json_value :: "jval \<Rightarrow> jval" where
  "json_value v = (case v of J_dec x p \<Rightarrow> J_str (fixed_text x p) | _ \<Rightarrow> v)"

definition to_json :: "(string \<times> jval) list \<Rightarrow> (string \<times> jval) list" where
  "to_json params = map (\<lambda>(k, v). (k, json_value v)) params"

text \<open>\<open>str(value)\<close> of what a stored layer may hold, read as a Decimal; the places of the result only
  matter when it is written again.\<close>

definition restored :: "string \<Rightarrow> jval \<Rightarrow> config_exc + jval" where
  "restored key v = (case v of
     J_str s \<Rightarrow> (case decimal_of_text s of Some x \<Rightarrow> Inr (J_dec x 0) | None \<Rightarrow> Inl (Not_a_number key s))
   | J_int n \<Rightarrow> Inr (J_dec (of_int n) 0)
   | J_float x \<Rightarrow> Inr (J_dec x 0)
   | J_bool b \<Rightarrow> Inl (Not_a_number key (if b then ''True'' else ''False''))
   | _ \<Rightarrow> Inr v)"

fun from_json :: "(string \<times> jval) list \<Rightarrow> config_exc + (string \<times> jval) list" where
  "from_json [] = Inr []"
| "from_json ((k, v) # params) =
     bindE (if k \<in> set DECIMAL_FIELDS then restored k v else Inr v) (\<lambda>w.
     bindE (from_json params) (\<lambda>rest. Inr ((k, w) # rest)))"

section \<open>Resolution\<close>

record layer =
  ly_scope :: string
  ly_scope_ref :: "string option"
  ly_params :: "(string \<times> jval) list"
  ly_version :: int
  ly_name :: string

record resolved =
  rv_limits :: "string \<rightharpoonup> jval" \<comment> \<open>the limits that a layer states\<close>
  rv_version :: int
  rv_sources :: "string \<rightharpoonup> string"
  rv_layers :: "(string \<times> int) list"

definition layer_label :: "layer \<Rightarrow> string" where
  "layer_label l = ly_scope l @ '':'' @ (if truthy (ly_scope_ref l) then the (ly_scope_ref l) else ''*'')"

type_synonym gathered = "string list \<times> (string \<rightharpoonup> jval) \<times> (string \<rightharpoonup> string)"

definition take_param :: "string \<Rightarrow> string \<times> jval \<Rightarrow> gathered \<Rightarrow> config_exc + gathered" where
  "take_param label kv g =
     (let (key, v) = kv; (unknown, eff, src) = g in
      if key \<notin> set FIELDS then Inr (unknown @ [key], eff, src)
      else if v = J_none then Inr g
      else (case map_of COMBINE key of None \<Rightarrow> Inr (unknown @ [key], eff, src)
        | Some c \<Rightarrow> bindE (combine c (eff key) v) (\<lambda>w.
            Inr (unknown, eff(key \<mapsto> w),
              if (case eff key of None \<Rightarrow> True | Some a \<Rightarrow> \<not> jeq w a) then src(key \<mapsto> label) else src))))"

fun take_params :: "string \<Rightarrow> (string \<times> jval) list \<Rightarrow> gathered \<Rightarrow> config_exc + gathered" where
  "take_params label [] g = Inr g"
| "take_params label (kv # kvs) g = bindE (take_param label kv g) (take_params label kvs)"

fun take_layers :: "layer list \<Rightarrow> gathered \<Rightarrow> config_exc + gathered" where
  "take_layers [] g = Inr g"
| "take_layers (l # ls) g = bindE (from_json (ly_params l)) (\<lambda>ps.
     bindE (take_params (layer_label l) ps g) (take_layers ls))"

definition resolve :: "layer list \<Rightarrow> config_exc + resolved" where
  "resolve ls = bindE (take_layers ls ([], Map.empty, Map.empty)) (\<lambda>(unknown, eff, src).
     if unknown \<noteq> [] then Inl (Unknown_limits unknown)
     else bindE (check_valid eff) (\<lambda>_.
       let version = sum_list (map ly_version ls) in
       Inr \<lparr>rv_limits = eff, rv_version = (if version = 0 then 1 else version), rv_sources = src,
            rv_layers = map (\<lambda>l. (layer_label l, ly_version l)) ls\<rparr>))"

text \<open>\<open>replace(RiskLimits(), **effective)\<close>. Only three limits can hold a text, because the validation
  compares the others with a number; the engine reads the value of these three when the portfolio has
  the figure to compare, and then raises. Otherwise their value plays no part and is left at 0. An int
  field holds an int.\<close>

definition num_field :: "(string \<rightharpoonup> jval) \<Rightarrow> string \<Rightarrow> rat option" where
  "num_field lm f = map_option (\<lambda>v. case jnum v of Some x \<Rightarrow> x | None \<Rightarrow> 0) (lm f)"

definition int_field :: "(string \<rightharpoonup> jval) \<Rightarrow> string \<Rightarrow> int option" where
  "int_field lm f = map_option floor (num_field lm f)"

definition bool_field :: "(string \<rightharpoonup> jval) \<Rightarrow> string \<Rightarrow> bool \<Rightarrow> bool" where
  "bool_field lm f d = (case lm f of None \<Rightarrow> d | Some v \<Rightarrow> jtruthy v)"

definition limits_of :: "(string \<rightharpoonup> jval) \<Rightarrow> risk_limits" where
  "limits_of lm =
     \<lparr>max_risk_per_trade = num_field lm ''max_risk_per_trade'', max_daily_loss = num_field lm ''max_daily_loss'',
      max_weekly_loss = num_field lm ''max_weekly_loss'',
      max_consecutive_losses = int_field lm ''max_consecutive_losses'',
      max_correlated_exposure = num_field lm ''max_correlated_exposure'',
      max_drawdown_pct = num_field lm ''max_drawdown_pct'',
      max_exposure_per_currency = num_field lm ''max_exposure_per_currency'',
      max_open_positions = int_field lm ''max_open_positions'',
      max_trades_per_day = int_field lm ''max_trades_per_day'', max_leverage = num_field lm ''max_leverage'',
      max_trades_per_hour = int_field lm ''max_trades_per_hour'',
      max_trades_per_minute = int_field lm ''max_trades_per_minute'',
      max_position_size = num_field lm ''max_position_size'',
      max_concentration_pct = num_field lm ''max_concentration_pct'',
      max_margin_utilisation_pct = num_field lm ''max_margin_utilisation_pct'',
      min_risk_reward = num_field lm ''min_risk_reward'', cooldown_seconds = int_field lm ''cooldown_seconds'',
      market_data_max_age_seconds = num_field lm ''market_data_max_age_seconds'',
      one_position_per_symbol = bool_field lm ''one_position_per_symbol'' True,
      require_stop_loss = bool_field lm ''require_stop_loss'' True,
      require_market_open = bool_field lm ''require_market_open'' False,
      max_spread_points = num_field lm ''max_spread_points'',
      max_signal_age_seconds = num_field lm ''max_signal_age_seconds''\<rparr>"

definition is_text :: "jval option \<Rightarrow> bool" where
  "is_text v \<longleftrightarrow> (case v of Some w \<Rightarrow> jnum w = None | None \<Rightarrow> False)"

definition reads_text :: "(string \<rightharpoonup> jval) \<Rightarrow> portfolio_state \<Rightarrow> bool" where
  "reads_text lm pf \<longleftrightarrow> is_text (lm ''max_weekly_loss'') \<and> realised_week pf \<noteq> None
     \<or> is_text (lm ''max_consecutive_losses'') \<and> consecutive_losses pf \<noteq> None
     \<or> is_text (lm ''max_correlated_exposure'') \<and> correlated_exposure pf \<noteq> None"

end
