(* ===== verification/Risk_Service.thy ===== *)
theory Risk_Service
  imports Risk_Engine Risk_State Risk_Config
begin

text \<open>
  The risk service, \<open>backend/app/risk/service.py\<close>: the configuration and the locks in the table of the
  rules, the reservations of the approvals, and the evaluation that fails closed. One record holds the
  fields of the service and the two tables; a restart keeps the tables and makes the fields afresh.

  The clock, the identifiers drawn, the digest and the text of a verdict's reason are parameters. A
  flush of the session may fail: \<open>db_faults\<close> holds the outcomes of the flushes to come, and a failed
  flush leaves the tables as they were. The lock of an account serialises its evaluations, so each one
  is a step. Logging, \<open>recent\<close> and \<open>status\<close> are left out.
\<close>

section \<open>Codes and latches\<close>

fun CODE_FOR :: "limit_kind \<Rightarrow> rejection_code" where
  "CODE_FOR Kill_switch_global = C_kill_switch_active"
| "CODE_FOR Kill_switch_account = C_kill_switch_active"
| "CODE_FOR Kill_switch_strategy = C_kill_switch_active"
| "CODE_FOR Trading_mode = C_trading_mode_blocked"
| "CODE_FOR Market_open = C_market_closed"
| "CODE_FOR Market_data = C_market_data_stale"
| "CODE_FOR Signal_freshness = C_signal_too_old"
| "CODE_FOR Duplicate_signal = C_duplicate_signal"
| "CODE_FOR Max_open_positions = C_max_open_positions_exceeded"
| "CODE_FOR One_position_per_symbol = C_position_already_open"
| "CODE_FOR Max_trades_per_day = C_trade_frequency_exceeded"
| "CODE_FOR Max_daily_loss = C_max_daily_loss_exceeded"
| "CODE_FOR Max_weekly_loss = C_max_weekly_loss_exceeded"
| "CODE_FOR Max_consecutive_losses = C_max_consecutive_losses_reached"
| "CODE_FOR Max_correlated_exposure = C_max_correlated_exposure_exceeded"
| "CODE_FOR Max_drawdown = C_max_drawdown_exceeded"
| "CODE_FOR Max_exposure = C_max_exposure_exceeded"
| "CODE_FOR Max_leverage = C_max_leverage_exceeded"
| "CODE_FOR Max_risk_per_trade = C_max_risk_per_trade_exceeded"
| "CODE_FOR Spread = C_spread_too_wide"
| "CODE_FOR Position_size = C_invalid_quantity"
| "CODE_FOR Stop_loss_required = C_stop_loss_required"
| "CODE_FOR Account_state = C_account_state_invalid"
| "CODE_FOR Bot_state = C_bot_not_running"
| "CODE_FOR Strategy_state = C_strategy_disabled"
| "CODE_FOR Symbol_state = C_symbol_not_tradable"
| "CODE_FOR Max_position_size = C_max_position_size_exceeded"
| "CODE_FOR Max_concentration = C_max_concentration_exceeded"
| "CODE_FOR Margin = C_insufficient_margin"
| "CODE_FOR Trade_frequency = C_trade_frequency_exceeded"
| "CODE_FOR Cooldown = C_cooldown_active"
| "CODE_FOR Risk_reward = C_risk_reward_too_low"

definition LATCHING :: "limit_kind \<Rightarrow> risk_state option" where
  "LATCHING k = (if k = Max_daily_loss then Some Daily_loss_locked
     else if k = Max_weekly_loss then Some Weekly_loss_locked
     else if k = Max_drawdown then Some Drawdown_locked else None)"

section \<open>The decision\<close>

datatype risk_outcome = O_approved | O_approved_with_adjustment | O_rejected | O_halted | O_error

definition PERMITTING :: "risk_outcome list" where
  "PERMITTING = [O_approved, O_approved_with_adjustment]"

datatype risk_fault = Config_fault config_exc | State_fault risk_exc | Db_fault string

datatype check_name = Limit_check limit_kind | Lock_check risk_state | Engine_check

datatype dec_reason = DR_all_passed | DR_verdict reason | DR_locked risk_state string | DR_error risk_fault

datatype risk_warning = W_not_enforced limit_kind | W_outstanding nat

record check_record =
  cr_name :: check_name
  cr_passed :: bool
  cr_detail :: detail
  cr_enforced :: bool
  cr_code :: "rejection_code option"

record 'h risk_record =
  rd_outcome :: risk_outcome
  rd_at :: time
  rd_hash :: 'h
  rd_checks :: "check_record list"
  rd_account :: "string option"
  rd_strategy :: "string option"
  rd_symbol :: string
  rd_side :: string
  rd_mode :: string
  rd_requested :: "rat option"
  rd_approved_quantity :: "rat option"
  rd_reason :: dec_reason
  rd_codes :: "rejection_code list"
  rd_warnings :: "risk_warning list"
  rd_version :: int
  rd_id :: string
  rd_expires_at :: "time option"

definition rd_approved :: "'h risk_record \<Rightarrow> bool" where
  "rd_approved d \<longleftrightarrow> rd_outcome d \<in> set PERMITTING"

definition expiry :: "time \<Rightarrow> time" where
  "expiry t = t + secs APPROVAL_TTL_SECONDS"

record risk_request =
  kq_proposal :: order_proposal
  kq_portfolio :: portfolio_state
  kq_mode :: string
  kq_timeframe_seconds :: "int option"
  kq_recent :: "string list"
  kq_order_type :: string

definition request_fields :: "risk_request \<Rightarrow> string \<Rightarrow> field" where \<comment> \<open>\<open>RiskRequest.bound_fields\<close>\<close>
  "request_fields kq = (bound_of (kq_proposal kq) 0)
     (''volume'' := opt_dec (pp_volume (kq_proposal kq)), ''order_type'' := F_str (kq_order_type kq),
      ''mode'' := F_str (kq_mode kq))"

section \<open>The state of the service\<close>

record reservation =
  rsv_decision_id :: string
  rsv_account :: string
  rsv_exposure :: rat
  rsv_risk_amount :: rat
  rsv_positions :: int
  rsv_at :: time
  rsv_expires_at :: time

definition rsv_live :: "time \<Rightarrow> reservation \<Rightarrow> bool" where
  "rsv_live now r \<longleftrightarrow> now \<le> rsv_expires_at r"

datatype rule_body =
    Limits_rule "(string \<times> jval) list"
  | Switch_rule string
  | State_rule risk_state string "time option" "string option" "time option"

record risk_rule =
  rl_name :: string
  rl_scope :: string
  rl_scope_ref :: "string option"
  rl_body :: rule_body
  rl_priority :: int
  rl_enabled :: bool

datatype event_decision = E_approve | E_veto | E_halt

record 'h risk_service =
  sv_states :: "string \<rightharpoonup> account_risk_state"
  sv_switches :: kill_switches
  sv_reservations :: "string \<Rightarrow> reservation list"
  sv_recent :: "'h risk_record list"
  sv_loaded :: bool
  sv_boundary_hour :: int
  db_rules :: "risk_rule list"
  db_events :: "(event_decision \<times> 'h risk_record) list"
  db_faults :: "string option list"

text \<open>A new process on the same database.\<close>

definition restarted :: "'h risk_service \<Rightarrow> 'h risk_service" where
  "restarted s = s\<lparr>sv_states := Map.empty, sv_switches := no_switches, sv_reservations := (\<lambda>_. []),
     sv_recent := [], sv_loaded := False\<rparr>"

type_synonym ('h, 'a) risk_step = "'h risk_service \<Rightarrow> (risk_fault + 'a) \<times> 'h risk_service"

definition retR :: "'a \<Rightarrow> ('h, 'a) risk_step" where "retR x = (\<lambda>s. (Inr x, s))"

definition raiseR :: "risk_fault \<Rightarrow> ('h, 'a) risk_step" where "raiseR e = (\<lambda>s. (Inl e, s))"

definition bindR :: "('h, 'a) risk_step \<Rightarrow> ('a \<Rightarrow> ('h, 'b) risk_step) \<Rightarrow> ('h, 'b) risk_step" where
  "bindR m k = (\<lambda>s. case m s of (Inl e, s') \<Rightarrow> (Inl e, s') | (Inr x, s') \<Rightarrow> k x s')"

definition getR :: "('h risk_service \<Rightarrow> 'a) \<Rightarrow> ('h, 'a) risk_step" where "getR f = (\<lambda>s. (Inr (f s), s))"

definition updR :: "('h risk_service \<Rightarrow> 'h risk_service) \<Rightarrow> ('h, unit) risk_step" where
  "updR f = (\<lambda>s. (Inr (), f s))"

definition liftR :: "('e \<Rightarrow> risk_fault) \<Rightarrow> 'e + 'a \<Rightarrow> ('h, 'a) risk_step" where
  "liftR f r = (case r of Inl e \<Rightarrow> raiseR (f e) | Inr x \<Rightarrow> retR x)"

text \<open>A change of the tables and its flush.\<close>

definition flushR :: "('h risk_service \<Rightarrow> 'h risk_service) \<Rightarrow> ('h, unit) risk_step" where
  "flushR f = (\<lambda>s. case db_faults s of
     Some e # rest \<Rightarrow> (Inl (Db_fault e), s\<lparr>db_faults := rest\<rparr>)
   | _ # rest \<Rightarrow> (Inr (), f (s\<lparr>db_faults := rest\<rparr>))
   | [] \<Rightarrow> (Inr (), f s))"

section \<open>Recovery\<close>

definition state_key :: "string \<Rightarrow> string option \<Rightarrow> string" where
  "state_key scope ref = scope @ '':'' @ (if truthy ref then the ref else ''*'')"

definition ACCOUNT_SCOPES :: "string list" where
  "ACCOUNT_SCOPES = [''paper_account'', ''broker_account'']"

text \<open>One row of \<open>load\<close>: what it does to the states and to the switches.\<close>

definition load_row :: "risk_rule \<Rightarrow> (string \<rightharpoonup> account_risk_state) \<times> kill_switches \<Rightarrow> (string \<rightharpoonup> account_risk_state) \<times> kill_switches" where
  "load_row r acc = (let (sts, ks) = acc in case rl_body r of
     Switch_rule why \<Rightarrow>
       (sts, if rl_scope r = ''global'' then ks\<lparr>global_stop := True, global_reason := why\<rparr>
             else if rl_scope r \<in> set ACCOUNT_SCOPES \<and> truthy (rl_scope_ref r)
               then ks\<lparr>stopped_accounts := stopped_accounts ks @ [the (rl_scope_ref r)]\<rparr>
             else if rl_scope r = ''strategy'' \<and> truthy (rl_scope_ref r)
               then ks\<lparr>stopped_strategies := stopped_strategies ks @ [the (rl_scope_ref r)]\<rparr>
             else ks)
   | State_rule st why since by day \<Rightarrow>
       (sts(state_key (rl_scope r) (rl_scope_ref r) \<mapsto> \<lparr>rs_scope = rl_scope r, rs_scope_ref = rl_scope_ref r,
          rs_state = st, rs_reason = why, rs_since = since, rs_set_by = by, rs_locked_day = day, rs_history = []\<rparr>), ks)
   | Limits_rule _ \<Rightarrow> (sts, ks))"

definition load :: "('h, unit) risk_step" where
  "load = updR (\<lambda>s.
     let (sts, ks) = foldl (\<lambda>acc r. load_row r acc) (sv_states s, no_switches) (filter rl_enabled (db_rules s))
     in s\<lparr>sv_states := sts, sv_switches := ks, sv_loaded := True\<rparr>)"

definition load_once :: "('h, unit) risk_step" where
  "load_once = bindR (getR sv_loaded) (\<lambda>l. if l then retR () else load)"

definition put_state :: "string option \<Rightarrow> account_risk_state \<Rightarrow> ('h, unit) risk_step" where
  "put_state acct st = updR (\<lambda>s. s\<lparr>sv_states := (sv_states s)(state_key ''paper_account'' acct \<mapsto> st)\<rparr>)"

definition state_for :: "string option \<Rightarrow> ('h, account_risk_state) risk_step" where
  "state_for acct = bindR (getR (\<lambda>s. sv_states s (state_key ''paper_account'' acct))) (\<lambda>found.
     case found of Some st \<Rightarrow> retR st
     | None \<Rightarrow> (let st = fresh_state ''paper_account'' acct in bindR (put_state acct st) (\<lambda>_. retR st)))"

definition refreshed :: "string option \<Rightarrow> time \<Rightarrow> ('h, account_risk_state) risk_step" where
  "refreshed acct now = bindR (state_for acct) (\<lambda>st.
     bindR (getR sv_boundary_hour) (\<lambda>h.
     bindR (liftR State_fault (refresh now h st)) (\<lambda>st'. bindR (put_state acct st') (\<lambda>_. retR st'))))"

section \<open>Configuration\<close>

definition applies :: "string option \<Rightarrow> string option \<Rightarrow> string option \<Rightarrow> risk_rule \<Rightarrow> bool" where
  "applies acct strategy symb r \<longleftrightarrow>
     rl_scope r = ''global''
     \<or> rl_scope r \<in> set ACCOUNT_SCOPES \<and> rl_scope_ref r = acct
     \<or> rl_scope r = ''strategy'' \<and> rl_scope_ref r = strategy
     \<or> rl_scope r = ''symbol'' \<and> rl_scope_ref r = symb"

definition layer_of :: "risk_rule \<Rightarrow> layer" where
  "layer_of r = \<lparr>ly_scope = rl_scope r, ly_scope_ref = rl_scope_ref r,
     ly_params = (case rl_body r of Limits_rule ps \<Rightarrow> ps | _ \<Rightarrow> []),
     ly_version = (if rl_priority r \<noteq> 0 then rl_priority r else 1), ly_name = rl_name r\<rparr>"

definition is_limits :: "risk_rule \<Rightarrow> bool" where
  "is_limits r \<longleftrightarrow> (case rl_body r of Limits_rule _ \<Rightarrow> True | _ \<Rightarrow> False)"

text \<open>The caller's own layer: its fields that are not None.\<close>

definition caller_layer :: "string option \<Rightarrow> (string \<times> jval) list \<Rightarrow> layer" where
  "caller_layer strategy ps = \<lparr>ly_scope = ''strategy'',
     ly_scope_ref = Some (if truthy strategy then the strategy else ''caller''), ly_params = ps, ly_version = 1,
     ly_name = ''caller''\<rparr>"

definition configuration ::
    "string option \<Rightarrow> string option \<Rightarrow> string option \<Rightarrow> (string \<times> jval) list option \<Rightarrow> ('h, resolved) risk_step" where
  "configuration acct strategy symb extra = bindR (getR db_rules) (\<lambda>rules.
     let rows = filter (applies acct strategy symb) (sort_key rl_priority (filter (\<lambda>r. rl_enabled r \<and> is_limits r) rules))
     in liftR Config_fault (resolve (map layer_of rows
          @ (case extra of None \<Rightarrow> [] | Some ps \<Rightarrow> [caller_layer strategy ps]))))"

text \<open>The first row of a scope and a type, changed by \<open>f\<close>, or a new one.\<close>

fun upsert :: "(risk_rule \<Rightarrow> bool) \<Rightarrow> (risk_rule \<Rightarrow> risk_rule) \<Rightarrow> risk_rule \<Rightarrow> risk_rule list \<Rightarrow> risk_rule list" where
  "upsert P f new [] = [new]"
| "upsert P f new (r # rs) = (if P r then f r # rs else r # upsert P f new rs)"

definition set_limits :: "string \<Rightarrow> string option \<Rightarrow> (string \<times> jval) list \<Rightarrow> string \<Rightarrow> ('h, unit) risk_step" where
  "set_limits scope ref params name =
     bindR (liftR Config_fault (resolve [\<lparr>ly_scope = scope, ly_scope_ref = ref, ly_params = params,
       ly_version = 1, ly_name = []\<rparr>])) (\<lambda>rv.
     bindR (liftR Config_fault (check_valid (rv_limits rv))) (\<lambda>_.
     flushR (\<lambda>s. s\<lparr>db_rules := upsert (\<lambda>r. rl_scope r = scope \<and> rl_scope_ref r = ref \<and> is_limits r)
       (\<lambda>r. r\<lparr>rl_body := Limits_rule (to_json params), rl_priority := (if rl_priority r \<noteq> 0 then rl_priority r else 1) + 1, rl_name := name,
          rl_enabled := True\<rparr>)
       \<lparr>rl_name = name, rl_scope = scope, rl_scope_ref = ref, rl_body = Limits_rule (to_json params),
        rl_priority = 1, rl_enabled = True\<rparr> (db_rules s)\<rparr>)))"

section \<open>Kill switches\<close>

definition is_switch :: "risk_rule \<Rightarrow> bool" where
  "is_switch r \<longleftrightarrow> (case rl_body r of Switch_rule _ \<Rightarrow> True | _ \<Rightarrow> False)"

definition engage_kill_switch :: "string \<Rightarrow> string option \<Rightarrow> string \<Rightarrow> ('h, unit) risk_step" where
  "engage_kill_switch scope ref why = bindR (flushR (\<lambda>s. s\<lparr>db_rules := db_rules s @
       [\<lparr>rl_name = ''kill switch '' @ state_key scope ref, rl_scope = scope, rl_scope_ref = ref,
         rl_body = Switch_rule why, rl_priority = 0, rl_enabled = True\<rparr>]\<rparr>)) (\<lambda>_. load)"

definition release_kill_switch :: "string \<Rightarrow> string option \<Rightarrow> ('h, unit) risk_step" where
  "release_kill_switch scope ref = bindR (flushR (\<lambda>s. s\<lparr>db_rules := map (\<lambda>r.
       if is_switch r \<and> rl_scope r = scope \<and> rl_scope_ref r = ref \<and> rl_enabled r
       then r\<lparr>rl_enabled := False\<rparr> else r) (db_rules s)\<rparr>)) (\<lambda>_. load)"

section \<open>Locks\<close>

definition is_state :: "risk_rule \<Rightarrow> bool" where
  "is_state r \<longleftrightarrow> (case rl_body r of State_rule _ _ _ _ _ \<Rightarrow> True | _ \<Rightarrow> False)"

definition state_body :: "account_risk_state \<Rightarrow> rule_body" where
  "state_body st = State_rule (rs_state st) (rs_reason st) (rs_since st) (rs_set_by st) (rs_locked_day st)"

definition persist_state :: "account_risk_state \<Rightarrow> ('h, unit) risk_step" where
  "persist_state st = flushR (\<lambda>s. s\<lparr>db_rules := upsert
     (\<lambda>r. rl_scope r = rs_scope st \<and> rl_scope_ref r = rs_scope_ref st \<and> is_state r)
     (\<lambda>r. r\<lparr>rl_body := state_body st, rl_enabled := True\<rparr>)
     \<lparr>rl_name = ''risk state '' @ state_key (rs_scope st) (rs_scope_ref st), rl_scope = rs_scope st,
      rl_scope_ref = rs_scope_ref st, rl_body = state_body st, rl_priority = 0, rl_enabled = True\<rparr> (db_rules s)\<rparr>)"

definition lock_account ::
    "string option \<Rightarrow> risk_state \<Rightarrow> string \<Rightarrow> time \<Rightarrow> string \<Rightarrow> ('h, account_risk_state) risk_step" where \<comment> \<open>\<open>lock\<close>\<close>
  "lock_account acct state why t by = bindR (state_for acct) (\<lambda>current.
     bindR (getR sv_boundary_hour) (\<lambda>h.
     bindR (liftR State_fault (day_start t h)) (\<lambda>day.
     bindR (liftR State_fault (lock state why t (Some by) (Some day) current)) (\<lambda>st.
     bindR (put_state acct st) (\<lambda>_.
     bindR (persist_state st) (\<lambda>_. retR st))))))"

definition clear_lock :: "string option \<Rightarrow> string \<Rightarrow> time \<Rightarrow> ('h, account_risk_state) risk_step" where
  "clear_lock acct by now = bindR (state_for acct) (\<lambda>current.
     bindR (liftR State_fault (clear now (Some by) True current)) (\<lambda>st.
     bindR (put_state acct st) (\<lambda>_.
     bindR (persist_state st) (\<lambda>_. retR st))))"

section \<open>Reservations\<close>

definition live_reservations :: "string option \<Rightarrow> time \<Rightarrow> ('h, reservation list) risk_step" where
  "live_reservations acct now = (case acct of None \<Rightarrow> retR []
     | Some a \<Rightarrow> bindR (getR (\<lambda>s. filter (rsv_live now) (sv_reservations s a))) (\<lambda>held.
         bindR (updR (\<lambda>s. s\<lparr>sv_reservations := (sv_reservations s)(a := held)\<rparr>)) (\<lambda>_. retR held)))"

definition release :: "string \<Rightarrow> string option \<Rightarrow> ('h, bool) risk_step" where
  "release did acct = (case acct of None \<Rightarrow> retR False
     | Some a \<Rightarrow> bindR (getR (\<lambda>s. sv_reservations s a)) (\<lambda>before.
         let kept = filter (\<lambda>r. rsv_decision_id r \<noteq> did) before in
         bindR (updR (\<lambda>s. s\<lparr>sv_reservations := (sv_reservations s)(a := kept)\<rparr>)) (\<lambda>_.
         retR (length kept < length before))))"

text \<open>\<open>not exposure\<close>; a map has no code for it.\<close>

definition no_exposure :: "(string \<rightharpoonup> rat) \<Rightarrow> bool" where
  "no_exposure m \<longleftrightarrow> m = Map.empty"

declare no_exposure_def [code del]

definition with_reservations :: "portfolio_state \<Rightarrow> reservation list \<Rightarrow> portfolio_state" where
  "with_reservations pf held =
     (if held = [] then pf
      else let extra = dsum (map rsv_exposure held);
               exposure = map_option (\<lambda>x. dadd x extra) \<circ> exposure_by_currency pf;
               exposure = (if no_exposure (exposure_by_currency pf) \<and> extra \<noteq> 0 then [''__reserved__'' \<mapsto> extra] else exposure)
           in pf\<lparr>open_positions := map_option (\<lambda>n. n + sum_list (map rsv_positions held)) (open_positions pf),
                 exposure_by_currency := exposure\<rparr>)"

definition exposure_of :: "order_proposal \<Rightarrow> rat" where
  "exposure_of p = (case (pp_volume p, pp_entry_price p) of (Some v, Some e) \<Rightarrow> dabs (dmul v e) | _ \<Rightarrow> 0)"

section \<open>Evaluation\<close>

definition SIGNAL_AGE_BARS :: int where "SIGNAL_AGE_BARS = 2"

definition DEFAULT_SIGNAL_AGE_SECONDS :: rat where "DEFAULT_SIGNAL_AGE_SECONDS = 600"

definition with_signal_age :: "risk_limits \<Rightarrow> risk_request \<Rightarrow> risk_limits" where
  "with_signal_age li kq =
     (if max_signal_age_seconds li \<noteq> None then li
      else if pp_signal_time (kq_proposal kq) = None then li
      else li\<lparr>max_signal_age_seconds := Some (case kq_timeframe_seconds kq of
             Some n \<Rightarrow> if n \<noteq> 0 then of_int (n * SIGNAL_AGE_BARS) else DEFAULT_SIGNAL_AGE_SECONDS
           | None \<Rightarrow> DEFAULT_SIGNAL_AGE_SECONDS)\<rparr>)"

text \<open>The engine on resolved limits: with a kill switch engaged it reads none of them.\<close>

definition engine_verdict ::
    "resolved \<Rightarrow> kill_switches \<Rightarrow> risk_request \<Rightarrow> portfolio_state \<Rightarrow> time \<Rightarrow> config_exc + risk_verdict" where
  "engine_verdict cfg ks kq pf now =
     (let p = kq_proposal kq in
      if engaged_for ks (pp_account_id p) (pp_strategy_id p) = None \<and> reads_text (rv_limits cfg) pf then Inl Type_error
      else Inr (evaluate (with_signal_age (limits_of (rv_limits cfg)) kq) ks (kq_recent kq) p (Some pf) now))"

definition record_of :: "check_outcome \<Rightarrow> check_record" where
  "record_of c = \<lparr>cr_name = Limit_check (co_limit c), cr_passed = passed c, cr_detail = detail c,
     cr_enforced = enforced c, cr_code = (if passed c then None else Some (CODE_FOR (co_limit c)))\<rparr>"

definition codes_of :: "check_record list \<Rightarrow> rejection_code list" where \<comment> \<open>each once, in order\<close>
  "codes_of rs = rev (remdups (rev (List.map_filter cr_code (filter (\<lambda>c. \<not> cr_passed c) rs))))"

definition warnings_of :: "check_outcome list \<Rightarrow> reservation list \<Rightarrow> risk_warning list" where
  "warnings_of cs held = map (\<lambda>c. W_not_enforced (co_limit c)) (filter (\<lambda>c. \<not> enforced c) cs)
     @ (if held = [] then [] else [W_outstanding (length held)])"

definition latched_by :: "check_outcome list \<Rightarrow> risk_state list" where
  "latched_by cs = List.map_filter (\<lambda>c. LATCHING (co_limit c)) (filter (\<lambda>c. \<not> passed c) cs)"

definition outcome_for :: "risk_verdict \<Rightarrow> risk_outcome" where
  "outcome_for v = (if list_all passed (vd_checks v) then O_approved
     else if latched_by (vd_checks v) \<noteq> [] \<or> decision v = Halt then O_halted else O_rejected)"

definition error_decision :: "(string \<Rightarrow> 'h) \<Rightarrow> string \<Rightarrow> risk_request \<Rightarrow> risk_fault \<Rightarrow> time \<Rightarrow> 'h risk_record" where
  "error_decision digest did kq e now = (let p = kq_proposal kq in
     \<lparr>rd_outcome = O_error, rd_at = now, rd_hash = request_hash digest (request_fields kq),
      rd_checks = [\<lparr>cr_name = Engine_check, cr_passed = False, cr_detail = [], cr_enforced = True,
        cr_code = Some C_risk_engine_error\<rparr>],
      rd_account = pp_account_id p, rd_strategy = pp_strategy_id p, rd_symbol = pp_symbol p, rd_side = pp_side p,
      rd_mode = kq_mode kq, rd_requested = pp_volume p, rd_approved_quantity = None, rd_reason = DR_error e,
      rd_codes = [C_risk_engine_error], rd_warnings = [], rd_version = 0, rd_id = did, rd_expires_at = None\<rparr>)"

text \<open>\<open>_decision\<close>: the record, put first among the recent ones.\<close>

definition note_decision :: "'h risk_record \<Rightarrow> ('h, 'h risk_record) risk_step" where
  "note_decision d = bindR (updR (\<lambda>s. s\<lparr>sv_recent := take 200 (d # sv_recent s)\<rparr>)) (\<lambda>_. retR d)"

definition make_decision ::
    "(string \<Rightarrow> 'h) \<Rightarrow> string \<Rightarrow> risk_request \<Rightarrow> risk_outcome \<Rightarrow> time \<Rightarrow> check_record list \<Rightarrow> int \<Rightarrow> dec_reason
     \<Rightarrow> rejection_code list \<Rightarrow> risk_warning list \<Rightarrow> rat option \<Rightarrow> bool \<Rightarrow> 'h risk_record" where
  "make_decision digest did kq oc now recs version why cs ws quantity expires = (let p = kq_proposal kq in
     \<lparr>rd_outcome = oc, rd_at = now, rd_hash = request_hash digest (request_fields kq), rd_checks = recs,
      rd_account = pp_account_id p, rd_strategy = pp_strategy_id p, rd_symbol = pp_symbol p, rd_side = pp_side p,
      rd_mode = kq_mode kq, rd_requested = pp_volume p, rd_approved_quantity = quantity, rd_reason = why,
      rd_codes = cs, rd_warnings = ws, rd_version = version, rd_id = did,
      rd_expires_at = (if expires then Some (expiry now) else None)\<rparr>)"

definition event_decision :: "'h risk_record \<Rightarrow> event_decision" where \<comment> \<open>\<open>_engine_decision\<close>\<close>
  "event_decision d = (if rd_approved d then E_approve else if rd_outcome d = O_halted then E_halt else E_veto)"

definition record_decision :: "'h risk_record \<Rightarrow> ('h, unit) risk_step" where
  "record_decision d = flushR (\<lambda>s. s\<lparr>db_events := db_events s @ [(event_decision d, d)]\<rparr>)"

definition reserve_for :: "'h risk_record \<Rightarrow> order_proposal \<Rightarrow> time \<Rightarrow> ('h, unit) risk_step" where
  "reserve_for d p now = updR (\<lambda>s. let a = the (pp_account_id p) in
     s\<lparr>sv_reservations := (sv_reservations s)(a := sv_reservations s a @
       [\<lparr>rsv_decision_id = rd_id d, rsv_account = a, rsv_exposure = exposure_of p,
         rsv_risk_amount = (case pp_risk_amount p of Some x \<Rightarrow> x | None \<Rightarrow> 0), rsv_positions = 1, rsv_at = now,
         rsv_expires_at = (case rd_expires_at d of Some t \<Rightarrow> t | None \<Rightarrow> expiry now)\<rparr>])\<rparr>)"

definition whenR :: "bool \<Rightarrow> ('h, unit) risk_step \<Rightarrow> ('h, unit) risk_step" where
  "whenR b m = (if b then m else retR ())"

text \<open>The part of \<open>_decide\<close> after the lock has been found open.\<close>

definition decide_open ::
    "(reason \<Rightarrow> string) \<Rightarrow> (string \<Rightarrow> 'h) \<Rightarrow> string \<Rightarrow> risk_request \<Rightarrow> time \<Rightarrow> bool \<Rightarrow> bool \<Rightarrow> resolved
     \<Rightarrow> ('h, 'h risk_record) risk_step" where
  "decide_open txt digest did kq now persist reserve cfg =
     (let p = kq_proposal kq; acct = pp_account_id p in
      bindR (getR sv_switches) (\<lambda>ks.
      bindR (live_reservations acct now) (\<lambda>held.
      bindR (liftR Config_fault (engine_verdict cfg ks kq (with_reservations (kq_portfolio kq) held) now)) (\<lambda>v.
      let recs = map record_of (vd_checks v); ws = warnings_of (vd_checks v) held; latched = latched_by (vd_checks v) in
      if list_all cr_passed recs then
        bindR (note_decision (make_decision digest did kq O_approved now recs (rv_version cfg) DR_all_passed [] ws
                 (pp_volume p) True)) (\<lambda>d.
        bindR (whenR (reserve \<and> truthy acct \<and> pp_volume p \<noteq> None) (reserve_for d p now)) (\<lambda>_.
        bindR (whenR persist (record_decision d)) (\<lambda>_. retR d)))
      else
        bindR (note_decision (make_decision digest did kq (outcome_for v) now recs (rv_version cfg)
                 (DR_verdict (vd_reason v)) (codes_of recs) ws None False)) (\<lambda>d.
        bindR (whenR (latched \<noteq> [] \<and> persist) (bindR (lock_account acct (hd latched) (take 400 (txt (vd_reason v))) now
                 ''risk_engine'') (\<lambda>_. retR ()))) (\<lambda>_.
        bindR (whenR persist (record_decision d)) (\<lambda>_. retR d)))))))"

definition decide_risk ::
    "(reason \<Rightarrow> string) \<Rightarrow> (string \<Rightarrow> 'h) \<Rightarrow> string \<Rightarrow> risk_request \<Rightarrow> time \<Rightarrow> bool \<Rightarrow> bool
     \<Rightarrow> ('h, 'h risk_record) risk_step" where \<comment> \<open>\<open>_decide\<close>\<close>
  "decide_risk txt digest did kq now persist reserve =
     (let p = kq_proposal kq; acct = pp_account_id p in
      bindR load_once (\<lambda>_.
      bindR (configuration acct (pp_strategy_id p) (Some (pp_symbol p)) None) (\<lambda>cfg.
      bindR (refreshed acct now) (\<lambda>st.
      case lock_code st of
        Some code \<Rightarrow> note_decision (make_decision digest did kq O_halted now
          [\<lparr>cr_name = Lock_check (rs_state st), cr_passed = False, cr_detail = [T (rs_reason st)], cr_enforced = True,
            cr_code = Some code\<rparr>]
          (rv_version cfg) (DR_locked (rs_state st) (rs_reason st)) [code] [] None False)
      | None \<Rightarrow> decide_open txt digest did kq now persist reserve cfg))))"

text \<open>\<open>_evaluate\<close>, with \<open>check\<close> and \<open>evaluate\<close>: a fault is a decision of its own.\<close>

definition evaluate_request ::
    "(reason \<Rightarrow> string) \<Rightarrow> (string \<Rightarrow> 'h) \<Rightarrow> string \<Rightarrow> string \<Rightarrow> bool \<Rightarrow> bool \<Rightarrow> risk_request \<Rightarrow> time
     \<Rightarrow> 'h risk_service \<Rightarrow> 'h risk_record \<times> 'h risk_service" where
  "evaluate_request txt digest did eid persist reserve kq now s =
     (case decide_risk txt digest did kq now persist reserve s of
        (Inr d, s') \<Rightarrow> (d, s') | (Inl e, s') \<Rightarrow> (error_decision digest eid kq e now, s'))"

definition check_request ::
    "(reason \<Rightarrow> string) \<Rightarrow> (string \<Rightarrow> 'h) \<Rightarrow> string \<Rightarrow> string \<Rightarrow> risk_request \<Rightarrow> time
     \<Rightarrow> 'h risk_service \<Rightarrow> 'h risk_record \<times> 'h risk_service" where
  "check_request txt digest did eid = evaluate_request txt digest did eid False False"

definition evaluate_for_real ::
    "(reason \<Rightarrow> string) \<Rightarrow> (string \<Rightarrow> 'h) \<Rightarrow> string \<Rightarrow> string \<Rightarrow> risk_request \<Rightarrow> time
     \<Rightarrow> 'h risk_service \<Rightarrow> 'h risk_record \<times> 'h risk_service" where
  "evaluate_for_real txt digest did eid = evaluate_request txt digest did eid True True"

section \<open>The gate of a runner\<close>

definition precheck :: "string option \<Rightarrow> time \<Rightarrow> ('h, account_risk_state option) risk_step" where
  "precheck acct now = bindR load_once (\<lambda>_. bindR (refreshed acct now) (\<lambda>st.
     retR (if blocking st then Some st else None)))"

definition limits_for ::
    "string option \<Rightarrow> string option \<Rightarrow> string option \<Rightarrow> (string \<times> jval) list option \<Rightarrow> ('h, resolved) risk_step" where
  "limits_for acct strategy symb caller = bindR load_once (\<lambda>_. configuration acct strategy symb caller)"

definition record_verdict ::
    "(reason \<Rightarrow> string) \<Rightarrow> (string \<Rightarrow> 'h) \<Rightarrow> string \<Rightarrow> risk_verdict \<Rightarrow> string option \<Rightarrow> string \<Rightarrow> int \<Rightarrow> string
     \<Rightarrow> ('h, 'h risk_record) risk_step" where
  "record_verdict txt digest did v acct mode version order_type =
     (let p = vd_proposal v; recs = map record_of (vd_checks v); ok = list_all cr_passed recs; latched = latched_by (vd_checks v);
          kq = \<lparr>kq_proposal = p, kq_portfolio = empty_portfolio, kq_mode = mode, kq_timeframe_seconds = None,
                kq_recent = [], kq_order_type = order_type\<rparr>
      in bindR (note_decision ((make_decision digest did kq (outcome_for v) (vd_at v) recs version (DR_verdict (vd_reason v))
           (codes_of recs) (warnings_of (vd_checks v) []) (if ok then pp_volume p else None) ok)\<lparr>rd_account := acct\<rparr>)) (\<lambda>d.
         bindR (whenR (latched \<noteq> []) (bindR (lock_account acct (hd latched) (take 400 (txt (vd_reason v))) (vd_at v)
           ''risk_engine'') (\<lambda>_. retR ()))) (\<lambda>_.
         bindR (record_decision d) (\<lambda>_. retR d))))"

definition engine_for_close :: "'h risk_service \<Rightarrow> risk_limits \<times> kill_switches" where
  "engine_for_close s = (default_limits, sv_switches s)"

end
