(* ===== verification/Risk_Config_Props.thy ===== *)
theory Risk_Config_Props
  imports Risk_Config
begin

text \<open>
  What the configuration of the risk engine promises: the most restrictive of the layers wins, and a
  stored limit is read back, but for the limits whose stored form is not restored.
\<close>

section \<open>Numerals round trip\<close>

definition is_digit :: "char \<Rightarrow> bool" where
  "is_digit c \<longleftrightarrow> digit_val c \<noteq> None"

lemma digit_char [simp]: "n < 10 \<Longrightarrow> digit_val (char_of (48 + n)) = Some n" for n :: nat
  by (simp add: digit_val_def Let_def)

lemma is_digit_char [simp]: "n < 10 \<Longrightarrow> is_digit (char_of (48 + n))" for n :: nat
  by (simp add: is_digit_def)

lemma zero_digit [simp]: "digit_val (CHR ''0'') = Some 0" "is_digit (CHR ''0'')"
  by code_simp+

definition add_digit :: "nat option \<Rightarrow> char \<Rightarrow> nat option" where
  "add_digit acc c = (case (acc, digit_val c) of (Some a, Some d) \<Rightarrow> Some (10 * a + d) | _ \<Rightarrow> None)"

lemma digits_val_foldl: "digits_val s = foldl add_digit (Some 0) s"
  by (simp add: digits_val_def add_digit_def [abs_def])

lemma digits_val_snoc: "digits_val (s @ [c]) = add_digit (digits_val s) c"
  by (simp add: digits_val_foldl)

lemma digits_val_zeros: "digits_val (replicate k (CHR ''0'') @ s) = digits_val s"
proof -
  have "foldl add_digit (Some 0) (replicate k (CHR ''0'')) = Some 0"
    by (induction k) (simp_all add: add_digit_def)
  then show ?thesis by (simp add: digits_val_foldl)
qed

lemma nat_text_digits: "list_all is_digit (nat_text n) \<and> nat_text n \<noteq> [] \<and> digits_val (nat_text n) = Some n"
proof (induction n rule: nat_text.induct)
  case (1 n)
  show ?case
  proof (cases "n < 10")
    case True
    then show ?thesis by (subst (1 2 3) nat_text.simps) (simp add: digits_val_foldl add_digit_def)
  next
    case False
    then show ?thesis using 1 by (subst (1 2 3) nat_text.simps) (simp add: digits_val_snoc add_digit_def)
  qed
qed

lemma digit_plain:
  assumes "is_digit c"
  shows "\<not> is_space c" "c \<noteq> CHR ''_''" "c \<noteq> CHR ''-''" "c \<noteq> CHR ''+''" "c \<noteq> CHR ''.''" "c \<noteq> CHR ''e''" "c \<noteq> CHR ''E''"
  using assms by (auto simp: is_digit_def digit_val_def is_space_def Let_def split: if_splits)

lemma split_at_none: "list_all (\<lambda>c. \<not> P c) s \<Longrightarrow> split_at P s = (s, None)"
  by (induction s) auto

lemma split_at_first: "list_all (\<lambda>c. \<not> P c) s \<Longrightarrow> P x \<Longrightarrow> split_at P (s @ x # t) = (s, Some t)"
  by (induction s) auto

lemma strip_plain: "list_all (\<lambda>c. \<not> is_space c) s \<Longrightarrow> str_strip s = s"
proof -
  have d: "dropWhile is_space t = t" if "list_all (\<lambda>c. \<not> is_space c) t" for t using that by (cases t) auto
  assume "list_all (\<lambda>c. \<not> is_space c) s"
  moreover from this have "list_all (\<lambda>c. \<not> is_space c) (rev s)" by (simp add: list_all_iff)
  ultimately show "str_strip s = s" by (simp add: str_strip_def d)
qed

lemma plain_imp: "list_all is_digit s \<Longrightarrow> (\<And>c. is_digit c \<Longrightarrow> P c) \<Longrightarrow> list_all P s"
  by (auto simp: list_all_iff)

text \<open>A numeral without an exponent: a sign, digits, perhaps a point and digits.\<close>

lemma decimal_of_digits:
  assumes "list_all is_digit ip" "list_all is_digit fp" "ip \<noteq> []" "digits_val (ip @ fp) = Some n"
    and "q = [] \<and> fp = [] \<or> q = CHR ''.'' # fp"
  shows "decimal_of_text ((if neg then ''-'' else []) @ ip @ q)
    = Some ((if neg then - 1 else 1) * of_nat n * p10 (- int (length fp)))"
proof -
  let ?s = "(if neg then ''-'' else []) @ ip @ q"
  have all: "list_all P (ip @ q)" if "\<And>c. is_digit c \<Longrightarrow> P c" "P (CHR ''.'')" for P
    using assms(1,2,5) that by (auto simp: list_all_iff)
  have dot: "\<not> is_space (CHR ''.'')" "\<not> is_space (CHR ''-'')" by code_simp+
  have st: "str_strip ?s = ?s"
    using all [of "\<lambda>c. \<not> is_space c"] digit_plain(1) dot by (intro strip_plain) auto
  have fl: "filter (\<lambda>c. c \<noteq> CHR ''_'') ?s = ?s"
    using all [of "\<lambda>c. c \<noteq> CHR ''_''"] digit_plain(2) by (auto simp: filter_id_conv list_all_iff)
  have sg: "signed ?s = (neg, ip @ q)"
    using assms(1,3) digit_plain(3,4) by (cases ip) (auto simp: signed_def)
  have e: "split_at (\<lambda>c. c = CHR ''e'' \<or> c = CHR ''E'') (ip @ q) = (ip @ q, None)"
    using all [of "\<lambda>c. \<not> (c = CHR ''e'' \<or> c = CHR ''E'')"] digit_plain(6,7) by (intro split_at_none) auto
  have m: "split_at (\<lambda>c. c = CHR ''.'') (ip @ q) = (ip, if q = [] then None else Some fp)"
    using assms(5) plain_imp [OF assms(1), of "\<lambda>c. \<not> (c = CHR ''.'')"] digit_plain(5)
    by (auto intro: split_at_none split_at_first)
  have "(case (if q = [] then None else Some fp) of None \<Rightarrow> [] | Some f \<Rightarrow> f) = fp" using assms(5) by auto
  then show ?thesis
    using assms(3,4)
    unfolding decimal_of_text_def Let_def st fl sg prod.case e m by (simp add: exponent_of_def)
qed

lemma decimal_of_fixed:
  assumes "v * 10 ^ places = of_int k"
  shows "decimal_of_text (fixed_text v places) = Some v"
proof -
  let ?n = "nat \<lfloor>\<bar>v\<bar> * 10 ^ places\<rfloor>"
  let ?z = "replicate (Suc places - length (nat_text ?n)) (CHR ''0'') @ nat_text ?n"
  let ?k = "length ?z - places"
  have len: "places < length ?z" by (cases "length (nat_text ?n) \<le> places") auto
  have dg: "list_all is_digit ?z" "digits_val ?z = Some ?n"
    using nat_text_digits [of ?n] by (auto simp: digits_val_zeros list_all_iff in_set_replicate)
  have "\<bar>v\<bar> * 10 ^ places = of_int \<bar>k\<bar>" using assms by (metis abs_mult abs_numeral of_int_abs power_abs)
  then have n: "of_nat ?n = \<bar>v\<bar> * 10 ^ places" by simp
  have tk: "list_all is_digit (take ?k ?z)" "list_all is_digit (drop ?k ?z)" "take ?k ?z \<noteq> []"
    using dg(1) len by (auto simp: list_all_iff dest: in_set_takeD in_set_dropD)
  have ln: "length (drop ?k ?z) = places" using len unfolding length_drop by linarith
  have q: "(if places = 0 then [] else ''.'' @ drop ?k ?z) = [] \<and> drop ?k ?z = []
      \<or> (if places = 0 then [] else ''.'' @ drop ?k ?z) = CHR ''.'' # drop ?k ?z"
  proof (cases "places = 0")
    case True
    then have "length (drop ?k ?z) = 0" by (rule trans [OF ln])
    then have "drop ?k ?z = []" by (simp only: length_0_conv)
    then show ?thesis using True by (simp only: simp_thms if_True)
  qed simp
  have "digits_val (take ?k ?z @ drop ?k ?z) = Some ?n" unfolding append_take_drop_id by (rule dg(2))
  from decimal_of_digits [OF tk(1,2,3) this q, of "v < 0"]
  have "decimal_of_text (fixed_text v places) = Some ((if v < 0 then - 1 else 1) * of_nat ?n * p10 (- int places))"
    unfolding ln fixed_text_def Let_def .
  also have "\<dots> = Some v" using p10_diff [of 0 "int places"] by (simp add: n p10_nat)
  finally show ?thesis .
qed

section \<open>The most restrictive wins\<close>

text \<open>The values the layers state for a limit, as they are read.\<close>

definition layer_values :: "string \<Rightarrow> layer \<Rightarrow> jval list" where
  "layer_values k l = (case from_json (ly_params l) of Inl _ \<Rightarrow> []
     | Inr ps \<Rightarrow> map snd (filter (\<lambda>(key, v). key = k \<and> v \<noteq> J_none) ps))"

definition stated :: "string \<Rightarrow> layer list \<Rightarrow> jval list" where
  "stated k ls = concat (map (layer_values k) ls)"

definition figures :: "jval list \<Rightarrow> rat list" where
  "figures vs = map the (filter (\<lambda>x. x \<noteq> None) (map jnum vs))"

text \<open>What the value gathered so far says of the values seen: for a minimum or maximum, when it is a
  number, so were they all.\<close>

definition tracks :: "combiner \<Rightarrow> jval list \<Rightarrow> jval option \<Rightarrow> bool" where
  "tracks c vs cur \<longleftrightarrow> (if vs = [] then cur = None else (\<exists>v. cur = Some v \<and> (case c of
      Take_or \<Rightarrow> v = J_bool (list_ex jtruthy vs)
    | Take_min \<Rightarrow> jnum v \<noteq> None \<longrightarrow> list_all (\<lambda>w. jnum w \<noteq> None) vs \<and> jnum v = Some (Min (set (figures vs)))
    | Take_max \<Rightarrow> jnum v \<noteq> None \<longrightarrow> list_all (\<lambda>w. jnum w \<noteq> None) vs \<and> jnum v = Some (Max (set (figures vs))))))"

lemma figures_snoc: "jnum w = Some x \<Longrightarrow> figures (vs @ [w]) = figures vs @ [x]"
  by (simp add: figures_def)

lemma figures_ne: "list_all (\<lambda>w. jnum w \<noteq> None) vs \<Longrightarrow> vs \<noteq> [] \<Longrightarrow> figures vs \<noteq> []"
  by (cases vs) (auto simp: figures_def)

lemma jless_Inr:
  assumes "jless a b = Inr r"
  shows "(\<exists>x y. jnum a = Some x \<and> jnum b = Some y \<and> r = (x < y)) \<or> jnum a = None \<and> jnum b = None"
  using assms by (auto simp: jless_def split: option.splits jval.splits)

lemma tracks_step:
  assumes "tracks c vs cur" "combine c cur w = Inr v"
  shows "tracks c (vs @ [w]) (Some v)"
proof (cases "vs = []")
  case True
  then have "cur = None" using assms(1) by (simp add: tracks_def)
  with assms(2) True show ?thesis by (cases c) (auto simp: tracks_def combine_def figures_def)
next
  case False
  then obtain a where a: "cur = Some a" using assms(1) by (auto simp: tracks_def)
  have num: ?thesis if nv: "jnum v = Some z" and cc: "c = Take_min \<or> c = Take_max" for z
  proof -
    have "\<exists>r. (jless w a = Inr r \<or> jless a w = Inr r) \<and> (v = w \<or> v = a)"
      using assms(2) cc unfolding a by (auto simp: combine_def bindE_Inr)
    then obtain r where r: "jless w a = Inr r \<or> jless a w = Inr r" "v = w \<or> v = a" by blast
    obtain x y where xy: "jnum w = Some x" "jnum a = Some y"
      using r nv jless_Inr [of w a] jless_Inr [of a w] by fastforce
    have all: "list_all (\<lambda>w. jnum w \<noteq> None) vs" using assms(1) cc False xy(2) unfolding a
      by (auto simp: tracks_def)
    note ne = figures_ne [OF all False]
    show ?thesis using cc
    proof
      assume c: "c = Take_min"
      then have "y = Min (set (figures vs))" using assms(1) False xy(2) unfolding a by (auto simp: tracks_def)
      moreover have "z = (if x < y then x else y)"
        using assms(2) nv xy unfolding a c by (auto simp: combine_def bindE_Inr jless_def split: if_splits)
      moreover have "Min (set (figures (vs @ [w]))) = min x (Min (set (figures vs)))"
        using ne by (simp add: figures_snoc [OF xy(1)])
      ultimately have "z = Min (set (figures (vs @ [w])))" by (simp add: min_def)
      then show ?thesis using all xy(1) nv unfolding c by (simp add: tracks_def)
    next
      assume c: "c = Take_max"
      then have "y = Max (set (figures vs))" using assms(1) False xy(2) unfolding a by (auto simp: tracks_def)
      moreover have "z = (if y < x then x else y)"
        using assms(2) nv xy unfolding a c by (auto simp: combine_def bindE_Inr jless_def split: if_splits)
      moreover have "Max (set (figures (vs @ [w]))) = max x (Max (set (figures vs)))"
        using ne by (simp add: figures_snoc [OF xy(1)])
      ultimately have "z = Max (set (figures (vs @ [w])))" by (simp add: max_def)
      then show ?thesis using all xy(1) nv unfolding c by (simp add: tracks_def)
    qed
  qed
  show ?thesis
  proof (cases c)
    case Take_or
    then show ?thesis using assms False unfolding a
      by (auto simp: tracks_def combine_def split: if_splits)
  qed (use num in \<open>cases "jnum v"; auto simp: tracks_def\<close>)+
qed

lemma take_params_tracks:
  assumes "take_params label ps (u, eff, src) = Inr (u', eff', src')" "tracks c vs (eff k)"
    and "k \<in> set FIELDS" "map_of COMBINE k = Some c"
  shows "tracks c (vs @ map snd (filter (\<lambda>(key, v). key = k \<and> v \<noteq> J_none) ps)) (eff' k)"
  using assms(1,2)
proof (induction ps arbitrary: u eff src vs)
  case (Cons kv ps)
  obtain key v where kv: "kv = (key, v)" by (cases kv)
  obtain u1 eff1 src1 where s: "take_param label kv (u, eff, src) = Inr (u1, eff1, src1)"
    "take_params label ps (u1, eff1, src1) = Inr (u', eff', src')"
    using Cons.prems(1) by (auto simp: bindE_Inr)
  have "tracks c (vs @ (if key = k \<and> v \<noteq> J_none then [v] else [])) (eff1 k)"
    using s(1) Cons.prems(2) assms(3,4) unfolding kv take_param_def
    by (auto simp: bindE_Inr intro: tracks_step split: if_splits option.splits)
  from Cons.IH [OF s(2) this] show ?case unfolding kv by (cases "key = k \<and> v \<noteq> J_none") auto
qed simp

lemma take_layers_tracks:
  assumes "take_layers ls (u, eff, src) = Inr (u', eff', src')" "tracks c vs (eff k)"
    and "k \<in> set FIELDS" "map_of COMBINE k = Some c"
  shows "tracks c (vs @ stated k ls) (eff' k)"
  using assms(1,2)
proof (induction ls arbitrary: u eff src vs)
  case (Cons l ls)
  obtain ps u1 eff1 src1 where s: "from_json (ly_params l) = Inr ps"
    "take_params (layer_label l) ps (u, eff, src) = Inr (u1, eff1, src1)"
    "take_layers ls (u1, eff1, src1) = Inr (u', eff', src')"
    using Cons.prems(1) by (auto simp: bindE_Inr)
  from Cons.IH [OF s(3) take_params_tracks [OF s(2) Cons.prems(2) assms(3,4)]]
  show ?case using s(1) by (simp add: stated_def layer_values_def)
qed (simp add: stated_def)

lemma concatE_mem: "concatE rs = Inr ys \<Longrightarrow> r \<in> set rs \<Longrightarrow> \<exists>xs. r = Inr xs \<and> set xs \<subseteq> set ys"
  by (induction rs arbitrary: ys) (auto simp: bindE_Inr, blast)

lemma valid_fields:
  assumes "check_valid lm = Inr ()" "f \<in> set FIELDS"
  shows "field_problems f (lm f) = Inr []"
proof -
  have "validate lm = Inr []" using assms(1) by (auto simp: check_valid_def bindE_Inr split: if_splits)
  moreover have "field_problems f (lm f) \<in> set (map (\<lambda>f. field_problems f (lm f)) FIELDS)" using assms(2) by simp
  then have "field_problems f (lm f) \<in> set (map (\<lambda>f. field_problems f (lm f)) FIELDS
     @ [window_problem (lm ''max_trades_per_minute'') (lm ''max_trades_per_hour'') Minute_over_hour,
        window_problem (lm ''max_trades_per_hour'') (lm ''max_trades_per_day'') Hour_over_day])" by simp
  from concatE_mem [OF _ this] calculation show ?thesis unfolding validate_def by fastforce
qed

lemma valid_number:
  assumes "check_valid lm = Inr ()" "f \<in> set FIELDS" "lm f = Some v" "v \<noteq> J_none"
    and "f \<in> set POSITIVE_ONLY \<union> set PERCENTAGES \<union> set NON_NEGATIVE_INTS"
  shows "jnum v \<noteq> None"
proof (cases "is_bool v")
  case True
  then show ?thesis by (cases v) simp_all
next
  case False
  then show ?thesis using valid_fields [OF assms(1,2)] assms(3-5)
    by (auto simp: field_problems_def problem_if_def jtest_def bindE_Inr split: if_splits option.splits)
qed


lemma combine_not_none: "combine c cur v = Inr w \<Longrightarrow> v \<noteq> J_none \<Longrightarrow> cur \<noteq> Some J_none \<Longrightarrow> w \<noteq> J_none"
  by (cases c) (auto simp: combine_def bindE_Inr split: option.splits if_splits)

lemma take_params_not_none:
  "take_params label ps (u, eff, src) = Inr (u', eff', src') \<Longrightarrow> eff k \<noteq> Some J_none \<Longrightarrow> eff' k \<noteq> Some J_none"
proof (induction ps arbitrary: u eff src)
  case (Cons kv ps)
  obtain u1 eff1 src1 where s: "take_param label kv (u, eff, src) = Inr (u1, eff1, src1)"
    "take_params label ps (u1, eff1, src1) = Inr (u', eff', src')"
    using Cons.prems(1) by (auto simp: bindE_Inr)
  have "eff1 k \<noteq> Some J_none" using s(1) Cons.prems(2) combine_not_none [of _ "eff k"]
    by (auto simp: take_param_def bindE_Inr split: prod.splits if_splits option.splits)
  with s(2) show ?case by (rule Cons.IH)
qed simp

lemma take_layers_not_none:
  "take_layers ls (u, eff, src) = Inr (u', eff', src') \<Longrightarrow> eff k \<noteq> Some J_none \<Longrightarrow> eff' k \<noteq> Some J_none"
proof (induction ls arbitrary: u eff src)
  case (Cons l ls)
  then show ?case using take_params_not_none by (fastforce simp: bindE_Inr)
qed simp

lemma resolved_tracks:
  assumes "resolve ls = Inr r" "map_of COMBINE k = Some c"
    and "k \<notin> {''max_weekly_loss'', ''max_consecutive_losses'', ''max_correlated_exposure''}"
  shows "tracks c (stated k ls) (rv_limits r k)" "rv_limits r k = Some w \<Longrightarrow> c = Take_or \<or> jnum w \<noteq> None"
proof -
  obtain eff src where g: "take_layers ls ([], Map.empty, Map.empty) = Inr ([], eff, src)"
    and v: "check_valid eff = Inr ()" and r: "rv_limits r = eff"
    using assms(1) by (auto simp: resolve_def bindE_Inr Let_def split: if_splits)
  have k: "k \<in> set FIELDS" "c = Take_or \<or> k \<in> set POSITIVE_ONLY \<union> set PERCENTAGES \<union> set NON_NEGATIVE_INTS"
    using assms(2,3) by (auto simp: COMBINE_def FIELDS_def POSITIVE_ONLY_def PERCENTAGES_def NON_NEGATIVE_INTS_def split: if_splits)
  show "tracks c (stated k ls) (rv_limits r k)"
    using take_layers_tracks [OF g, of c "[]" k] k(1) assms(2) by (simp add: tracks_def r)
  show "rv_limits r k = Some w \<Longrightarrow> c = Take_or \<or> jnum w \<noteq> None"
    using take_layers_not_none [OF g, of k] valid_number [OF v k(1)] k(2) unfolding r by fastforce
qed

text \<open>C36: the most restrictive wins. Apart from the three limits that are not validated, every limit of
  a resolved configuration is, as a number, the smallest of the caps or the largest of the floors, or
  the disjunction of the switches that the layers state, and is set exactly when a layer states it; the order of the
  layers, their scope and their number have no part in it.\<close>

theorem most_restrictive_wins:
  assumes "resolve ls = Inr r" "map_of COMBINE k = Some c"
    and "k \<notin> {''max_weekly_loss'', ''max_consecutive_losses'', ''max_correlated_exposure''}"
  shows "case c of
      Take_or \<Rightarrow> rv_limits r k = (if stated k ls = [] then None else Some (J_bool (list_ex jtruthy (stated k ls))))
    | Take_min \<Rightarrow> Option.bind (rv_limits r k) jnum = (if stated k ls = [] then None else Some (Min (set (figures (stated k ls)))))
    | Take_max \<Rightarrow> Option.bind (rv_limits r k) jnum = (if stated k ls = [] then None else Some (Max (set (figures (stated k ls)))))"
proof (cases "stated k ls = []")
  case True
  then show ?thesis using resolved_tracks(1) [OF assms] by (cases c) (simp_all add: tracks_def)
next
  case False
  then obtain w where w: "rv_limits r k = Some w" using resolved_tracks(1) [OF assms] by (auto simp: tracks_def)
  show ?thesis using resolved_tracks(1) [OF assms] resolved_tracks(2) [OF assms w] False w by (cases c) (auto simp: tracks_def)
qed

text \<open>A cap stated by any layer bounds the resolved one.\<close>

lemma from_json_mem:
  "from_json ps = Inr qs \<Longrightarrow> (k, v) \<in> set ps \<Longrightarrow> k \<notin> set DECIMAL_FIELDS \<Longrightarrow> (k, v) \<in> set qs"
  by (induction ps arbitrary: qs) (auto simp: bindE_Inr)

lemma take_layers_from_json: "take_layers ls g = Inr g' \<Longrightarrow> l \<in> set ls \<Longrightarrow> \<exists>qs. from_json (ly_params l) = Inr qs"
  by (induction ls arbitrary: g) (auto simp: bindE_Inr)

lemma resolved_cap:
  assumes "resolve ls = Inr r" "l \<in> set ls" "(''max_open_positions'', J_int m) \<in> set (ly_params l)"
  shows "\<exists>mx. max_open_positions (limits_of (rv_limits r)) = Some mx \<and> mx \<le> m"
proof -
  let ?k = "''max_open_positions''"
  have c: "map_of COMBINE ?k = Some Take_min" "?k \<notin> {''max_weekly_loss'', ''max_consecutive_losses'', ''max_correlated_exposure''}"
    "?k \<notin> set DECIMAL_FIELDS"
    by (simp_all add: COMBINE_def DECIMAL_FIELDS_def)
  obtain qs where qs: "from_json (ly_params l) = Inr qs"
    using assms(1,2) take_layers_from_json by (fastforce simp: resolve_def bindE_Inr)
  have "J_int m \<in> set (layer_values ?k l)"
    using from_json_mem [OF qs assms(3) c(3)] by (force simp: layer_values_def qs)
  then have st: "J_int m \<in> set (stated ?k ls)" using assms(2) by (auto simp: stated_def)
  note t = resolved_tracks [OF assms(1) c(1,2)]
  obtain w where w1: "rv_limits r ?k = Some w" using t(1) st by (auto simp: tracks_def split: if_splits)
  with t(2) [OF w1] obtain x where w: "rv_limits r ?k = Some w" "jnum w = Some x" by auto
  have "of_int m \<in> set (figures (stated ?k ls))" using st by (force simp: figures_def)
  moreover have "stated ?k ls \<noteq> []" using st by auto
  ultimately have "x \<le> of_int m" using t(1) w by (auto simp: tracks_def)
  then show ?thesis using w by (simp add: limits_of_def int_field_def num_field_def floor_le_iff)
qed

definition two_layers :: "layer list" where
  "two_layers = [\<lparr>ly_scope = ''global'', ly_scope_ref = None, ly_params = [(''max_risk_per_trade'', J_str ''200'')],
       ly_version = 1, ly_name = ''g''\<rparr>,
     \<lparr>ly_scope = ''strategy'', ly_scope_ref = Some ''s1'', ly_params = [(''max_risk_per_trade'', J_str ''300'')],
       ly_version = 2, ly_name = ''s''\<rparr>]"

theorem most_restrictive_wins_witness:
  "\<exists>r. resolve two_layers = Inr r \<and> Option.bind (rv_limits r ''max_risk_per_trade'') jnum = Some 200"
proof -
  have "(case resolve two_layers of Inr r \<Rightarrow> True | Inl _ \<Rightarrow> False)" by code_simp
  then obtain r where r: "resolve two_layers = Inr r" by (auto split: sum.splits)
  have "stated ''max_risk_per_trade'' two_layers = [J_dec 200 0, J_dec 300 0]" by code_simp
  then have "Option.bind (rv_limits r ''max_risk_per_trade'') jnum = Some 200"
    using most_restrictive_wins [OF r, of "''max_risk_per_trade''" Take_min]
    by (simp add: COMBINE_def figures_def)
  with r show ?thesis by blast
qed

section \<open>Storing a limit\<close>

text \<open>A stored limit comes back. Every Decimal limit of the ten that \<open>from_json\<close> restores is read back
  with the value it was stored with; the weekly loss and the correlated exposure, Decimals too, come
  back as their texts.\<close>

theorem stored_limits_come_back:
  assumes "v * 10 ^ places = of_int n"
  shows "from_json (to_json [(k, J_dec v places)]) =
    Inr [(k, if k \<in> set DECIMAL_FIELDS then J_dec v 0 else J_str (fixed_text v places))]"
  using decimal_of_fixed [OF assms] by (simp add: to_json_def json_value_def restored_def)

theorem stored_limits_come_back_witness:
  "from_json (to_json [(''max_daily_loss'', J_dec (25/2) 2)]) = Inr [(''max_daily_loss'', J_dec (25/2) 0)]"
  using stored_limits_come_back [of "25/2" 2 1250 "''max_daily_loss''"] by (simp add: DECIMAL_FIELDS_def)

lemma COMBINE_weekly: "map_of COMBINE ''max_weekly_loss'' = Some Take_min" "''max_weekly_loss'' \<in> set FIELDS"
  "''max_weekly_loss'' \<notin> set DECIMAL_FIELDS" "''max_weekly_loss'' \<notin> set POSITIVE_ONLY"
  "''max_weekly_loss'' \<notin> set PERCENTAGES" "''max_weekly_loss'' \<notin> set NON_NEGATIVE_INTS"
  by (simp_all add: COMBINE_def FIELDS_def DECIMAL_FIELDS_def POSITIVE_ONLY_def PERCENTAGES_def NON_NEGATIVE_INTS_def)

text \<open>Of two stored weekly loss limits the one whose text comes first is kept: 1000 beats 200.\<close>

lemma stored_weekly_limits_compare_as_texts:
  "combine Take_min (Some (J_str ''200'')) (J_str ''1000'') = Inr (J_str ''1000'')"
  "combine Take_min (Some (J_str ''1000'')) (J_str ''200'') = Inr (J_str ''1000'')"
  by code_simp+

text \<open>A stored weekly loss limit is unusable. A layer that states only a weekly loss limit is accepted
  and stored, and its stored form is accepted again when it is read; but what is read is a text, and
  evaluating an order with it raises as soon as the result of the week is known.\<close>

theorem weekly_limit_is_lost:
  assumes "ly_params l = [(''max_weekly_loss'', J_dec v places)]" "realised_week pf = Some w"
  shows "\<exists>r r'. resolve [l] = Inr r \<and> max_weekly_loss (limits_of (rv_limits r)) = Some v \<and> \<not> reads_text (rv_limits r) pf
    \<and> resolve [l\<lparr>ly_params := to_json (ly_params l)\<rparr>] = Inr r'
    \<and> rv_limits r' = [''max_weekly_loss'' \<mapsto> J_str (fixed_text v places)] \<and> reads_text (rv_limits r') pf"
proof -
  let ?k = "''max_weekly_loss''"
  have fp: "field_problems f ([?k \<mapsto> w] f) = Inr []" for f w
    using COMBINE_weekly(4-6) by (cases "f = ?k") (auto simp: field_problems_def problem_if_def)
  have "concatE (map (\<lambda>f. field_problems f ([?k \<mapsto> w] f)) fs @ [Inr [], Inr []]) = Inr []" for fs w
    by (induction fs) (simp_all only: list.map append.simps concatE.simps fp bindE_simps)
  then have cv: "check_valid [?k \<mapsto> w] = Inr ()" for w
    by (simp add: check_valid_def validate_def window_problem_def)
  have tl: "take_layers [l\<lparr>ly_params := [(?k, w)]\<rparr>] ([], Map.empty, Map.empty)
      = Inr ([], [?k \<mapsto> w], [?k \<mapsto> layer_label l])" if "w \<noteq> J_none" for w
    using that COMBINE_weekly(1-3) by (simp add: take_param_def combine_def layer_label_def)
  have rs: "\<exists>r. resolve [l\<lparr>ly_params := [(?k, w)]\<rparr>] = Inr r \<and> rv_limits r = [?k \<mapsto> w]" if "w \<noteq> J_none" for w
    unfolding resolve_def tl [OF that] by (simp add: cv Let_def)
  have l: "l\<lparr>ly_params := [(?k, J_dec v places)]\<rparr> = l" using assms(1) by (cases l) simp
  obtain r where r: "resolve [l] = Inr r" "rv_limits r = [?k \<mapsto> J_dec v places]"
    using rs [of "J_dec v places"] unfolding l by auto
  obtain r' where r': "resolve [l\<lparr>ly_params := to_json (ly_params l)\<rparr>] = Inr r'"
    "rv_limits r' = [?k \<mapsto> J_str (fixed_text v places)]"
    using rs [of "J_str (fixed_text v places)"] unfolding assms(1) by (auto simp: to_json_def json_value_def)
  show ?thesis using r r' assms(2)
    by (intro exI [of _ r] exI [of _ r']) (simp add: limits_of_def num_field_def reads_text_def is_text_def)
qed

theorem weekly_limit_is_lost_witness:
  "\<exists>r. resolve [\<lparr>ly_scope = ''global'', ly_scope_ref = None,
      ly_params = to_json [(''max_weekly_loss'', J_dec 500 0)], ly_version = 1, ly_name = ''g''\<rparr>] = Inr r
    \<and> reads_text (rv_limits r) (empty_portfolio\<lparr>realised_week := Some 20\<rparr>)"
  using weekly_limit_is_lost [of "\<lparr>ly_scope = ''global'', ly_scope_ref = None,
      ly_params = [(''max_weekly_loss'', J_dec 500 0)], ly_version = 1, ly_name = ''g''\<rparr>" 500 0
      "empty_portfolio\<lparr>realised_week := Some 20\<rparr>" 20] by auto

end
