(* ===== verification/Risk_Service_Props.thy ===== *)
theory Risk_Service_Props
  imports Risk_Service Risk_Config_Props
begin

text \<open>
  What the risk service promises: a fault is a refusal and an approval is on record, the approvals
  outstanding share the limit of open positions, and a lock outlives the process.
\<close>

section \<open>What a step keeps\<close>

text \<open>A relation between the states before and after a step that composes; then everything composed
  of steps that keep it keeps it.\<close>

locale kept =
  fixes R :: "'h risk_service \<Rightarrow> 'h risk_service \<Rightarrow> bool"
  assumes kept_refl: "R s s"
    and kept_trans: "R s t \<Longrightarrow> R t u \<Longrightarrow> R s u"
begin

lemma kept_bind:
  assumes "\<And>s. R s (snd (m s))" "\<And>x s. R s (snd (k x s))"
  shows "R s (snd (bindR m k s))"
  using assms(1) [of s] assms(2) kept_trans by (auto simp: bindR_def split: prod.splits sum.splits)

lemma kept_pure:
  "R s (snd (retR x s))" "R s (snd (raiseR e s))" "R s (snd (getR f s))" "R s (snd (liftR g y s))"
  by (auto simp: retR_def raiseR_def getR_def liftR_def kept_refl split: sum.splits)

lemma kept_upd: "(\<And>s. R s (f s)) \<Longrightarrow> R s (snd (updR f s))"
  by (simp add: updR_def)

lemma kept_when: "(\<And>s. R s (snd (m s))) \<Longrightarrow> R s (snd (whenR b m s))"
  by (simp add: whenR_def kept_pure)

end

text \<open>The fields that locks, decisions and their records change: a relation that ignores them is kept by
  every step of the service but those of the reservations and of the rules.\<close>

locale ignores_locks = kept +
  assumes fields: "R s (s\<lparr>sv_states := x\<rparr>)" "R s (s\<lparr>sv_recent := y\<rparr>)" "R s (s\<lparr>db_faults := z\<rparr>)"
      "R s (s\<lparr>sv_states := x, sv_switches := w, sv_loaded := l\<rparr>)"
    and events: "R s (s\<lparr>db_events := db_events s @ es\<rparr>)"
    and states: "is_state new \<Longrightarrow> (\<And>r. is_state r \<Longrightarrow> is_state (f r)) \<Longrightarrow>
      R s (s\<lparr>db_rules := upsert (\<lambda>r. P r \<and> is_state r) f new (db_rules s)\<rparr>)"
begin

lemma flush_kept:
  assumes "\<And>s. R s (f s)"
  shows "R s (snd (flushR f s))"
proof -
  have z: "R s (f (s\<lparr>db_faults := z\<rparr>))" for z by (rule kept_trans [OF fields(3) assms])
  show ?thesis by (simp add: flushR_def assms fields(3) z split: list.split option.split)
qed

lemma lock_steps:
  "R s (snd (put_state acct st s))" "R s (snd (state_for acct s))" "R s (snd (refreshed acct now s))"
  "R s (snd (load s))" "R s (snd (load_once s))" "R s (snd (configuration a b c e s))"
  "R s (snd (note_decision d s))" "R s (snd (record_decision d s))" "R s (snd (persist_state st s))"
  "R s (snd (lock_account acct k why t who s))" "R s (snd (clear_lock acct who t s))" "R s (snd (precheck acct now s))"
proof -
  show put: "R s (snd (put_state acct st s))" for acct st s by (simp add: put_state_def kept_upd fields)
  show sf: "R s (snd (state_for acct s))" for acct s
    unfolding state_for_def by (intro kept_bind kept_pure) (auto simp: Let_def kept_pure intro!: kept_bind put split: option.splits)
  show rf: "R s (snd (refreshed acct now s))" for acct now s
    unfolding refreshed_def by (intro kept_bind kept_pure sf put)
  show ld: "R s (snd (load s))" for s
    unfolding load_def by (rule kept_upd) (simp add: fields split: prod.splits)
  show lo: "R s (snd (load_once s))" for s
    unfolding load_once_def by (intro kept_bind kept_pure) (simp add: kept_pure ld)
  show "R s (snd (configuration a b c e s))" unfolding configuration_def by (intro kept_bind kept_pure) (simp add: Let_def kept_pure)
  show "R s (snd (note_decision d s))" unfolding note_decision_def by (intro kept_bind kept_pure kept_upd) (simp add: fields)
  show "R s (snd (record_decision d s))" unfolding record_decision_def by (rule flush_kept) (rule events)
  show pe: "R s (snd (persist_state st s))" for st s
    unfolding persist_state_def conj_assoc [symmetric]
    by (rule flush_kept, rule states) (simp_all add: is_state_def state_body_def)
  show "R s (snd (lock_account acct k why t who s))" unfolding lock_account_def by (intro kept_bind kept_pure sf put pe)
  show "R s (snd (clear_lock acct who t s))" unfolding clear_lock_def by (intro kept_bind kept_pure sf put pe)
  show "R s (snd (precheck acct now s))" unfolding precheck_def by (intro kept_bind kept_pure lo rf)
qed

end

lemma upsert_other:
  assumes "\<And>r. P r \<Longrightarrow> \<not> Q r" "\<And>r. P r \<Longrightarrow> \<not> Q (f r)" "\<not> Q new"
  shows "filter Q (upsert P f new rs) = filter Q rs"
  using assms by (induction rs) auto

lemma state_not_limits: "is_state r \<Longrightarrow> \<not> is_limits r"
  by (auto simp: is_state_def is_limits_def split: rule_body.splits)

text \<open>The reservations and the configured limits are untouched by locks and records; the record of
  events only grows.\<close>

definition same_budget :: "'h risk_service \<Rightarrow> 'h risk_service \<Rightarrow> bool" where
  "same_budget s s' \<longleftrightarrow> sv_reservations s' = sv_reservations s
     \<and> filter is_limits (db_rules s') = filter is_limits (db_rules s)"

interpretation budget: ignores_locks same_budget
proof unfold_locales
  fix P and f :: "risk_rule \<Rightarrow> risk_rule" and new and s :: "'h risk_service"
  assume "is_state new" "\<And>r. is_state r \<Longrightarrow> is_state (f r)"
  then show "same_budget s (s\<lparr>db_rules := upsert (\<lambda>r. P r \<and> is_state r) f new (db_rules s)\<rparr>)"
    using upsert_other [of "\<lambda>r. P r \<and> is_state r" is_limits f new "db_rules s"] state_not_limits
    by (auto simp: same_budget_def)
qed (simp_all add: same_budget_def)

interpretation audit: ignores_locks "\<lambda>s s'. take (length (db_events s)) (db_events s') = db_events s"
proof unfold_locales
  fix s t u :: "'h risk_service"
  assume a: "take (length (db_events s)) (db_events t) = db_events s" "take (length (db_events t)) (db_events u) = db_events t"
  then have "length (db_events s) \<le> length (db_events t)" by (metis length_take min.cobounded1)
  then show "take (length (db_events s)) (db_events u) = db_events s" using a by (metis min.absorb1 take_take)
qed simp_all

section \<open>The course of a decision\<close>

definition held_of :: "string option \<Rightarrow> time \<Rightarrow> 'h risk_service \<Rightarrow> reservation list" where
  "held_of acct now s = (case acct of None \<Rightarrow> [] | Some a \<Rightarrow> filter (rsv_live now) (sv_reservations s a))"

definition pruned :: "string option \<Rightarrow> time \<Rightarrow> 'h risk_service \<Rightarrow> 'h risk_service" where
  "pruned acct now s = (case acct of None \<Rightarrow> s
     | Some a \<Rightarrow> s\<lparr>sv_reservations := (sv_reservations s)(a := held_of acct now s)\<rparr>)"

lemma run_simps [simp]:
  "retR x s = (Inr x, s)" "raiseR e s = (Inl e, s)" "getR f s = (Inr (f s), s)" "updR g s = (Inr (), g s)"
  "live_reservations acct now s = (Inr (held_of acct now s), pruned acct now s)"
  "note_decision d s = (Inr d, s\<lparr>sv_recent := take 200 (d # sv_recent s)\<rparr>)"
  by (simp_all add: retR_def raiseR_def getR_def updR_def live_reservations_def note_decision_def bindR_def
      held_of_def pruned_def split: option.split)

lemma stepR_bind: "bindR m k s = (case m s of (Inl e, s') \<Rightarrow> (Inl e, s') | (Inr x, s') \<Rightarrow> k x s')"
  by (simp add: bindR_def)

lemma bindR_ret [simp]: "bindR (retR x) k = k x"
  by (simp add: bindR_def fun_eq_iff)

lemma bindR_upd: "bindR (updR f) k s = k () (f s)"
  by (simp add: bindR_def)

lemma liftR_simps [simp]: "liftR f (Inl e) s = (Inl (f e), s)" "liftR f (Inr x) s = (Inr x, s)"
  by (simp_all add: liftR_def)

lemma bindR_Inr: "bindR m k s = (Inr y, s'') \<longleftrightarrow> (\<exists>x s'. m s = (Inr x, s') \<and> k x s' = (Inr y, s''))"
  by (auto simp: bindR_def split: prod.splits sum.splits)

lemma pruned_fields [simp]: "sv_switches (pruned acct now s) = sv_switches s" "db_events (pruned acct now s) = db_events s"
  "filter is_limits (db_rules (pruned acct now s)) = filter is_limits (db_rules s)" "sv_states (pruned acct now s) = sv_states s"
  "sv_reservations (pruned acct now s) = (case acct of None \<Rightarrow> sv_reservations s
     | Some a \<Rightarrow> (sv_reservations s)(a := held_of acct now s))"
  by (simp_all add: pruned_def split: option.split)

lemma records_pass: "list_all cr_passed (map record_of cs) \<longleftrightarrow> list_all passed cs"
  by (simp add: list_all_iff record_of_def)

text \<open>What the engine says to a request in a state of the service.\<close>

definition verdict_in :: "resolved \<Rightarrow> risk_request \<Rightarrow> time \<Rightarrow> 'h risk_service \<Rightarrow> config_exc + risk_verdict" where
  "verdict_in cfg kq now s = engine_verdict cfg (sv_switches s) kq
     (with_reservations (kq_portfolio kq) (held_of (pp_account_id (kq_proposal kq)) now s)) now"

definition passes_in :: "resolved \<Rightarrow> risk_request \<Rightarrow> time \<Rightarrow> 'h risk_service \<Rightarrow> bool" where
  "passes_in cfg kq now s \<longleftrightarrow> (case verdict_in cfg kq now s of Inl _ \<Rightarrow> False | Inr v \<Rightarrow> list_all passed (vd_checks v))"

lemma same_budget_trans: "same_budget s t \<Longrightarrow> same_budget t u \<Longrightarrow> same_budget s u"
  by (rule budget.kept_trans)

lemma run_snd: "m s = (r, s') \<Longrightarrow> R t (snd (m s)) \<Longrightarrow> R t s'"
  by simp

text \<open>The reservations after a decision: those alive, and one more only when every check passed with them.\<close>

lemma decide_open_budget:
  fixes s :: "'h risk_service"
  assumes "decide_open txt digest did kq now persist reserve cfg s = (r, s')"
  shows "same_budget (pruned (pp_account_id (kq_proposal kq)) now s) s'
    \<or> (\<exists>a new t. pp_account_id (kq_proposal kq) = Some a \<and> passes_in cfg kq now s \<and> rsv_positions new = 1
        \<and> same_budget (pruned (Some a) now s) t
        \<and> same_budget (t\<lparr>sv_reservations := (sv_reservations t)(a := sv_reservations t a @ [new])\<rparr>) s')"
proof -
  let ?p = "kq_proposal kq"
  let ?acct = "pp_account_id ?p"
  let ?s1 = "pruned ?acct now s"
  have le: "same_budget t (snd (bindR m k t))"
    if "\<And>s. same_budget s (snd (m s))" "\<And>x s. same_budget s (snd (k x s))" for m :: "('h, 'a) risk_step" and k :: "'a \<Rightarrow> ('h, 'b) risk_step" and t
    using that by (rule budget.kept_bind)
  note steps = budget.kept_pure budget.lock_steps budget.kept_when
  show ?thesis
  proof (cases "verdict_in cfg kq now s")
    case (Inl e)
    then show ?thesis using assms by (simp add: decide_open_def Let_def stepR_bind verdict_in_def same_budget_def)
  next
    case (Inr v)
    show ?thesis
    proof (cases "list_all passed (vd_checks v)")
      case True
      let ?d = "make_decision digest did kq O_approved now (map record_of (vd_checks v)) (rv_version cfg) DR_all_passed []
          (warnings_of (vd_checks v) (held_of ?acct now s)) (pp_volume ?p) True"
      let ?s2 = "?s1\<lparr>sv_recent := take 200 (?d # sv_recent ?s1)\<rparr>"
      have r: "(r, s') = bindR (whenR (reserve \<and> truthy ?acct \<and> pp_volume ?p \<noteq> None) (reserve_for ?d ?p now))
          (\<lambda>_. bindR (whenR persist (record_decision ?d)) (\<lambda>_. retR ?d)) ?s2"
        using assms True Inr by (simp add: decide_open_def Let_def stepR_bind verdict_in_def records_pass)
      have b2: "same_budget ?s1 ?s2" by (simp add: same_budget_def)
      have tl: "same_budget t (snd (bindR (whenR persist (record_decision ?d)) (\<lambda>_. retR ?d) t))" for t
        by (intro le steps)
      show ?thesis
      proof (cases "reserve \<and> truthy ?acct \<and> pp_volume ?p \<noteq> None")
        case False
        have "(r, s') = bindR (whenR persist (record_decision ?d)) (\<lambda>_. retR ?d) ?s2"
          using r unfolding whenR_def if_not_P [OF False] bindR_ret .
        from arg_cong [OF this, of snd] have "same_budget ?s2 s'" using tl [of ?s2] by simp
        with b2 show ?thesis using same_budget_trans by blast
      next
        case res: True
        then obtain a where a: "?acct = Some a" by (cases ?acct) auto
        let ?new = "\<lparr>rsv_decision_id = rd_id ?d, rsv_account = a, rsv_exposure = exposure_of ?p,
         rsv_risk_amount = (case pp_risk_amount ?p of Some x \<Rightarrow> x | None \<Rightarrow> 0), rsv_positions = 1, rsv_at = now,
         rsv_expires_at = (case rd_expires_at ?d of Some t \<Rightarrow> t | None \<Rightarrow> expiry now)\<rparr>"
        let ?s3 = "?s2\<lparr>sv_reservations := (sv_reservations ?s2)(a := sv_reservations ?s2 a @ [?new])\<rparr>"
        have w: "whenR (reserve \<and> truthy ?acct \<and> pp_volume ?p \<noteq> None) (reserve_for ?d ?p now)
            = updR (\<lambda>s. s\<lparr>sv_reservations := (sv_reservations s)(a := sv_reservations s a @ [?new])\<rparr>)"
          using res by (simp add: whenR_def reserve_for_def Let_def a)
        have "(r, s') = bindR (whenR persist (record_decision ?d)) (\<lambda>_. retR ?d) ?s3"
          using r unfolding w bindR_upd .
        from arg_cong [OF this, of snd] have "same_budget ?s3 s'" using tl [of ?s3] by simp
        moreover have "passes_in cfg kq now s" using Inr True by (simp add: passes_in_def)
        ultimately show ?thesis using a b2 by (intro disjI2 exI [of _ a] exI [of _ ?new] exI [of _ ?s2]) simp
      qed
    next
      case False
      have "same_budget ?s1 s'"
        using assms False Inr
        by (simp add: decide_open_def Let_def stepR_bind [of "getR _"] stepR_bind [of "live_reservations _ _"]
            stepR_bind [of "liftR _ _"] verdict_in_def records_pass)
          (erule run_snd, intro le steps)
      then show ?thesis by blast
    qed
  qed
qed

section \<open>The approvals share the limit\<close>

lemma passed_open_positions:
  assumes "passes_in cfg kq now s" "pp_account_id (kq_proposal kq) = Some a" "open_positions (kq_portfolio kq) = Some k"
    and "list_all (\<lambda>r. rsv_positions r = 1) (sv_reservations s a)"
    and "max_open_positions (limits_of (rv_limits cfg)) = Some mx"
  shows "k + int (length (held_of (Some a) now s)) < mx"
proof -
  let ?held = "held_of (Some a) now s"
  let ?li = "with_signal_age (limits_of (rv_limits cfg)) kq"
  let ?pf = "with_reservations (kq_portfolio kq) ?held"
  let ?v = "evaluate ?li (sv_switches s) (kq_recent kq) (kq_proposal kq) (Some ?pf) now"
  have v: "list_all passed (vd_checks ?v)"
    using assms(1,2) by (auto simp: passes_in_def verdict_in_def engine_verdict_def Let_def split: if_splits)
  have "engaged_for (sv_switches s) (pp_account_id (kq_proposal kq)) (pp_strategy_id (kq_proposal kq)) = None"
  proof (rule ccontr)
    assume "engaged_for (sv_switches s) (pp_account_id (kq_proposal kq)) (pp_strategy_id (kq_proposal kq)) \<noteq> None"
    then show False using v by (auto simp: evaluate_engaged chk_def)
  qed
  from v [unfolded evaluate_open(1) [OF this]]
  have ps: "\<forall>c \<in> set (chk_open_positions ?li (kq_proposal kq) ?pf now). passed c"
    by (auto simp: list_all_iff checks_def complete_checks_def stated_checks_def portfolio_of_def)
  have "sum_list (map rsv_positions rs) = int (length rs)" if "list_all (\<lambda>r. rsv_positions r = 1) rs" for rs
    using that by (induction rs) auto
  moreover have "list_all (\<lambda>r. rsv_positions r = 1) ?held" using assms(4) by (simp add: held_of_def list_all_iff)
  ultimately have "open_positions ?pf = Some (k + int (length ?held))"
    using assms(3) by (auto simp: with_reservations_def Let_def)
  moreover have "max_open_positions ?li = Some mx" using assms(5) by (simp add: with_signal_age_def)
  ultimately show ?thesis using ps by (simp add: chk_open_positions_def)
qed

text \<open>A run of evaluations, each with its clock and the identifiers it draws.\<close>

type_synonym evaluation = "risk_request \<times> time \<times> string \<times> string"

fun evaluations ::
    "(reason \<Rightarrow> string) \<Rightarrow> (string \<Rightarrow> 'h) \<Rightarrow> evaluation list \<Rightarrow> 'h risk_service \<Rightarrow> 'h risk_service" where
  "evaluations txt digest [] s = s"
| "evaluations txt digest ((kq, now, did, eid) # es) s =
     evaluations txt digest es (snd (evaluate_for_real txt digest did eid kq now s))"

definition budgeted :: "string \<Rightarrow> risk_rule \<Rightarrow> int \<Rightarrow> int \<Rightarrow> 'h risk_service \<Rightarrow> bool" where
  "budgeted a rule n m s \<longleftrightarrow> rule \<in> set (db_rules s) \<and> is_limits rule
     \<and> list_all (\<lambda>r. rsv_positions r = 1) (sv_reservations s a)
     \<and> n + int (length (sv_reservations s a)) \<le> max n m"

lemma budgeted_same: "same_budget s t \<Longrightarrow> budgeted a rule n m s \<Longrightarrow> budgeted a rule n m t"
proof -
  have f: "x \<in> set (filter P xs) \<longleftrightarrow> x \<in> set xs \<and> P x" for x :: risk_rule and P xs by simp
  assume "same_budget s t" "budgeted a rule n m s"
  then show "budgeted a rule n m t" using f [of rule is_limits] unfolding same_budget_def budgeted_def by metis
qed

lemma budgeted_pruned: "budgeted a rule n m s \<Longrightarrow> budgeted a rule n m (pruned acct now s)"
proof -
  have r: "db_rules (pruned acct now s) = db_rules s" by (simp add: pruned_def split: option.split)
  have le: "n + int (length (filter (rsv_live now) (sv_reservations s a))) \<le> n + int (length (sv_reservations s a))" by simp
  assume "budgeted a rule n m s"
  then show ?thesis by (auto simp: budgeted_def r held_of_def list_all_iff split: option.split intro: order_trans [OF le])
qed

text \<open>The rules that a request is measured by: the caps of the global rule among them.\<close>

lemma configured_cap:
  assumes "configuration acct strategy symb None s = (Inr cfg, s')"
    and "rl \<in> set (db_rules s)" "rl_enabled rl" "rl_scope rl = ''global''" "rl_body rl = Limits_rule ps"
    and "(''max_open_positions'', J_int m) \<in> set ps"
  shows "\<exists>mx. max_open_positions (limits_of (rv_limits cfg)) = Some mx \<and> mx \<le> m"
proof -
  let ?rows = "filter (applies acct strategy symb) (sort_key rl_priority (filter (\<lambda>r. rl_enabled r \<and> is_limits r) (db_rules s)))"
  have "resolve (map layer_of ?rows) = Inr cfg"
    using assms(1) by (auto simp: configuration_def bindR_Inr Let_def liftR_def raiseR_def split: sum.splits)
  moreover have "layer_of rl \<in> set (map layer_of ?rows)"
    using assms(2-5) by (auto simp: applies_def is_limits_def)
  ultimately show ?thesis by (rule resolved_cap) (simp add: layer_of_def assms(5,6))
qed

text \<open>A decision either ends before the limits are read, and then approves nothing, or the account is
  open and the limits decide.\<close>

lemma refreshed_state: "refreshed acct now s = (Inr st, s') \<Longrightarrow> sv_states s' (state_key ''paper_account'' acct) = Some st"
  by (auto simp: refreshed_def bindR_Inr put_state_def)

lemma decide_risk_run:
  assumes "decide_risk txt digest did kq now persist reserve s = (y, s')"
  defines "p \<equiv> kq_proposal kq"
  shows "same_budget s s' \<and> (\<forall>d. y = Inr d \<longrightarrow> \<not> rd_approved d)
    \<or> (\<exists>cfg st t u u'. same_budget s u \<and> same_budget s t
        \<and> configuration (pp_account_id p) (pp_strategy_id p) (Some (pp_symbol p)) None u = (Inr cfg, u')
        \<and> sv_states t (state_key ''paper_account'' (pp_account_id p)) = Some st \<and> lock_code st = None
        \<and> decide_open txt digest did kq now persist reserve cfg t = (y, s'))"
proof -
  let ?cf = "configuration (pp_account_id p) (pp_strategy_id p) (Some (pp_symbol p)) None"
  obtain y1 s1 where l: "load_once s = (y1, s1)" by force
  have b1: "same_budget s s1" using budget.lock_steps(5) [of s] l by simp
  obtain y2 s2 where c: "?cf s1 = (y2, s2)" by force
  have b2: "same_budget s s2" using same_budget_trans [OF b1] budget.lock_steps(6) [of s1] c by (metis snd_conv)
  obtain y3 s3 where r: "refreshed (pp_account_id p) now s2 = (y3, s3)" by force
  have b3: "same_budget s s3" using same_budget_trans [OF b2] budget.lock_steps(3) [of s2] r by (metis snd_conv)
  note run = assms(1) [unfolded decide_risk_def Let_def stepR_bind p_def [symmetric] l] c r
  show ?thesis
  proof (cases "\<exists>e. y1 = Inl e \<or> y2 = Inl e \<or> y3 = Inl e")
    case True
    then show ?thesis using run b1 b2 b3 by (auto split: sum.splits)
  next
    case False
    then obtain u cfg st where ok: "y1 = Inr u" "y2 = Inr cfg" "y3 = Inr st" by (metis sumE)
    show ?thesis
    proof (cases "lock_code st")
      case (Some code)
      then have "same_budget s3 s' \<and> (\<forall>d. y = Inr d \<longrightarrow> \<not> rd_approved d)"
        using run by (auto simp: ok same_budget_def rd_approved_def PERMITTING_def make_decision_def Let_def)
      then show ?thesis using same_budget_trans [OF b3] by blast
    next
      case None
      then have "decide_open txt digest did kq now persist reserve cfg s3 = (y, s')" using run by (simp add: ok)
      then show ?thesis using None b1 b3 c [unfolded ok] refreshed_state [OF r [unfolded ok]] by blast
    qed
  qed
qed

lemma evaluation_budgeted:
  assumes "budgeted a rl n m s" "rl_enabled rl" "rl_scope rl = ''global''" "rl_body rl = Limits_rule ps"
    and "(''max_open_positions'', J_int m) \<in> set ps"
    and "pp_account_id (kq_proposal kq) = Some a \<Longrightarrow> \<exists>k. open_positions (kq_portfolio kq) = Some k \<and> n \<le> k"
  shows "budgeted a rl n m (snd (evaluate_request txt digest did eid persist reserve kq now s))"
proof -
  let ?p = "kq_proposal kq"
  obtain y s' where d: "decide_risk txt digest did kq now persist reserve s = (y, s')" by force
  from decide_risk_run [OF d] have "budgeted a rl n m s'"
  proof (elim disjE exE conjE)
    assume "same_budget s s'"
    then show ?thesis using assms(1) by (rule budgeted_same)
  next
    fix cfg st t u u'
    assume u: "same_budget s u" "configuration (pp_account_id ?p) (pp_strategy_id ?p) (Some (pp_symbol ?p)) None u = (Inr cfg, u')"
      and t: "same_budget s t" "decide_open txt digest did kq now persist reserve cfg t = (y, s')"
    note bu = budgeted_same [OF u(1) assms(1)] and bt = budgeted_same [OF t(1) assms(1)]
    from decide_open_budget [OF t(2)] show ?thesis
    proof (elim disjE exE conjE)
      assume "same_budget (pruned (pp_account_id ?p) now t) s'"
      then show ?thesis using budgeted_pruned [OF bt] by (rule budgeted_same)
    next
      fix b new v
      assume b: "pp_account_id ?p = Some b" "passes_in cfg kq now t" "rsv_positions new = 1"
        and v: "same_budget (pruned (Some b) now t) v"
        and s': "same_budget (v\<lparr>sv_reservations := (sv_reservations v)(b := sv_reservations v b @ [new])\<rparr>) s'"
      have bv: "budgeted a rl n m v" using v budgeted_pruned [OF bt] by (rule budgeted_same)
      have "budgeted a rl n m (v\<lparr>sv_reservations := (sv_reservations v)(b := sv_reservations v b @ [new])\<rparr>)"
      proof (cases "b = a")
        case True
        obtain mx where mx: "max_open_positions (limits_of (rv_limits cfg)) = Some mx" "mx \<le> m"
          using configured_cap [OF u(2) _ assms(2-5)] bu by (auto simp: budgeted_def)
        obtain k where k: "open_positions (kq_portfolio kq) = Some k" "n \<le> k" using assms(6) b(1) True by auto
        have "sv_reservations v a = held_of (Some a) now t" using v True by (simp add: same_budget_def)
        moreover have "k + int (length (held_of (Some a) now t)) < mx"
          using passed_open_positions [OF b(2) _ k(1) _ mx(1)] b(1) bt True by (auto simp: budgeted_def)
        ultimately show ?thesis using bv b(3) mx(2) k(2) True by (auto simp: budgeted_def)
      next
        case False
        then show ?thesis using bv by (simp add: budgeted_def)
      qed
      then show ?thesis by (rule budgeted_same [OF s'])
    qed
  qed
  then show ?thesis using d by (simp add: evaluate_request_def split: sum.split)
qed

text \<open>C32: the approvals outstanding share the limit of open positions. While a global rule caps the open
  positions at \<open>m\<close>, no run of evaluations for an account of which at least \<open>n\<close> positions are reported
  open, whatever their order, clocks and faults, leaves more approvals outstanding than the cap has
  room for, although none of the approved orders is reported open yet.\<close>

theorem approvals_share_the_limit:
  assumes "rl \<in> set (db_rules s)" "rl_enabled rl" "rl_scope rl = ''global''" "rl_body rl = Limits_rule ps"
    and "(''max_open_positions'', J_int m) \<in> set ps" "sv_reservations s a = []"
    and "\<forall>(kq, _) \<in> set es. pp_account_id (kq_proposal kq) = Some a \<longrightarrow>
      (\<exists>k. open_positions (kq_portfolio kq) = Some k \<and> n \<le> k)"
  shows "n + int (length (sv_reservations (evaluations txt digest es s) a)) \<le> max n m"
proof -
  have "budgeted a rl n m s" using assms(1,4,6) by (simp add: budgeted_def is_limits_def)
  then have "budgeted a rl n m (evaluations txt digest es s)" using assms(7)
  proof (induction es arbitrary: s)
    case (Cons e es)
    obtain kq now did eid where e: "e = (kq, now, did, eid)" by (cases e)
    have "budgeted a rl n m (snd (evaluate_for_real txt digest did eid kq now s))"
      unfolding evaluate_for_real_def
      using Cons.prems by (intro evaluation_budgeted [OF _ assms(2-5)]) (auto simp: e)
    then show ?case using Cons.IH Cons.prems(2) by (simp add: e)
  qed simp
  then show ?thesis by (simp add: budgeted_def)
qed

definition fresh_service :: "risk_rule list \<Rightarrow> unit risk_service" where
  "fresh_service rules = \<lparr>sv_states = Map.empty, sv_switches = no_switches, sv_reservations = (\<lambda>_. []), sv_recent = [],
     sv_loaded = False, sv_boundary_hour = 0, db_rules = rules, db_events = [], db_faults = []\<rparr>"

definition one_position_rule :: risk_rule where
  "one_position_rule = \<lparr>rl_name = ''g'', rl_scope = ''global'', rl_scope_ref = None,
     rl_body = Limits_rule [(''max_open_positions'', J_int 1)], rl_priority = 1, rl_enabled = True\<rparr>"

definition demo_request :: risk_request where
  "demo_request = \<lparr>kq_proposal = demo_proposal\<lparr>pp_account_id := Some ''acc''\<rparr>,
     kq_portfolio = empty_portfolio\<lparr>open_positions := Some 0\<rparr>, kq_mode = ''paper'',
     kq_timeframe_seconds = None, kq_recent = [], kq_order_type = ''market''\<rparr>"

definition two_evaluations :: "evaluation list" where
  "two_evaluations = [(demo_request, 0, ''d1'', ''e1''), (demo_request, secs 1, ''d2'', ''e2'')]"

theorem approvals_share_the_limit_witness:
  "length (sv_reservations (evaluations (\<lambda>_. []) (\<lambda>_. ()) two_evaluations (fresh_service [one_position_rule])) ''acc'') = 1"
proof -
  have "0 + int (length (sv_reservations (evaluations (\<lambda>_. []) (\<lambda>_. ()) two_evaluations (fresh_service [one_position_rule])) ''acc''))
      \<le> max 0 1"
    by (rule approvals_share_the_limit [of one_position_rule _ "[(''max_open_positions'', J_int 1)]"])
      (simp_all add: fresh_service_def one_position_rule_def two_evaluations_def demo_request_def)
  moreover have "sv_reservations (evaluations (\<lambda>_. []) (\<lambda>_. ()) two_evaluations (fresh_service [one_position_rule])) ''acc'' \<noteq> []"
    by code_simp
  moreover from this obtain r rs where "sv_reservations (evaluations (\<lambda>_. []) (\<lambda>_. ()) two_evaluations (fresh_service [one_position_rule])) ''acc'' = r # rs"
    by (meson neq_Nil_conv)
  ultimately show ?thesis by simp
qed

section \<open>An approval is on record\<close>

lemma liftR_Inr: "liftR f r s = (Inr x, s') \<longleftrightarrow> r = Inr x \<and> s' = s"
  by (auto simp: liftR_def raiseR_def split: sum.splits)

lemma flush_Inr:
  assumes "flushR f s = (Inr x, s')"
  shows "\<exists>z. s' = f (s\<lparr>db_faults := z\<rparr>)"
proof -
  have "s' = f (s\<lparr>db_faults := db_faults s\<rparr>) \<or> s' = f (s\<lparr>db_faults := tl (db_faults s)\<rparr>)"
    using assms by (auto simp: flushR_def split: list.splits option.splits)
  then show ?thesis by blast
qed

lemma decide_open_approves:
  assumes "decide_open txt digest did kq now True reserve cfg s = (Inr d, s')" "rd_approved d"
  defines "p \<equiv> kq_proposal kq"
  shows "engaged_for (sv_switches s') (pp_account_id p) (pp_strategy_id p) = None \<and> sv_states s' = sv_states s
    \<and> last (db_events s') = (E_approve, d) \<and> db_events s' \<noteq> []
    \<and> (\<exists>li pf. rd_checks d = map record_of (checks (kq_recent kq) li p pf now)) \<and> list_all cr_passed (rd_checks d)
    \<and> rd_hash d = request_hash digest (request_fields kq) \<and> rd_expires_at d = Some (expiry now)
    \<and> rd_approved_quantity d = pp_volume p"
proof -
  let ?acct = "pp_account_id p"
  let ?s1 = "pruned ?acct now s"
  note run = assms(1) [unfolded decide_open_def Let_def p_def [symmetric] stepR_bind [of "getR _"]
      stepR_bind [of "live_reservations _ _"] stepR_bind [of "liftR _ _"], simplified]
  obtain v where v: "verdict_in cfg kq now s = Inr v"
    using run by (cases "verdict_in cfg kq now s") (auto simp: verdict_in_def p_def liftR_def raiseR_def)
  then have ev: "engine_verdict cfg (sv_switches s) kq (with_reservations (kq_portfolio kq) (held_of ?acct now s)) now = Inr v"
    by (simp add: verdict_in_def p_def)
  have all: "list_all passed (vd_checks v)"
  proof (rule ccontr)
    assume n: "\<not> list_all passed (vd_checks v)"
    then have "\<not> rd_approved d"
      using run ev by (auto simp: records_pass bindR_Inr outcome_for_def rd_approved_def PERMITTING_def make_decision_def Let_def split: if_splits)
    then show False using assms(2) by blast
  qed
  obtain li pf where vv: "v = evaluate li (sv_switches s) (kq_recent kq) p (Some pf) now"
    using ev by (auto simp: engine_verdict_def Let_def p_def split: if_splits)
  have en: "engaged_for (sv_switches s) ?acct (pp_strategy_id p) = None"
  proof (rule ccontr)
    assume "engaged_for (sv_switches s) ?acct (pp_strategy_id p) \<noteq> None"
    then show False using all by (auto simp: vv evaluate_engaged chk_def)
  qed
  have cs: "vd_checks v = checks (kq_recent kq) li p pf now"
    using evaluate_open(1) [OF en, of li "kq_recent kq" "Some pf" now] by (simp add: vv portfolio_of_def)
  let ?d = "make_decision digest did kq O_approved now (map record_of (vd_checks v)) (rv_version cfg) DR_all_passed []
     (warnings_of (vd_checks v) (held_of ?acct now s)) (pp_volume p) True"
  let ?w = "whenR (reserve \<and> truthy ?acct \<and> pp_volume p \<noteq> None) (reserve_for ?d p now)"
  have "bindR (note_decision ?d) (\<lambda>d. bindR (whenR (reserve \<and> truthy ?acct \<and> pp_volume p \<noteq> None) (reserve_for d p now))
      (\<lambda>_. bindR (whenR True (record_decision d)) (\<lambda>_. retR d))) ?s1 = (Inr d, s')"
    using run ev all by (simp add: records_pass)
  then obtain s2 s3 where s3: "?w s2 = (Inr (), s3)" "record_decision ?d s3 = (Inr (), s')" and d: "d = ?d"
    and s2: "sv_switches s2 = sv_switches s" "sv_states s2 = sv_states s"
    by (auto simp: bindR_Inr whenR_def [of True])
  have s2: "sv_switches s3 = sv_switches s" "sv_states s3 = sv_states s"
    using s3(1) s2 by (auto simp: whenR_def reserve_for_def Let_def split: if_splits)
  obtain z where z: "s' = s3\<lparr>db_faults := z, db_events := db_events s3 @ [(event_decision ?d, ?d)]\<rparr>"
    using flush_Inr [OF s3(2) [unfolded record_decision_def]] by auto
  have e: "event_decision d = E_approve" using assms(2) by (simp add: event_decision_def)
  show ?thesis
    using en all s2(1,2) e unfolding d z cs
    by (auto simp: make_decision_def Let_def p_def records_pass)
qed



section \<open>A lock outlives the process\<close>

definition state_row :: "string \<Rightarrow> risk_rule \<Rightarrow> bool" where
  "state_row key r \<longleftrightarrow> is_state r \<and> state_key (rl_scope r) (rl_scope_ref r) = key"

definition state_in :: "risk_rule \<Rightarrow> account_risk_state option" where
  "state_in r = fst (load_row r (Map.empty, no_switches)) (state_key (rl_scope r) (rl_scope_ref r))"

lemma load_row_state:
  "fst (load_row r acc) key = (if state_row key r then state_in r else fst acc key)"
  by (cases acc) (auto simp: load_row_def state_row_def state_in_def is_state_def Let_def split: rule_body.split)

lemma load_rows_state:
  "fst (foldl (\<lambda>acc r. load_row r acc) acc rs) key
     = (if filter (state_row key) rs = [] then fst acc key else state_in (last (filter (state_row key) rs)))"
  by (induction rs rule: rev_induct) (simp_all add: load_row_state)

lemma load_state:
  assumes "filter (state_row key) (filter rl_enabled (db_rules s)) = [r]"
  shows "sv_states (snd (load s)) key = state_in r"
  using load_rows_state [of "(sv_states s, no_switches)" "filter rl_enabled (db_rules s)" key]
  unfolding assms by (simp add: load_def updR_def case_prod_beta)

lemma upsert_single:
  assumes "\<And>r. r \<in> set rs \<Longrightarrow> Q r \<Longrightarrow> P r" "length (filter P rs) \<le> 1"
    and "\<And>r. P r \<Longrightarrow> Q (f r)" "Q new"
  shows "\<exists>r. filter Q (upsert P f new rs) = [r] \<and> (r = new \<or> (\<exists>x \<in> set rs. P x \<and> r = f x))"
  using assms(1,2)
proof (induction rs)
  case (Cons x rs)
  show ?case
  proof (cases "P x")
    case True
    then have "filter P rs = []" using Cons.prems(2) by simp
    then have "filter Q rs = []" using Cons.prems(1) by (auto simp: filter_empty_conv)
    then show ?thesis using True assms(3) by auto
  next
    case False
    then have "\<not> Q x" using Cons.prems(1) by auto
    then show ?thesis using False Cons by auto
  qed
qed (simp add: assms(4))


text \<open>C33: a lock outlives the process. Once \<open>lock\<close> has returned, a new process on the same tables loads the
  account in the state that was returned, with its reason, its time, its author and its trading day; only
  the history is gone. It takes that the table has at most one state row of the account, which is what
  the service keeps.\<close>

theorem lock_survives_restart:
  assumes "lock_account acct k why t who s = (Inr st, s')"
    and "length (filter (state_row (state_key ''paper_account'' acct)) (db_rules s)) \<le> 1"
    and "\<forall>r \<in> set (db_rules s). state_row (state_key ''paper_account'' acct) r \<longrightarrow> rl_scope r = ''paper_account'' \<and> rl_scope_ref r = acct"
    and "\<forall>st0. sv_states s (state_key ''paper_account'' acct) = Some st0 \<longrightarrow> rs_scope st0 = ''paper_account'' \<and> rs_scope_ref st0 = acct"
  shows "sv_states (snd (load (restarted s'))) (state_key ''paper_account'' acct) = Some (st\<lparr>rs_history := []\<rparr>)"
proof -
  let ?key = "state_key ''paper_account'' acct"
  obtain st0 s1 day s2 where st0: "state_for acct s = (Inr st0, s1)"
    and lk: "lock k why t (Some who) (Some day) st0 = Inr st"
    and ps: "persist_state st s2 = (Inr (), s')" and rl: "db_rules s2 = db_rules s1"
    using assms(1) by (auto simp: lock_account_def bindR_Inr put_state_def liftR_Inr)
  have "rs_scope st0 = ''paper_account'' \<and> rs_scope_ref st0 = acct \<and> db_rules s1 = db_rules s"
    using st0 assms(4) by (auto simp: state_for_def bindR_Inr put_state_def fresh_state_def Let_def split: option.splits)
  then have sc: "rs_scope st = ''paper_account''" "rs_scope_ref st = acct" and r1: "db_rules s1 = db_rules s"
    using lk by (auto simp: lock_def split: if_splits)
  let ?P = "\<lambda>r. rl_scope r = rs_scope st \<and> rl_scope_ref r = rs_scope_ref st \<and> is_state r"
  let ?f = "\<lambda>r. r\<lparr>rl_body := state_body st, rl_enabled := True\<rparr>"
  let ?new = "\<lparr>rl_name = ''risk state '' @ state_key (rs_scope st) (rs_scope_ref st), rl_scope = rs_scope st,
      rl_scope_ref = rs_scope_ref st, rl_body = state_body st, rl_priority = 0, rl_enabled = True\<rparr>"
  have r': "db_rules s' = upsert ?P ?f ?new (db_rules s)"
    using flush_Inr [OF ps [unfolded persist_state_def]] by (auto simp: rl r1)
  have "\<exists>r. filter (state_row ?key) (db_rules s') = [r] \<and> (r = ?new \<or> (\<exists>x \<in> set (db_rules s). ?P x \<and> r = ?f x))"
    unfolding r'
  proof (rule upsert_single)
    show "?P r" if "r \<in> set (db_rules s)" "state_row ?key r" for r
      using that assms(3) unfolding sc state_row_def by blast
    have "?P r = state_row ?key r" if "r \<in> set (db_rules s)" for r
      using that assms(3) unfolding sc state_row_def by metis
    then have "filter ?P (db_rules s) = filter (state_row ?key) (db_rules s)" by (intro filter_cong refl)
    then show "length (filter ?P (db_rules s)) \<le> 1" using assms(2) by simp
  qed (auto simp: sc state_row_def is_state_def state_body_def)
  then obtain r where r: "filter (state_row ?key) (db_rules s') = [r]"
    "rl_scope r = rs_scope st" "rl_scope_ref r = rs_scope_ref st" "rl_body r = state_body st" "rl_enabled r"
    by auto
  have "filter (state_row ?key) (filter rl_enabled (db_rules (restarted s'))) = [r]"
  proof -
    have sw: "filter A (filter B xs) = filter B (filter A xs)" for A B and xs :: "risk_rule list" by (induction xs) auto
    have "db_rules (restarted s') = db_rules s'" by (simp add: restarted_def)
    then show ?thesis unfolding sw [of _ rl_enabled] r(1) by (simp add: r(1,5))
  qed
  from load_state [OF this] show ?thesis
    using r(2-4) by (simp add: state_in_def load_row_def state_body_def sc)
qed

theorem lock_survives_restart_witness:
  "\<exists>st s'. lock_account (Some ''acc'') Drawdown_locked ''limit'' 0 ''ops'' (fresh_service []) = (Inr st, s')
    \<and> rs_state st = Drawdown_locked
    \<and> sv_states (snd (load (restarted s'))) (state_key ''paper_account'' (Some ''acc'')) = Some (st\<lparr>rs_history := []\<rparr>)"
proof -
  have "case fst (lock_account (Some ''acc'') Drawdown_locked ''limit'' 0 ''ops'' (fresh_service []) ) of
      Inr st \<Rightarrow> rs_state st = Drawdown_locked | Inl _ \<Rightarrow> False" by code_simp
  then obtain st s' where l: "lock_account (Some ''acc'') Drawdown_locked ''limit'' 0 ''ops'' (fresh_service []) = (Inr st, s')"
    and d: "rs_state st = Drawdown_locked"
    by (cases "lock_account (Some ''acc'') Drawdown_locked ''limit'' 0 ''ops'' (fresh_service [])") (auto split: sum.splits)
  have "sv_states (snd (load (restarted s'))) (state_key ''paper_account'' (Some ''acc'')) = Some (st\<lparr>rs_history := []\<rparr>)"
    by (rule lock_survives_restart [OF l]) (simp_all add: fresh_service_def)
  with l d show ?thesis by blast
qed

end
