(* ===== verification/Paper_Portfolio.thy ===== *)
theory Paper_Portfolio
  imports Precision "HOL-Library.AList"
begin

text \<open>
  The paper account, \<open>backend/app/paper/portfolio.py\<close>: its lifecycle, the accounting of fills, and the
  figures that are marked to a price. The positions are a dictionary in the order of insertion, an
  association list. \<open>equity\<close> moves the running peak, so it returns the portfolio too. The dictionaries
  that only render (\<open>as_dict\<close>, \<open>snapshot\<close>) are left out.
\<close>

section \<open>The lifecycle\<close>

datatype account_state = Ac_created | Ac_active | Ac_paused | Ac_disabled | Ac_closed

fun account_moves :: "account_state \<Rightarrow> account_state list" where \<comment> \<open>\<open>TRANSITIONS\<close>\<close>
  "account_moves Ac_created = [Ac_active, Ac_disabled]"
| "account_moves Ac_active = [Ac_paused, Ac_disabled, Ac_closed]"
| "account_moves Ac_paused = [Ac_active, Ac_disabled, Ac_closed]"
| "account_moves Ac_disabled = [Ac_closed]"
| "account_moves Ac_closed = []"

definition TRADEABLE :: "account_state list" where "TRADEABLE = [Ac_active]"

datatype account_exc = Illegal_account_transition account_state account_state | Account_not_tradeable account_state

definition check_account_move :: "account_state \<Rightarrow> account_state \<Rightarrow> account_exc + unit" where
  "check_account_move current wanted =
     assertE (wanted \<in> set (account_moves current)) (Illegal_account_transition current wanted)"

definition check_tradeable :: "account_state \<Rightarrow> account_exc + unit" where
  "check_tradeable st = assertE (st \<in> set TRADEABLE) (Account_not_tradeable st)"

section \<open>Positions and trades\<close>

record paper_position =
  pp_pos_symbol :: string
  pp_pos_side :: string
  pp_quantity :: rat
  pp_average_entry :: rat
  pp_opened_at :: time
  pp_updated_at :: time
  pp_value_per_unit :: rat
  pp_pos_stop :: "rat option"
  pp_pos_target :: "rat option"
  pp_trailing :: "rat option"
  pp_realized :: rat
  pp_pos_strategy :: "string option"

definition pos_direction :: "paper_position \<Rightarrow> rat" where
  "pos_direction p = (if pp_pos_side p = ''long'' then 1 else - 1)"

definition pos_unrealized :: "paper_position \<Rightarrow> rat \<Rightarrow> rat" where
  "pos_unrealized p price =
     dmul (dmul (dmul (dsub price (pp_average_entry p)) (pos_direction p)) (pp_quantity p)) (pp_value_per_unit p)"

record closed_trade =
  ct_symbol :: string
  ct_side :: string
  ct_quantity :: rat
  ct_entry :: rat
  ct_exit :: rat
  ct_opened_at :: time
  ct_closed_at :: time
  ct_gross :: rat
  ct_commission :: rat
  ct_net :: rat
  ct_reason :: string
  ct_strategy :: "string option"

record paper_portfolio =
  pb_account :: string
  pb_currency :: string
  pb_starting :: rat
  pb_balance :: rat
  pb_peak :: rat
  pb_positions :: "(string \<times> paper_position) list"
  pb_trades :: "closed_trade list"
  pb_commission :: rat
  pb_state :: account_state

text \<open>The constructor with \<open>__post_init__\<close>: a balance or a peak of zero becomes the starting balance.\<close>

definition make_portfolio :: "string \<Rightarrow> string \<Rightarrow> rat \<Rightarrow> rat \<Rightarrow> rat \<Rightarrow> account_state \<Rightarrow> paper_portfolio" where
  "make_portfolio account currency starting balance peak st =
     \<lparr>pb_account = account, pb_currency = currency, pb_starting = starting,
      pb_balance = (if balance = 0 then starting else balance), pb_peak = (if peak = 0 then starting else peak),
      pb_positions = [], pb_trades = [], pb_commission = 0, pb_state = st\<rparr>"

section \<open>Fills\<close>

record paper_fill =
  pl_symbol :: string
  pl_side :: string
  pl_quantity :: rat
  pl_price :: rat
  pl_commission :: rat
  pl_at :: time
  pl_value :: rat
  pl_reason :: string
  pl_strategy :: "string option"

definition opened_by :: "paper_fill \<Rightarrow> string \<Rightarrow> rat \<Rightarrow> paper_position" where
  "opened_by f side quantity = \<lparr>pp_pos_symbol = pl_symbol f, pp_pos_side = side, pp_quantity = quantity,
     pp_average_entry = pl_price f, pp_opened_at = pl_at f, pp_updated_at = pl_at f, pp_value_per_unit = pl_value f,
     pp_pos_stop = None, pp_pos_target = None, pp_trailing = None, pp_realized = 0, pp_pos_strategy = pl_strategy f\<rparr>"

definition wanted_side :: "paper_fill \<Rightarrow> string" where
  "wanted_side f = (if pl_side f = ''buy'' then ''long'' else ''short'')"

definition put_position :: "string \<Rightarrow> paper_position \<Rightarrow> paper_portfolio \<Rightarrow> paper_portfolio" where
  "put_position s p pb = pb\<lparr>pb_positions := AList.update s p (pb_positions pb)\<rparr>"

definition drop_position :: "string \<Rightarrow> paper_portfolio \<Rightarrow> paper_portfolio" where
  "drop_position s pb = pb\<lparr>pb_positions := AList.delete s (pb_positions pb)\<rparr>"

definition pay_commission :: "rat \<Rightarrow> paper_portfolio \<Rightarrow> paper_portfolio" where
  "pay_commission c pb = pb\<lparr>pb_balance := dsub (pb_balance pb) c, pb_commission := dadd (pb_commission pb) c\<rparr>"

definition added_to :: "paper_position \<Rightarrow> paper_fill \<Rightarrow> paper_position" where
  "added_to p f = (let total = dadd (pp_quantity p) (pl_quantity f) in
     p\<lparr>pp_average_entry := ddiv (dadd (dmul (pp_average_entry p) (pp_quantity p)) (dmul (pl_price f) (pl_quantity f))) total,
       pp_quantity := total, pp_updated_at := pl_at f\<rparr>)"

definition trade_of :: "paper_position \<Rightarrow> rat \<Rightarrow> paper_fill \<Rightarrow> closed_trade" where
  "trade_of p quantity f =
     (let gross = dmul (dmul (dmul (dsub (pl_price f) (pp_average_entry p)) (pos_direction p)) quantity) (pp_value_per_unit p)
      in \<lparr>ct_symbol = pp_pos_symbol p, ct_side = pp_pos_side p, ct_quantity = quantity, ct_entry = pp_average_entry p,
        ct_exit = pl_price f, ct_opened_at = pp_opened_at p, ct_closed_at = pl_at f, ct_gross = gross,
        ct_commission = pl_commission f, ct_net = dsub gross (pl_commission f), ct_reason = pl_reason f,
        ct_strategy = pp_pos_strategy p\<rparr>)"

definition realise :: "paper_position \<Rightarrow> rat \<Rightarrow> paper_fill \<Rightarrow> paper_portfolio \<Rightarrow> closed_trade \<times> paper_portfolio" where
  "realise p quantity f pb = (let t = trade_of p quantity f in
     (t, pb\<lparr>pb_balance := dadd (pb_balance pb) (ct_gross t), pb_trades := pb_trades pb @ [t]\<rparr>))"

text \<open>What is left of a position of which \<open>closing\<close> was closed: the object stays in the dictionary.\<close>

definition reduced :: "paper_position \<Rightarrow> rat \<Rightarrow> closed_trade \<Rightarrow> paper_fill \<Rightarrow> paper_position" where
  "reduced p closing t f = p\<lparr>pp_realized := dadd (pp_realized p) (ct_gross t),
     pp_quantity := dsub (pp_quantity p) closing, pp_updated_at := pl_at f\<rparr>"

datatype position_exc = Quantity_not_positive rat

definition apply_fill :: "paper_fill \<Rightarrow> paper_portfolio \<Rightarrow> position_exc + (closed_trade list \<times> paper_portfolio)" where
  "apply_fill f pb0 =
     (if pl_quantity f \<le> 0 then Inl (Quantity_not_positive (pl_quantity f)) else
      let pb = pay_commission (pl_commission f) pb0; s = pl_symbol f; wanted = wanted_side f in
      case map_of (pb_positions pb) s of
        None \<Rightarrow> Inr ([], put_position s (opened_by f wanted (pl_quantity f)) pb)
      | Some p \<Rightarrow>
          if pp_pos_side p = wanted then Inr ([], put_position s (added_to p f) pb)
          else let closing = min (pp_quantity p) (pl_quantity f);
                   (t, pb) = realise p closing f pb;
                   remainder = dsub (pl_quantity f) closing;
                   left = reduced p closing t f;
                   pb = (if pp_quantity left \<le> 0 then drop_position s pb else put_position s left pb);
                   pb = (if 0 < remainder then put_position s (opened_by f wanted remainder) pb else pb)
               in Inr ([t], pb))"

section \<open>Marking\<close>

type_synonym prices = "string \<rightharpoonup> rat"

definition book_unrealized :: "prices \<Rightarrow> paper_portfolio \<Rightarrow> rat" where
  "book_unrealized prices pb = foldl (\<lambda>total (s, p). case prices s of None \<Rightarrow> total
     | Some x \<Rightarrow> dadd total (pos_unrealized p x)) 0 (pb_positions pb)"

definition book_equity :: "prices \<Rightarrow> paper_portfolio \<Rightarrow> rat \<times> paper_portfolio" where
  "book_equity prices pb = (let v = dadd (pb_balance pb) (book_unrealized prices pb) in
     (v, pb\<lparr>pb_peak := max (pb_peak pb) v\<rparr>))"

definition book_exposure :: "prices \<Rightarrow> paper_portfolio \<Rightarrow> rat" where
  "book_exposure prices pb = foldl (\<lambda>total (s, p).
     let price = (case prices s of None \<Rightarrow> pp_average_entry p | Some x \<Rightarrow> x) in
     dadd total (dabs (dmul (dmul price (pp_quantity p)) (pp_value_per_unit p)))) 0 (pb_positions pb)"

definition book_realized :: "paper_portfolio \<Rightarrow> rat" where
  "book_realized pb = dsub (pb_balance pb) (pb_starting pb)"

definition book_drawdown :: "prices \<Rightarrow> paper_portfolio \<Rightarrow> (rat \<times> rat) \<times> paper_portfolio" where
  "book_drawdown prices pb0 = (let (v, pb) = book_equity prices pb0;
       fall = max 0 (dsub (pb_peak pb) v)
     in ((fall, if 0 < pb_peak pb then dmul (ddiv fall (pb_peak pb)) 100 else 0), pb))"

definition realised_since :: "time \<Rightarrow> paper_portfolio \<Rightarrow> rat" where
  "realised_since start pb = dsum (map ct_net (filter (\<lambda>t. start \<le> ct_closed_at t) (pb_trades pb)))"

definition trades_since :: "time \<Rightarrow> paper_portfolio \<Rightarrow> int" where
  "trades_since start pb = int (length (filter (\<lambda>t. start \<le> ct_closed_at t) (pb_trades pb)))"

section \<open>The books stay sound\<close>

text \<open>Each position stands once, under its own symbol, on a side of its own, with a positive size.\<close>

definition position_ok :: "string \<times> paper_position \<Rightarrow> bool" where
  "position_ok sp = (case sp of (s, p) \<Rightarrow> pp_pos_symbol p = s \<and> 0 < pp_quantity p \<and> pp_pos_side p \<in> {''long'', ''short''})"

definition book_ok :: "paper_portfolio \<Rightarrow> bool" where
  "book_ok pb \<longleftrightarrow> distinct (map fst (pb_positions pb)) \<and> list_all position_ok (pb_positions pb)"

lemma wanted_cases [simp]: "wanted_side f = ''long'' \<or> wanted_side f = ''short''"
  by (simp add: wanted_side_def)

lemma book_ok_map_of: "book_ok pb \<Longrightarrow> map_of (pb_positions pb) s = Some p \<Longrightarrow> position_ok (s, p)"
  by (auto simp: book_ok_def list_all_iff dest!: map_of_SomeD)

lemma set_update: "set (AList.update k v xs) \<subseteq> insert (k, v) (set xs)"
  by (induction xs) auto

lemma book_ok_put: "book_ok pb \<Longrightarrow> position_ok (s, p) \<Longrightarrow> book_ok (put_position s p pb)"
  using set_update [of s p "pb_positions pb"] by (auto simp: book_ok_def put_position_def list_all_iff distinct_update)

lemma book_ok_drop: "book_ok pb \<Longrightarrow> book_ok (drop_position s pb)"
  by (auto simp: book_ok_def drop_position_def list_all_iff distinct_delete) (auto simp: AList.delete_eq)

lemma book_ok_fields [simp]:
  "book_ok (pay_commission c pb) = book_ok pb" "book_ok (pb\<lparr>pb_peak := x\<rparr>) = book_ok pb"
  "book_ok (snd (realise p q f pb)) = book_ok pb"
  by (simp_all add: book_ok_def pay_commission_def realise_def Let_def)


definition after_fill :: "paper_portfolio \<Rightarrow> paper_fill \<Rightarrow> paper_portfolio" where \<comment> \<open>a refused fill raises\<close>
  "after_fill pb f = (case apply_fill f pb of Inl _ \<Rightarrow> pb | Inr (_, pb') \<Rightarrow> pb')"

lemma apply_fill_ok:
  assumes "book_ok pb" "apply_fill f pb = Inr (ts, pb')"
  shows "book_ok pb'"
proof -
  let ?pb = "pay_commission (pl_commission f) pb"
  have q: "0 < pl_quantity f" and ok: "book_ok ?pb" using assms by (auto simp: apply_fill_def split: if_splits)
  have new: "position_ok (pl_symbol f, opened_by f (wanted_side f) n)" if "0 < n" for n
    using that by (simp add: position_ok_def opened_by_def wanted_side_def)
  show ?thesis
  proof (cases "map_of (pb_positions ?pb) (pl_symbol f)")
    case None
    then show ?thesis using assms(2) q book_ok_put [OF ok new [OF q]] by (simp add: apply_fill_def Let_def)
  next
    case (Some p)
    note p = book_ok_map_of [OF ok Some]
    show ?thesis
    proof (cases "pp_pos_side p = wanted_side f")
      case True
      have "0 < dadd (pp_quantity p) (pl_quantity f)" using p q by (simp add: position_ok_def dadd_def rnd_pos)
      then have "position_ok (pl_symbol f, added_to p f)" using p by (simp add: position_ok_def added_to_def Let_def)
      then have "book_ok (put_position (pl_symbol f) (added_to p f) ?pb)" by (rule book_ok_put [OF ok])
      then show ?thesis using assms(2) q Some True by (simp add: apply_fill_def Let_def)
    next
      case False
      let ?c = "min (pp_quantity p) (pl_quantity f)"
      obtain t pb1 where r: "realise p ?c f ?pb = (t, pb1)" by force
      then have ok1: "book_ok pb1" using ok book_ok_fields(3) by (metis snd_conv)
      let ?left = "reduced p ?c t f"
      let ?pb2 = "if pp_quantity ?left \<le> 0 then drop_position (pl_symbol f) pb1 else put_position (pl_symbol f) ?left pb1"
      have "book_ok ?pb2"
        using ok1 p book_ok_drop book_ok_put [OF ok1, of "pl_symbol f" ?left]
        by (auto simp: position_ok_def reduced_def)
      then have "book_ok (if 0 < dsub (pl_quantity f) ?c
          then put_position (pl_symbol f) (opened_by f (wanted_side f) (dsub (pl_quantity f) ?c)) ?pb2 else ?pb2)"
        using book_ok_put new by simp
      then show ?thesis using assms(2) q Some False r by (simp add: apply_fill_def Let_def)
    qed
  qed
qed

lemma after_fill_ok: "book_ok pb \<Longrightarrow> book_ok (after_fill pb f)"
  by (auto simp: after_fill_def split: sum.split dest: apply_fill_ok)

text \<open>C37: the paper book stays sound. Whatever fills are applied, in whatever order, sizes and at whatever
  prices, each symbol has at most one position, on one side, of positive size.\<close>

theorem paper_book_stays_sound:
  "book_ok (foldl after_fill (make_portfolio account currency starting balance peak st) fs)"
  (is "book_ok (foldl _ ?pb fs)")
proof -
  have "book_ok ?pb" by (simp add: book_ok_def make_portfolio_def)
  then show ?thesis
  proof (induction fs rule: rev_induct)
    case (snoc f fs)
    then show ?case using after_fill_ok by simp
  qed simp
qed

section \<open>A reversal\<close>

lemma put_drop: "map_of (AList.delete s xs) s = None"
  by (simp add: delete_conv)

lemma commission_free: "pb_balance pb = rnd x \<Longrightarrow> pb_commission pb = rnd y \<Longrightarrow> pay_commission 0 pb = pb"
  by (simp add: pay_commission_def dsub_def dadd_def dec.idem)

text \<open>C38: a reversal is a close and an opening. A fill on the other side that is larger than the position
  leaves the account in exactly the state, money and trades included, that closing the position in
  full at that price and then opening the surplus, free of commission, leaves it in.\<close>

theorem reversal_closes_and_opens:
  assumes "book_ok pb" "map_of (pb_positions pb) (pl_symbol f) = Some p" "pp_pos_side p \<noteq> wanted_side f"
    and "pp_quantity p < pl_quantity f"
  shows "\<exists>t pb1. apply_fill (f\<lparr>pl_quantity := pp_quantity p\<rparr>) pb = Inr ([t], pb1)
    \<and> map_of (pb_positions pb1) (pl_symbol f) = None \<and> ct_quantity t = pp_quantity p
    \<and> apply_fill (f\<lparr>pl_quantity := dsub (pl_quantity f) (pp_quantity p), pl_commission := 0\<rparr>) pb1
        = map_sum id (\<lambda>(_, pb'). ([], pb')) (apply_fill f pb)
    \<and> map_sum id fst (apply_fill f pb) = Inr [t]"
proof -
  let ?pb = "pay_commission (pl_commission f) pb"
  let ?q = "pp_quantity p" and ?s = "pl_symbol f"
  have rest: "0 < dsub (pl_quantity f) ?q" using assms(4) by (simp add: dsub_def rnd_pos)
  have q: "0 < ?q" using book_ok_map_of [OF assms(1,2)] by (simp add: position_ok_def)
  have m: "map_of (pb_positions ?pb) ?s = Some p" using assms(2) by (simp add: pay_commission_def)
  obtain t pb1 where r: "realise p ?q f ?pb = (t, pb1)" by force
  have r': "realise p ?q (f\<lparr>pl_quantity := n\<rparr>) ?pb = (t, pb1)" for n
    using r by (simp add: realise_def trade_of_def)
  have w: "wanted_side (f\<lparr>pl_quantity := n\<rparr>) = wanted_side f" "wanted_side (f\<lparr>pl_quantity := n, pl_commission := c\<rparr>) = wanted_side f" for n c
    by (simp_all add: wanted_side_def)
  have left: "pp_quantity (reduced p ?q t f') = 0" for f' by (simp add: reduced_def dsub_def)
  let ?pb2 = "drop_position ?s pb1"
  have close: "apply_fill (f\<lparr>pl_quantity := ?q\<rparr>) pb = Inr ([t], ?pb2)"
    using q m assms(3) by (simp add: apply_fill_def Let_def w r' left dsub_def)
  have full: "apply_fill f pb = Inr ([t], put_position ?s (opened_by f (wanted_side f) (dsub (pl_quantity f) ?q)) ?pb2)"
    using q m assms(3,4) rest by (simp add: apply_fill_def Let_def r left min_absorb1)
  have money: "\<exists>x y. pb_balance ?pb2 = rnd x \<and> pb_commission ?pb2 = rnd y" using r
    by (auto simp: drop_position_def realise_def Let_def dadd_def pay_commission_def)
  have none: "map_of (pb_positions ?pb2) ?s = None" by (simp add: drop_position_def put_drop)
  have o: "opened_by (f\<lparr>pl_quantity := n, pl_commission := c\<rparr>) = opened_by f" for n c by (simp add: opened_by_def fun_eq_iff)
  have "pay_commission 0 ?pb2 = ?pb2" using money commission_free by blast
  then have "apply_fill (f\<lparr>pl_quantity := dsub (pl_quantity f) ?q, pl_commission := 0\<rparr>) ?pb2
      = Inr ([], put_position ?s (opened_by f (wanted_side f) (dsub (pl_quantity f) ?q)) ?pb2)"
    using none rest by (simp add: apply_fill_def Let_def w o)
  moreover have "ct_quantity t = ?q" using r by (auto simp: realise_def trade_of_def Let_def)
  ultimately show ?thesis using close full none by auto
qed

definition demo_account :: paper_portfolio where
  "demo_account = make_portfolio ''acc'' ''USD'' 10000 0 0 Ac_active"

definition demo_paper_fill :: "string \<Rightarrow> rat \<Rightarrow> rat \<Rightarrow> paper_fill" where
  "demo_paper_fill side quantity price = \<lparr>pl_symbol = ''EURUSD'', pl_side = side, pl_quantity = quantity, pl_price = price,
     pl_commission = 2, pl_at = 0, pl_value = 1, pl_reason = ''signal'', pl_strategy = None\<rparr>"

theorem reversal_closes_and_opens_witness:
  "\<exists>t pb1. apply_fill (demo_paper_fill ''sell'' 1 110) (after_fill demo_account (demo_paper_fill ''buy'' 1 100)) = Inr ([t], pb1)
    \<and> map_of (pb_positions pb1) ''EURUSD'' = None"
proof -
  let ?b = "demo_paper_fill ''buy'' 1 100"
  let ?pb = "after_fill demo_account ?b"
  let ?f = "demo_paper_fill ''sell'' 3 110"
  let ?p = "opened_by ?b ''long'' 1"
  have "book_ok ?pb" by code_simp
  moreover have "map_of (pb_positions ?pb) (pl_symbol ?f) = Some ?p" by code_simp
  moreover have "pp_pos_side ?p \<noteq> wanted_side ?f" "pp_quantity ?p < pl_quantity ?f" by code_simp+
  ultimately obtain t pb1 where "apply_fill (?f\<lparr>pl_quantity := pp_quantity ?p\<rparr>) ?pb = Inr ([t], pb1)"
    "map_of (pb_positions pb1) (pl_symbol ?f) = None"
    using reversal_closes_and_opens [of ?pb ?f ?p] by blast
  then show ?thesis by (auto simp: demo_paper_fill_def opened_by_def)
qed

section \<open>What the day's figure leaves out\<close>

text \<open>A fill that opens or adds takes its commission from the balance but makes no trade, so the day's
  result, which the limit on the daily loss is compared with, never sees it.\<close>

theorem opening_cost_not_in_the_day:
  assumes "0 < pl_quantity f" "\<forall>p. map_of (pb_positions pb) (pl_symbol f) = Some p \<longrightarrow> pp_pos_side p = wanted_side f"
  shows "\<exists>pb'. apply_fill f pb = Inr ([], pb') \<and> realised_since start pb' = realised_since start pb
    \<and> pb_balance pb' = dsub (pb_balance pb) (pl_commission f)"
  using assms
  by (cases "map_of (pb_positions pb) (pl_symbol f)")
    (auto simp: apply_fill_def Let_def pay_commission_def put_position_def realised_since_def)

theorem round_trip_cost_is_halved:
  "let pb = after_fill (after_fill demo_account (demo_paper_fill ''buy'' 1 100)) (demo_paper_fill ''sell'' 1 100)
   in book_realized pb = - 4 \<and> realised_since 0 pb = - 2"
  by code_simp

end
