(* ===== verification/Paper_Venue.thy ===== *)
theory Paper_Venue
  imports Paper_Portfolio Risk_Engine Order_State
begin

text \<open>
  The paper venue: the router of the modes (\<open>backend/app/paper/router.py\<close>), the simulated execution
  (\<open>paper/execution.py\<close>) and the order manager of the paper accounts (\<open>paper/oms.py\<close>). An order is an
  object that the two dictionaries of the manager share: a place of a heap. The description of the
  assumptions on a fill and the rendering of an order are left out.
\<close>

section \<open>The router\<close>

datatype execution_mode = X_backtest | X_replay | X_paper | X_live

datatype execution_provider = Batch_simulation | Replay_simulation | Paper_execution_only | Live_broker_adapter

fun mode_text :: "execution_mode \<Rightarrow> string" where
  "mode_text X_backtest = ''backtest''"
| "mode_text X_replay = ''replay''"
| "mode_text X_paper = ''paper''"
| "mode_text X_live = ''live''"

fun PROVIDER_FOR_MODE :: "execution_mode \<Rightarrow> execution_provider" where
  "PROVIDER_FOR_MODE X_backtest = Batch_simulation"
| "PROVIDER_FOR_MODE X_replay = Replay_simulation"
| "PROVIDER_FOR_MODE X_paper = Paper_execution_only"
| "PROVIDER_FOR_MODE X_live = Live_broker_adapter"

datatype paper_exc =
    Bad_mode string | Route_refused string execution_provider
  | No_price | Bad_fill_side string | Bad_fill_quantity rat | Inverted_book rat rat | Bad_price precision_error

definition mode_of :: "string \<Rightarrow> paper_exc + execution_mode" where \<comment> \<open>\<open>ExecutionMode(mode)\<close>\<close>
  "mode_of s = (case find (\<lambda>m. mode_text m = s) [X_backtest, X_replay, X_paper, X_live] of
     Some m \<Rightarrow> Inr m | None \<Rightarrow> Inl (Bad_mode s))"

definition assert_paper_execution :: "string \<Rightarrow> paper_exc + execution_provider" where
  "assert_paper_execution mode = bindE (mode_of mode) (\<lambda>m. let p = PROVIDER_FOR_MODE m in
     if p \<noteq> Paper_execution_only then Inl (Route_refused mode p) else Inr p)"

section \<open>Execution\<close>

record cost_model =
  cm_spread :: rat
  cm_commission :: rat
  cm_slippage :: rat
  cm_swap_long :: "rat option"
  cm_swap_short :: "rat option"

record quote =
  qt_at :: time
  qt_bid :: "rat option"
  qt_ask :: "rat option"
  qt_last :: "rat option"

definition qt_mid :: "quote \<Rightarrow> rat option" where
  "qt_mid q = (case (qt_bid q, qt_ask q) of (Some b, Some a) \<Rightarrow> Some (ddiv (dadd b a) 2) | _ \<Rightarrow> None)"

record reference =
  rf_at :: time
  rf_bid :: "rat option"
  rf_ask :: "rat option"
  rf_last :: "rat option"
  rf_source :: string
  rf_measured :: bool

definition from_quote :: "quote \<Rightarrow> reference" where
  "from_quote q = \<lparr>rf_at = qt_at q, rf_bid = qt_bid q, rf_ask = qt_ask q,
     rf_last = (case qt_last q of Some x \<Rightarrow> Some x | None \<Rightarrow> qt_mid q), rf_source = ''quote'',
     rf_measured = (qt_bid q \<noteq> None \<and> qt_ask q \<noteq> None)\<rparr>"

definition from_close :: "time \<Rightarrow> rat \<Rightarrow> reference" where \<comment> \<open>\<open>from_bar\<close>\<close>
  "from_close t0 close = \<lparr>rf_at = t0, rf_bid = None, rf_ask = None, rf_last = Some close,
     rf_source = ''bar_close'', rf_measured = False\<rparr>"

record sim_fill =
  sf_price :: rat
  sf_quantity :: rat
  sf_at :: time
  sf_side :: string
  sf_reference_price :: rat
  sf_slippage :: rat
  sf_spread :: rat
  sf_commission :: rat
  sf_measured :: bool
  sf_reference :: reference

text \<open>\<open>book\<close>: bid, ask, and whether they were measured.\<close>

definition venue_book :: "cost_model \<Rightarrow> reference \<Rightarrow> paper_exc + (rat \<times> rat \<times> bool)" where
  "venue_book cm rf = (case (rf_bid rf, rf_ask rf) of
     (Some b, Some a) \<Rightarrow> Inr (b, a, True)
   | _ \<Rightarrow> (case rf_last rf of
       None \<Rightarrow> Inl No_price
     | Some x \<Rightarrow> (let half = ddiv (cm_spread cm) 2 in Inr (dsub x half, dadd x half, False))))"

definition sim_execute ::
    "cost_model \<Rightarrow> string \<Rightarrow> string \<Rightarrow> rat \<Rightarrow> reference \<Rightarrow> rat option \<Rightarrow> int option \<Rightarrow> time option
     \<Rightarrow> paper_exc + sim_fill" where \<comment> \<open>\<open>PaperExecution.fill\<close>\<close>
  "sim_execute cm mode side quantity rf tick digits t0 =
     bindE (assert_paper_execution mode) (\<lambda>_.
     bindE (assertE (side \<in> {''buy'', ''sell''}) (Bad_fill_side side)) (\<lambda>_.
     bindE (assertE (\<not> quantity \<le> 0) (Bad_fill_quantity quantity)) (\<lambda>_.
     bindE (venue_book cm rf) (\<lambda>(bid, ask, known).
     bindE (assertE (\<not> ask < bid) (Inverted_book bid ask)) (\<lambda>_.
     let raw = (if side = ''buy'' then ask else bid);
         raw = (if side = ''buy'' then dadd raw (cm_slippage cm) else dsub raw (cm_slippage cm)) in
     bindE (case tick of None \<Rightarrow> Inr raw
        | Some tk \<Rightarrow> map_sum Bad_price nvalue (normalize_price (Fin raw) (Some (Fin tk)) (map_option (\<lambda>d. Fin (of_int d)) digits)))
       (\<lambda>price. Inr \<lparr>sf_price = price, sf_quantity = quantity,
          sf_at = (case t0 of Some t \<Rightarrow> t | None \<Rightarrow> rf_at rf), sf_side = side,
          sf_reference_price = (case rf_last rf of Some x \<Rightarrow> x | None \<Rightarrow> ddiv (dadd bid ask) 2),
          sf_slippage = cm_slippage cm, sf_spread = dsub ask bid, sf_commission = cm_commission cm,
          sf_measured = known, sf_reference = rf\<rparr>))))))"

section \<open>Orders\<close>

datatype paper_note = Pn_text string | Pn_exc paper_exc | Pn_filled rat

record risk_stamp =
  rk_decision :: risk_decision
  rk_volume :: rat
  rk_at :: time
  rk_not_enforced :: "limit_kind list"

record paper_order =
  po_id :: string
  po_intent :: string
  po_account :: string
  po_symbol :: string
  po_side :: string
  po_quantity :: rat
  po_type :: string
  po_created_at :: time
  po_status :: order_status
  po_requested :: "rat option"
  po_stop :: "rat option"
  po_target :: "rat option"
  po_signal :: "string option"
  po_strategy :: "string option"
  po_bot :: "string option"
  po_submitted_at :: "time option"
  po_filled_at :: "time option"
  po_fill :: "sim_fill option"
  po_reason :: paper_note
  po_risk :: risk_stamp
  po_events :: "(time \<times> order_status \<times> paper_note) list"

datatype paper_oms_exc =
    Illegal_move order_status order_status | Vetoed_approval | Approval_expired | Approval_not_bound
  | Not_paper paper_exc | Not_submitted order_status

definition move_paper :: "order_status \<Rightarrow> paper_note \<Rightarrow> time \<Rightarrow> paper_order \<Rightarrow> paper_oms_exc + paper_order" where
  "move_paper wanted note t0 po =
     (if wanted \<notin> transitions (po_status po) then Inl (Illegal_move (po_status po) wanted)
      else Inr (po\<lparr>po_status := wanted, po_events := po_events po @ [(t0, wanted, note)]\<rparr>))"

record paper_oms =
  om_heap :: "paper_order list"
  om_orders :: "(string \<times> nat) list"
  om_by_intent :: "string \<rightharpoonup> nat"

definition new_oms :: paper_oms where
  "new_oms = \<lparr>om_heap = [], om_orders = [], om_by_intent = Map.empty\<rparr>"

definition order_from :: "'h approval \<Rightarrow> string \<Rightarrow> string \<Rightarrow> string \<Rightarrow> string \<Rightarrow> string option \<Rightarrow> time \<Rightarrow> paper_order" where
  "order_from a oid intent account type bt now = (let p = ap_proposal a in
     \<lparr>po_id = oid, po_intent = intent, po_account = account, po_symbol = pp_symbol p, po_side = pp_side p,
      po_quantity = approved_volume a, po_type = type, po_created_at = now, po_status = Intent,
      po_requested = pp_entry_price p, po_stop = pp_stop_loss p, po_target = pp_take_profit p,
      po_signal = pp_signal_id p, po_strategy = pp_strategy_id p, po_bot = bt, po_submitted_at = None,
      po_filled_at = None, po_fill = None, po_reason = Pn_text [],
      po_risk = \<lparr>rk_decision = decision (ap_verdict a), rk_volume = approved_volume a, rk_at = approved_at a,
        rk_not_enforced = vd_not_enforced (ap_verdict a)\<rparr>,
      po_events = []\<rparr>)"

text \<open>\<open>submit\<close>: the place of the order, whether it is a duplicate, and the manager after it.\<close>

definition paper_submit ::
    "(string \<Rightarrow> 'h) \<Rightarrow> 'h approval \<Rightarrow> string \<Rightarrow> string \<Rightarrow> string \<Rightarrow> string \<Rightarrow> string option \<Rightarrow> time \<Rightarrow> paper_oms
     \<Rightarrow> paper_oms_exc + (nat \<times> bool \<times> paper_oms)" where
  "paper_submit digest a oid intent account type bt now om =
     bindE (assertE (vd_approved (ap_verdict a)) Vetoed_approval) (\<lambda>_.
     bindE (map_sum Not_paper id (assert_paper_execution (pp_mode (ap_proposal a)))) (\<lambda>_.
     bindE (assertE (\<not> expired a now) Approval_expired) (\<lambda>_.
     bindE (assertE (binds_order digest a account type ''paper'') Approval_not_bound) (\<lambda>_.
     case om_by_intent om intent of
       Some r \<Rightarrow> Inr (r, True, om)
     | None \<Rightarrow>
         bindE (move_paper Submitted (Pn_text ''risk approved'') now (order_from a oid intent account type bt now)) (\<lambda>po.
         let r = length (om_heap om) in
         Inr (r, False, om\<lparr>om_heap := om_heap om @ [po\<lparr>po_submitted_at := Some now\<rparr>],
           om_orders := AList.update oid r (om_orders om), om_by_intent := (om_by_intent om)(intent \<mapsto> r)\<rparr>))))))"

definition set_order :: "nat \<Rightarrow> paper_order \<Rightarrow> paper_oms \<Rightarrow> paper_oms" where
  "set_order r po om = om\<lparr>om_heap := (om_heap om)[r := po]\<rparr>"

text \<open>\<open>execute\<close>: the order after it, kept in the manager; a fill that cannot be computed rejects it.\<close>

definition executed_order ::
    "cost_model \<Rightarrow> reference \<Rightarrow> rat option \<Rightarrow> int option \<Rightarrow> time \<Rightarrow> paper_order \<Rightarrow> paper_oms_exc + paper_order" where
  "executed_order cm rf tick digits now po =
     (if po_status po \<noteq> Submitted then Inl (Not_submitted (po_status po)) else
      bindE (move_paper Accepted (Pn_text ''accepted by the paper venue'') now po) (\<lambda>po.
      case sim_execute cm ''paper'' (po_side po) (po_quantity po) rf tick digits (Some now) of
        Inl e \<Rightarrow> bindE (move_paper Rejected (Pn_exc e) now po) (\<lambda>po. Inr (po\<lparr>po_reason := Pn_exc e\<rparr>))
      | Inr f \<Rightarrow> move_paper Filled (Pn_filled (sf_price f)) now (po\<lparr>po_fill := Some f, po_filled_at := Some now\<rparr>)))"

definition paper_execute ::
    "cost_model \<Rightarrow> nat \<Rightarrow> reference \<Rightarrow> rat option \<Rightarrow> int option \<Rightarrow> time \<Rightarrow> paper_oms \<Rightarrow> paper_oms_exc + paper_oms" where
  "paper_execute cm r rf tick digits now om =
     bindE (executed_order cm rf tick digits now (om_heap om ! r)) (\<lambda>po. Inr (set_order r po om))"

definition note_or :: "string \<Rightarrow> string \<Rightarrow> paper_note" where
  "note_or s d = Pn_text (if s = [] then d else s)"

definition paper_reject :: "nat \<Rightarrow> string \<Rightarrow> time \<Rightarrow> paper_oms \<Rightarrow> paper_oms_exc + paper_oms" where
  "paper_reject r why t0 om = bindE (move_paper Rejected (Pn_text (take 200 why)) t0 (om_heap om ! r)) (\<lambda>po.
     Inr (set_order r (po\<lparr>po_reason := Pn_text (take 300 why)\<rparr>) om))"

definition paper_cancel :: "nat \<Rightarrow> string \<Rightarrow> time \<Rightarrow> paper_oms \<Rightarrow> paper_oms_exc + paper_oms" where
  "paper_cancel r why t0 om = bindE (move_paper Cancelled (note_or (take 200 why) ''cancelled'') t0 (om_heap om ! r)) (\<lambda>po.
     Inr (set_order r (po\<lparr>po_reason := note_or (take 300 why) ''cancelled''\<rparr>) om))"

definition paper_mark_unknown :: "nat \<Rightarrow> string \<Rightarrow> time \<Rightarrow> paper_oms \<Rightarrow> paper_oms_exc + paper_oms" where
  "paper_mark_unknown r why t0 om = bindE (move_paper Unknown (Pn_text (take 200 why)) t0 (om_heap om ! r)) (\<lambda>po.
     Inr (set_order r (po\<lparr>po_reason := Pn_text (take 300 why)\<rparr>) om))"

definition paper_open_orders :: "string option \<Rightarrow> paper_oms \<Rightarrow> paper_order list" where
  "paper_open_orders account om = filter (\<lambda>po. po_status po \<in> OPEN \<and> (account = None \<or> po_account po = the account))
     (map (\<lambda>(_, r). om_heap om ! r) (om_orders om))"

definition paper_for_account :: "string \<Rightarrow> paper_oms \<Rightarrow> paper_order list" where
  "paper_for_account account om = filter (\<lambda>po. po_account po = account) (map (\<lambda>(_, r). om_heap om ! r) (om_orders om))"


section \<open>A round trip\<close>

lemma normalize_price_Inr:
  "normalize_price (Fin v) (Some (Fin tk)) d = Inr n \<Longrightarrow> 0 < tk \<and> nvalue n = dmul (of_int (rhe (ddiv v tk))) tk"
  by (auto simp: normalize_price_def bindE_Inr as_decimal_def price_result_def plain_def not_le Let_def)

lemma snapped_mono:
  assumes "0 < tk" "v \<le> w"
  shows "dmul (of_int (rhe (ddiv v tk))) tk \<le> dmul (of_int (rhe (ddiv w tk))) tk"
proof -
  have "ddiv v tk \<le> ddiv w tk" unfolding ddiv_def by (rule dec.div_mono [OF assms])
  then have "rhe (ddiv v tk) \<le> rhe (ddiv w tk)" by (rule rhe_mono)
  then show ?thesis unfolding dmul_def using assms(1) by (intro dec.mul_mono) simp_all
qed

text \<open>The price of a fill, before it is snapped to the tick.\<close>

definition raw_price :: "cost_model \<Rightarrow> string \<Rightarrow> rat \<times> rat \<times> bool \<Rightarrow> rat" where
  "raw_price cm side bk = (case bk of (bid, ask, _) \<Rightarrow>
     if side = ''buy'' then dadd ask (cm_slippage cm) else dsub bid (cm_slippage cm))"

lemma sim_execute_book:
  assumes "sim_execute cm m side q rf tick d t = Inr f"
  shows "\<exists>bid ask k. venue_book cm rf = Inr (bid, ask, k) \<and> bid \<le> ask \<and> (case tick of
      None \<Rightarrow> sf_price f = raw_price cm side (bid, ask, k)
    | Some tk \<Rightarrow> 0 < tk \<and> sf_price f = dmul (of_int (rhe (ddiv (raw_price cm side (bid, ask, k)) tk))) tk)"
proof -
  obtain bk where bk: "venue_book cm rf = Inr bk"
    using assms by (cases "venue_book cm rf") (simp_all add: sim_execute_def bindE_def split: sum.splits)
  obtain bid ask k where b: "bk = (bid, ask, k)" by (cases bk)
  have le: "\<not> ask < bid"
    using assms by (cases "ask < bid") (simp_all add: sim_execute_def bindE_def bk b split: sum.splits)
  show ?thesis
  proof (cases tick)
    case None
    then have "sf_price f = raw_price cm side (bid, ask, k)"
      using assms le by (auto simp: sim_execute_def bk b raw_price_def Let_def bindE_def split: sum.splits if_splits)
    then show ?thesis using bk b le None by auto
  next
    case (Some tk)
    then obtain n where "normalize_price (Fin (raw_price cm side (bid, ask, k))) (Some (Fin tk)) (map_option (\<lambda>d. Fin (of_int d)) d) = Inr n"
      "sf_price f = nvalue n"
      using assms le by (auto simp: sim_execute_def bk b raw_price_def Let_def bindE_def map_sum_def split: sum.splits if_splits)
    then show ?thesis using bk b le Some normalize_price_Inr by auto
  qed
qed

text \<open>C39: a round trip never gains. Two simulated fills against one reference, a buy and a sell, priced with
  one set of costs and one tick: the sell is never dearer than the buy, whether the book was quoted or
  modelled, and although the prices are rounded to the nearest tick, not to the adverse one.\<close>

theorem round_trip_never_gains:
  assumes "sim_execute cm m ''buy'' q rf tick d t = Inr b" "sim_execute cm m' ''sell'' q' rf tick d' t' = Inr s"
    and "0 \<le> cm_slippage cm"
  shows "sf_price s \<le> sf_price b"
proof -
  obtain bid ask k where b: "venue_book cm rf = Inr (bid, ask, k)" "bid \<le> ask"
    and buy: "case tick of None \<Rightarrow> sf_price b = raw_price cm ''buy'' (bid, ask, k)
      | Some tk \<Rightarrow> 0 < tk \<and> sf_price b = dmul (of_int (rhe (ddiv (raw_price cm ''buy'' (bid, ask, k)) tk))) tk"
    using sim_execute_book [OF assms(1)] by blast
  have sell: "case tick of None \<Rightarrow> sf_price s = raw_price cm ''sell'' (bid, ask, k)
      | Some tk \<Rightarrow> 0 < tk \<and> sf_price s = dmul (of_int (rhe (ddiv (raw_price cm ''sell'' (bid, ask, k)) tk))) tk"
    using sim_execute_book [OF assms(2)] b(1) by auto
  have "bid - cm_slippage cm \<le> ask + cm_slippage cm" using b(2) assms(3) by linarith
  then have raw: "raw_price cm ''sell'' (bid, ask, k) \<le> raw_price cm ''buy'' (bid, ask, k)"
    by (simp add: raw_price_def dsub_def dadd_def rnd_mono)
  then show ?thesis using buy sell snapped_mono [OF _ raw] by (cases tick) auto
qed

definition demo_costs :: cost_model where
  "demo_costs = \<lparr>cm_spread = 2, cm_commission = 1, cm_slippage = 1, cm_swap_long = None, cm_swap_short = None\<rparr>"

theorem round_trip_never_gains_witness:
  "\<exists>b s. sim_execute demo_costs ''paper'' ''buy'' 1 (from_close 0 100) (Some 1) None None = Inr b
    \<and> sim_execute demo_costs ''paper'' ''sell'' 1 (from_close 0 100) (Some 1) None None = Inr s
    \<and> sf_price s \<le> sf_price b"
proof -
  have n: "venue_book demo_costs (from_close 0 100) = Inr (99, 101, False)" "assert_paper_execution ''paper'' = Inr Paper_execution_only"
    "dadd 101 1 = 102" "dsub 99 1 = 98"
    "map_sum Bad_price nvalue (normalize_price (Fin 102) (Some (Fin 1)) None) = Inr 102"
    "map_sum Bad_price nvalue (normalize_price (Fin 98) (Some (Fin 1)) None) = Inr 98"
    by code_simp+
  have "cm_slippage demo_costs = 1" by (simp add: demo_costs_def)
  then obtain b s where r: "sim_execute demo_costs ''paper'' ''buy'' 1 (from_close 0 100) (Some 1) None None = Inr b"
    "sim_execute demo_costs ''paper'' ''sell'' 1 (from_close 0 100) (Some 1) None None = Inr s"
    using n by (simp add: sim_execute_def Let_def)
  then show ?thesis using round_trip_never_gains [OF r] by (simp add: demo_costs_def)
qed

section \<open>The orders of the paper venue\<close>

text \<open>Any sequence of calls; one that raises leaves the manager as it was.\<close>

datatype 'h paper_call =
    Call_submit "'h approval" string string string string "string option" time
  | Call_execute cost_model nat reference "rat option" "int option" time
  | Call_reject nat string time | Call_cancel nat string time | Call_mark_unknown nat string time

fun paper_call_result :: "(string \<Rightarrow> 'h) \<Rightarrow> paper_oms \<Rightarrow> 'h paper_call \<Rightarrow> paper_oms_exc + paper_oms" where
  "paper_call_result digest om (Call_submit a oid intent account type bt now) =
     map_sum id (snd \<circ> snd) (paper_submit digest a oid intent account type bt now om)"
| "paper_call_result digest om (Call_execute cm r rf tick digits now) = paper_execute cm r rf tick digits now om"
| "paper_call_result digest om (Call_reject r why now) = paper_reject r why now om"
| "paper_call_result digest om (Call_cancel r why now) = paper_cancel r why now om"
| "paper_call_result digest om (Call_mark_unknown r why now) = paper_mark_unknown r why now om"

fun call_in_heap :: "paper_oms \<Rightarrow> 'h paper_call \<Rightarrow> bool" where \<comment> \<open>a call is made on an order that exists\<close>
  "call_in_heap om (Call_submit _ _ _ _ _ _ _) = True"
| "call_in_heap om (Call_execute _ r _ _ _ _) = (r < length (om_heap om))"
| "call_in_heap om (Call_reject r _ _) = (r < length (om_heap om))"
| "call_in_heap om (Call_cancel r _ _) = (r < length (om_heap om))"
| "call_in_heap om (Call_mark_unknown r _ _) = (r < length (om_heap om))"

definition after_paper_call :: "(string \<Rightarrow> 'h) \<Rightarrow> paper_oms \<Rightarrow> 'h paper_call \<Rightarrow> paper_oms" where
  "after_paper_call digest om c = (if call_in_heap om c then
     (case paper_call_result digest om c of Inl _ \<Rightarrow> om | Inr om' \<Rightarrow> om') else om)"

definition paper_order_ok :: "paper_order \<Rightarrow> bool" where
  "paper_order_ok po \<longleftrightarrow> rk_decision (po_risk po) = Approve \<and> po_quantity po = rk_volume (po_risk po)
     \<and> po_status po \<noteq> Intent
     \<and> (case po_fill po of None \<Rightarrow> po_status po \<noteq> Filled
        | Some f \<Rightarrow> po_status po = Filled \<and> sf_quantity f = po_quantity po \<and> sf_side f = po_side po)"

definition oms_ok :: "paper_oms \<Rightarrow> bool" where
  "oms_ok om \<longleftrightarrow> list_all paper_order_ok (om_heap om) \<and> distinct (map po_intent (om_heap om))
     \<and> (\<forall>i r. om_by_intent om i = Some r \<longleftrightarrow> r < length (om_heap om) \<and> po_intent (om_heap om ! r) = i)"

lemma move_paper_Inr:
  "move_paper w n t po = Inr po' \<longleftrightarrow> w \<in> transitions (po_status po)
     \<and> po' = po\<lparr>po_status := w, po_events := po_events po @ [(t, w, n)]\<rparr>"
  by (auto simp: move_paper_def)

lemma oms_ok_set:
  assumes "oms_ok om" "r < length (om_heap om)" "po_intent po = po_intent (om_heap om ! r)" "paper_order_ok po"
  shows "oms_ok (set_order r po om)"
proof -
  have "map po_intent ((om_heap om)[r := po]) = map po_intent (om_heap om)"
    using assms(2,3) by (simp add: map_update list_update_same_conv)
  moreover have "list_all paper_order_ok ((om_heap om)[r := po])"
    using assms(1,4) set_update_subset_insert [of "om_heap om" r po] by (auto simp: oms_ok_def list_all_iff)
  moreover have "po_intent ((om_heap om)[r := po] ! i) = po_intent (om_heap om ! i)" if "i < length (om_heap om)" for i
    using that assms(3) by (cases "i = r") auto
  ultimately show ?thesis using assms(1) by (fastforce simp: oms_ok_def set_order_def)
qed

lemma sim_execute_Inr: "sim_execute cm m sd q rf tick d t = Inr f \<Longrightarrow> sf_quantity f = q \<and> sf_side f = sd"
  by (auto simp: sim_execute_def bindE_Inr Let_def)

lemma no_filled_moves: "w \<in> transitions s \<Longrightarrow> s \<noteq> Filled"
  by auto

lemma moved_ok:
  assumes "paper_order_ok po" "w \<in> transitions (po_status po)" "w \<notin> {Filled, Intent}" "po_fill po' = po_fill po"
    "po_status po' = w" "po_risk po' = po_risk po" "po_quantity po' = po_quantity po"
  shows "paper_order_ok po'"
  using assms no_filled_moves [OF assms(2)] by (auto simp: paper_order_ok_def split: option.splits)

lemma executed_ok:
  assumes "paper_order_ok po" "executed_order cm rf tick d now po = Inr po'"
  shows "paper_order_ok po' \<and> po_intent po' = po_intent po"
proof -
  obtain p1 where p1: "move_paper Accepted (Pn_text ''accepted by the paper venue'') now po = Inr p1"
    using assms(2) by (auto simp: executed_order_def bindE_Inr split: if_splits)
  then have ok: "paper_order_ok p1" "po_intent p1 = po_intent po" "po_status p1 = Accepted"
    using moved_ok [OF assms(1), of Accepted p1] by (auto simp: move_paper_Inr)
  then have nf: "po_fill p1 = None" by (auto simp: paper_order_ok_def split: option.splits)
  show ?thesis
  proof (cases "sim_execute cm ''paper'' (po_side p1) (po_quantity p1) rf tick d (Some now)")
    case (Inl e)
    then have "\<exists>p2. move_paper Rejected (Pn_exc e) now p1 = Inr p2 \<and> po' = p2\<lparr>po_reason := Pn_exc e\<rparr>"
      using assms(2) p1 by (auto simp: executed_order_def bindE_Inr split: if_splits)
    then show ?thesis using moved_ok [OF ok(1), of Rejected po'] ok(2) by (auto simp: move_paper_Inr)
  next
    case (Inr f)
    then have "bindE (Inr p1) (\<lambda>po. case sim_execute cm ''paper'' (po_side po) (po_quantity po) rf tick d (Some now) of
        Inl e \<Rightarrow> bindE (move_paper Rejected (Pn_exc e) now po) (\<lambda>po. Inr (po\<lparr>po_reason := Pn_exc e\<rparr>))
      | Inr f \<Rightarrow> move_paper Filled (Pn_filled (sf_price f)) now (po\<lparr>po_fill := Some f, po_filled_at := Some now\<rparr>)) = Inr po'"
      using assms(2) p1 by (simp add: executed_order_def split: if_splits)
    then have "po' = (p1\<lparr>po_fill := Some f, po_filled_at := Some now\<rparr>)\<lparr>po_status := Filled,
        po_events := po_events p1 @ [(now, Filled, Pn_filled (sf_price f))]\<rparr>"
      using Inr by (simp add: move_paper_Inr)
    then show ?thesis using ok sim_execute_Inr [OF Inr] by (auto simp: paper_order_ok_def split: option.splits)
  qed
qed

lemma submit_ok:
  assumes "oms_ok om" "paper_submit digest a oid intent account type bt now om = Inr (r, dup, om')"
  shows "oms_ok om'"
proof (cases "om_by_intent om intent")
  case (Some r0)
  then show ?thesis using assms by (auto simp: paper_submit_def bindE_Inr)
next
  case None
  have ap: "vd_approved (ap_verdict a)" using assms(2) by (auto simp: paper_submit_def bindE_Inr)
  let ?po = "(order_from a oid intent account type bt now)\<lparr>po_status := Submitted,
     po_events := [(now, Submitted, Pn_text ''risk approved'')], po_submitted_at := Some now\<rparr>"
  have om': "om_heap om' = om_heap om @ [?po]" "om_by_intent om' = (om_by_intent om)(intent \<mapsto> length (om_heap om))"
    using assms(2) None by (auto simp: paper_submit_def bindE_Inr move_paper_Inr Let_def order_from_def)
  have ok: "paper_order_ok ?po" "po_intent ?po = intent"
    using ap by (simp_all add: paper_order_ok_def order_from_def Let_def vd_approved_def)
  have new: "intent \<notin> set (map po_intent (om_heap om))"
  proof
    assume "intent \<in> set (map po_intent (om_heap om))"
    then obtain i where "i < length (om_heap om)" "po_intent (om_heap om ! i) = intent" by (auto simp: in_set_conv_nth)
    then have "om_by_intent om intent = Some i" using assms(1) unfolding oms_ok_def by blast
    then show False using None by simp
  qed
  have "om_by_intent om' i = Some j \<longleftrightarrow> j < length (om_heap om') \<and> po_intent (om_heap om' ! j) = i" for i j
  proof (cases "j < length (om_heap om)")
    case True
    then have "po_intent (om_heap om ! j) \<noteq> intent" using new by auto
    then show ?thesis using assms(1) True unfolding om' by (auto simp: oms_ok_def nth_append)
  next
    case False
    then have "om_by_intent om i \<noteq> Some j" for i using assms(1) by (auto simp: oms_ok_def)
    then show ?thesis using False ok(2) unfolding om' by (auto simp: nth_append less_Suc_eq)
  qed
  then show ?thesis using assms(1) ok new by (auto simp: oms_ok_def om')
qed

lemma paper_call_ok:
  assumes "oms_ok om"
  shows "oms_ok (after_paper_call digest om c)"
proof -
  have at: "paper_order_ok (om_heap om ! r)" if "r < length (om_heap om)" for r
    using assms that by (auto simp: oms_ok_def list_all_length)
  have settle: "oms_ok om'" if "r < length (om_heap om)" "w \<notin> {Filled, Intent}"
      "bindE (move_paper w n t (om_heap om ! r)) (\<lambda>po. Inr (set_order r (po\<lparr>po_reason := x\<rparr>) om)) = Inr om'" for r w n t x om'
    using that at [OF that(1)] by (auto simp: bindE_Inr move_paper_Inr intro!: oms_ok_set [OF assms] moved_ok [of "om_heap om ! r"])
  show ?thesis
  proof (cases c)
    case (Call_submit a oid intent account type bt now)
    then show ?thesis using submit_ok [OF assms] assms
      by (auto simp: after_paper_call_def map_sum_def split: sum.splits)
  next
    case (Call_execute cm r rf tick digits now)
    then show ?thesis using assms at executed_ok
      by (fastforce simp: after_paper_call_def paper_execute_def bindE_Inr split: sum.splits intro: oms_ok_set)
  next
    case (Call_reject r why now)
    then show ?thesis using assms settle [of r Rejected]
      by (auto simp: after_paper_call_def paper_reject_def split: sum.splits)
  next
    case (Call_cancel r why now)
    then show ?thesis using assms settle [of r Cancelled]
      by (auto simp: after_paper_call_def paper_cancel_def split: sum.splits)
  next
    case (Call_mark_unknown r why now)
    then show ?thesis using assms settle [of r Unknown]
      by (auto simp: after_paper_call_def paper_mark_unknown_def split: sum.splits)
  qed
qed

text \<open>C40: the orders of the paper venue. Over any sequence of calls, refused ones included, no intent has two
  orders; every order carries an approving decision of the risk engine and its approved volume; and an
  order has a fill exactly when it is filled, of its own side and whole size.\<close>

theorem paper_orders_sound:
  "distinct (map po_intent (om_heap (foldl (after_paper_call digest) new_oms cs)))
   \<and> list_all paper_order_ok (om_heap (foldl (after_paper_call digest) new_oms cs))"
proof -
  have "oms_ok (foldl (after_paper_call digest) new_oms cs)"
    by (induction cs rule: rev_induct) (simp_all add: paper_call_ok, simp add: oms_ok_def new_oms_def)
  then show ?thesis by (simp add: oms_ok_def)
qed

end
