(* ===== verification/Spec2Isabelle.thy ===== *)
theory Spec2Isabelle
  imports Sizing Oms_Props Built_Props Position_Exits Broker_Exit Risk_Service_Props Paper_Venue
begin

text \<open>
  Verification library for the order path of the trading platform (\<open>backend/app\<close>), from the
  decision to trade to the closed position.

  \<^bold>\<open>The program.\<close> A strategy, entered by a user as a tree of conditions, is evaluated on closed
  candles and gives a signal. The sizing engine turns a budget of risk into a volume the venue can
  trade. The risk engine checks the proposal against limits, locks and kill switches and, when all of
  them pass, grants an approval bound by a digest to one exact order. The order manager creates the
  order from the approval, sends it at most once, and follows it through a state machine by what the
  venue reports; an answer it cannot read is parked until a reconciliation asks the venue. A
  confirmed fill becomes a position row. The position manager watches the open rows, moves their
  stops, decides exits by policy and has an executor close them, at a venue through the same risk
  engine and order manager. A paper account takes the place of the venue in simulation.

  \<^bold>\<open>The theories and the code.\<close> Each theory models the files it names under \<open>backend/app\<close>, a
  definition for each function and a record or datatype for each class, under the names of the code.

  \<^item> \<open>Prelude\<close>: the collections and the generic lemmas. \<open>Decimals\<close>: \<open>decimal.Decimal\<close> in its
    default context, 28 digits rounded half to even, \<open>quantize\<close> and the rounding modes; its laws are
    the locale \<open>rounding\<close>, interpreted on \<open>rnd\<close>, and all money computations rest on them.
  \<^item> \<open>Precision\<close> (\<open>symbols/precision.py\<close>) and \<open>Sizing\<close> (\<open>sizing/calculator.py\<close>): the step grid,
    the normalization of prices and volumes, and the volume a risk budget allows.
  \<^item> \<open>Order_State\<close>, \<open>Fills\<close>, \<open>Managed_Order\<close> (\<open>oms/state.py\<close>, \<open>fills.py\<close>, \<open>order.py\<close>): the twelve
    states with their legal moves, the fill book, and the order with its log.
  \<^item> \<open>Risk_Checks\<close>, \<open>Risk_Engine\<close> (\<open>risk/engine.py\<close>, \<open>decision.py\<close>): the checks section by section,
    the two approving functions, the kill switches, the approval and its digest.
  \<^item> \<open>Risk_State\<close> (\<open>risk/state.py\<close>): the locks of an account. \<open>Risk_Config\<close>, \<open>Risk_Config_Props\<close>
    (\<open>risk/config.py\<close>): the layers of limits and their stored form. \<open>Risk_Service\<close>,
    \<open>Risk_Service_Props\<close> (\<open>risk/service.py\<close>, \<open>models/risk.py\<close>): the evaluation with its
    reservations and its two tables, which fails closed.
  \<^item> \<open>Broker\<close> (\<open>brokers/base.py\<close>, \<open>validation.py\<close>): the vocabulary of the venue and the validation of
    a request. \<open>Oms\<close> (\<open>oms/service.py\<close>, \<open>events.py\<close>): the order manager; \<open>Oms_Laws\<close>,
    \<open>Oms_Manager\<close>, \<open>Oms_Props\<close>: what its operations keep, its runs, and its properties.
  \<^item> \<open>Strategy_Definition\<close>, \<open>Strategy_Roundtrip\<close> (\<open>strategies/definition.py\<close>, \<open>indicators.py\<close>): the
    parser of a strategy and its written form. \<open>Built_Strategy\<close>, \<open>Built_Causal\<close>, \<open>Built_Props\<close>
    (\<open>strategies/built.py\<close>, \<open>base.py\<close> and the indicator series of \<open>tools/\<close>): the interpreter.
  \<^item> \<open>Exit_Policies\<close> (\<open>positions/policies.py\<close>), \<open>Position_Manager\<close> (\<open>positions/manager.py\<close>,
    \<open>executor.py\<close>, \<open>events.py\<close>, \<open>monitor.py\<close> and the close handler), \<open>Position_Props\<close>,
    \<open>Position_Exits\<close>: the exits and the manager that carries them out. \<open>Position_Ingest\<close>
    (\<open>positions/ingest.py\<close>, \<open>reconciler.py\<close>, \<open>brokers/reconcile.py\<close>): where rows come from and how
    they are settled. \<open>Broker_Exit\<close> (\<open>positions/broker_executor.py\<close>, \<open>oms/registry.py\<close>): the close
    at a venue, a composition of the position manager, the risk engine and the order manager.
  \<^item> \<open>Paper_Portfolio\<close> (\<open>paper/portfolio.py\<close>), \<open>Paper_Venue\<close> (\<open>paper/router.py\<close>, \<open>execution.py\<close>,
    \<open>oms.py\<close>): the simulated account, its fills, and its orders.

  This theory holds what spans risk, sizing and orders.

  \<^bold>\<open>State and effects.\<close> A mutable object that several structures share is a place of a heap (the
  orders of the two order managers); every other object is a record that is returned updated. An
  operation that may raise returns the exception or its value, together with the state as it then
  is, so what was written before an exception is kept; a session of the database is rolled back on
  one. An answer of the venue, of the clock, of a uuid or of SHA-256 is a parameter: the theorems
  hold for every adapter, whatever it answers, and the ones that compare digests ask for one without
  collisions. Dictionaries are maps, or association lists where the order of insertion matters.

  \<^bold>\<open>Interfaces.\<close> A locale states a contract once, and each is interpreted on the model:
  \<open>rounding\<close> (a rounding to representable numbers: monotone, odd, exact on them, and they are closed under it);
  \<open>causal_series\<close> (an indicator that does not look ahead and is warmed up in time; four indicators);
  \<open>venue_safe\<close> (a relation between order managers that moving, filling and rewriting an order keep:
  histories only grow along legal moves, the registers are not rewritten) and its extension \<open>send_safe\<close>
  to the calls that send (what was sent is remembered, the mode stays);
  \<open>row_contract\<close> (a relation on a position row lifted to sweeps, to operator closes and to any run of
  them: stops tighten, sizes are conserved, parked rows are left alone); \<open>kept\<close> and \<open>ignores_locks\<close>
  (what every step of the risk service keeps: the budget of reservations, the audit trail).

  \<^bold>\<open>What the lemmas show.\<close> No order is sent without an approval that covers exactly it, and none
  twice; an answer that is not known is never taken for permission, for a fill or for a cancel; the
  volume is within the budget and tradable; fills add up to the order and sizes to the position;
  stops only tighten; an evaluation that fails refuses; locks latch and survive a restart; the
  outstanding approvals share one limit; a strategy that was accepted runs, is read back as it was,
  and never sees a later bar; a paper account's book stays sound, and a simulated round trip at an
  unchanged price is never a gain. The runs of the order manager hold every operation, \<open>resume\<close> with
  any orders past \<open>intent\<close> included; \<open>load_unresolved\<close> reads back no others.

  \<^bold>\<open>Where the code differs from what it says.\<close> Some theorems state a defect as the code has it:
  \<open>daily_lock_washes_out\<close> (a daily lock displaces a lock that only a person may release, and is itself
  released when the day turns), \<open>weekly_limit_is_lost\<close> (a stored weekly limit is read back as a text,
  on which an evaluation raises), \<open>opening_cost_not_in_the_day\<close> and \<open>round_trip_cost_is_halved\<close> (the
  commission of an opening fill is not in the result of the day), \<open>late_fill_half_applied\<close> (a fill
  reported for an order that has ended raises and stays in its book). The currency exposure and the
  cooldown pass an order when their figure is missing; every other limit refuses it.

  \<^bold>\<open>Termination.\<close> Recursion is structural, or has a measure: the digits of a number (the number),
  the parser of a strategy (the levels left up to the limit of the code, so a tree that is too deep
  is a refusal), the collapse of separators in a key (the length). Fuel stands in two places and is
  sufficient: the digits of an integer (as many steps as the number and one, more than its digits) and
  the places of a decimal fraction (four times the digits of the denominator; a terminating fraction
  has no more places). No loop of the modelled code can run forever.

  \<^bold>\<open>Idealisations.\<close> A finite Decimal is its value, with its exponent kept only where the code reads
  it; the limits of the exponent and the sign of zero are left out, and so are NaN and infinities,
  which the code refuses on entry in most places. Floats are a parameter with an arithmetic of its
  own in the strategies, and seconds of a time difference are exact in the risk checks. Times are
  integers of microseconds. Texts are of Latin-1 characters; the wording of messages is replaced by
  constructors or parts that carry the figures. A flush that fails is a list of outcomes. The lock of
  an account makes one evaluation one step; the clock is read once in it. The symbol table is the
  same throughout the life of a manager.

  \<^bold>\<open>Not modelled.\<close> The HTTP handlers, tables and sessions, authentication, logging and settings, the
  adapters of the venues, the background workers, the supervisor of bots, the engine and service that
  drive a paper account bar by bar, the portfolio advice, the live gate (the order manager refuses
  live orders on its own), recovery reports, backtests, machine learning, reporting and notifications:
  they are input and output, call what is modelled, or place no order.
\<close>

section \<open>From a risk decision to an order\<close>

text \<open>C11: an order is what risk approved. If an approval that the risk engine granted becomes an
  order, every check had passed and no kill switch was engaged; the order is for the approved
  account, symbol, side, volume and stop, it is a market order in the mode risk evaluated,
  which is paper or demo and is the manager's own, and it was created within a minute of the
  decision.\<close>

theorem order_is_what_risk_approved:
  assumes "approve digest did li ks recent p pf t0 = (Some a, v)"
    and "create digest a ca new_id now st = (Inr (r, False), st')"
    and "inj digest" "CHR ''|'' \<notin> set (ca_account_id ca)"
    and "\<forall>s. pp_account_id p = Some s \<longrightarrow> CHR ''|'' \<notin> set s"
  shows "(let ord = heap st' ! r in
      symbol ord = pp_symbol p \<and> side ord = pp_side p \<and> pp_volume p = Some (quantity ord) \<and> 0 < quantity ord
    \<and> stop_loss ord = pp_stop_loss p \<and> take_profit ord = pp_take_profit p
    \<and> account_id ord = (case pp_account_id p of Some s \<Rightarrow> s | None \<Rightarrow> [])
    \<and> order_type ord = ''market'' \<and> order_mode ord = pp_mode p \<and> order_mode ord \<in> {''paper'', ''demo''}
    \<and> order_mode ord = mgr_mode st \<and> status ord = Intent \<and> transition_log ord = [])
    \<and> now \<le> t0 + secs 60 \<and> engaged_for ks (pp_account_id p) (pp_strategy_id p) = None
    \<and> (\<forall>c \<in> set (checks recent li p (portfolio_of pf) t0). passed c)"
proof -
  note ap = approve_Some [OF assms(1)]
  have c: "creatable digest a ca now st"
    using create_kept [of digest a ca now st new_id] assms(2) by fastforce
  have pr: "ap_proposal a = p" using ap(2,6) by (simp add: ap_proposal_def)
  have ex: "ap_expires_at a = Some (t0 + secs 60)"
    by (subst ap(5)) (simp add: grant_def ap(2) APPROVAL_TTL_SECONDS_def)
  have h: "heap st' ! r = order_of st a ca new_id now"
    using assms(2) enrol_core [of "order_of st a ca new_id now" st]
    unfolding create_new [OF c] by (auto simp: same_core_def register_def Let_def)
  have ot: "CHR ''|'' \<notin> set (ca_order_type ca)" using c by (auto simp: creatable_def)
  have "ca_account_id ca = (case pp_account_id p of Some s \<Rightarrow> s | None \<Rightarrow> []) \<and> ca_order_type ca = ''market''
      \<and> mgr_mode st = pp_mode p"
    using binds_order_exact [OF assms(1,3,4) ot assms(5)] c by (simp add: creatable_def)
  moreover have "pp_mode p \<in> {''paper'', ''demo''}"
    using ap(3) in_checks_trading_mode [of p recent li "portfolio_of pf" t0] by (metis mk_sel(6))
  ultimately show ?thesis
    using ap(1,3,4) c ex unfolding h
    by (simp add: order_of_def Let_def pr creatable_def expired_def)
qed

definition acct_args :: create_args where
  "acct_args = demo_args\<lparr>ca_account_id := ''acct''\<rparr>"

lemma demo_creatable:
  assumes "approve id ''d1'' default_limits no_switches [] demo_proposal None 0 = (Some a, v)"
  shows "creatable id a acct_args 1 (new_manager ''paper'' None 300)"
proof -
  note ap = approve_Some [OF assms]
  have pr: "ap_proposal a = demo_proposal" using ap(2,6) by (simp add: ap_proposal_def)
  have ex: "\<not> expired a 1"
    by (subst ap(5)) (simp add: grant_def ap(2) APPROVAL_TTL_SECONDS_def expired_def secs_def)
  have "binds_order id a ''acct'' ''market'' ''paper''"
    using binds_order_exact [OF assms, of "''acct''" "''market''" "''paper''"] by (simp add: demo_proposal_def)
  moreover have "vd_approved (ap_verdict a)"
    using assms ap(2,6) by (auto simp: approve_def Let_def split: if_splits)
  ultimately show ?thesis using ap(4) ex
    by (simp add: creatable_def pr acct_args_def demo_args_def new_manager_def demo_proposal_def)
qed

theorem order_is_what_risk_approved_witness:
  "\<exists>a v st'. approve id ''d1'' default_limits no_switches [] demo_proposal None 0 = (Some a, v)
    \<and> create id a acct_args ''o1'' 1 (new_manager ''paper'' None 300) = (Inr (0, False), st')
    \<and> quantity (heap st' ! 0) = 1 \<and> order_mode (heap st' ! 0) = ''paper'' \<and> symbol (heap st' ! 0) = ''EURUSD''"
proof -
  obtain a v where a: "approve id ''d1'' default_limits no_switches [] demo_proposal None 0 = (Some a, v)"
    using demo_approved by blast
  obtain st' where c: "create id a acct_args ''o1'' 1 (new_manager ''paper'' None 300) = (Inr (0, False), st')"
    using create_new [OF demo_creatable [OF a], of "''o1''"] by (simp add: new_manager_def)
  have "quantity (heap st' ! 0) = 1 \<and> order_mode (heap st' ! 0) = ''paper'' \<and> symbol (heap st' ! 0) = ''EURUSD''"
    using order_is_what_risk_approved [OF a c] by (simp add: Let_def acct_args_def demo_args_def demo_proposal_def)
  then show ?thesis using a c by blast
qed

section \<open>From a size to the venue\<close>

text \<open>C12: a sized order passes the venue's own check. When the venue's terms for a symbol are the
  usable ones the engine sized with, a request for the sized volume, with a known side and
  positive levels, has no problem.\<close>

theorem sized_order_is_valid:
  assumes "calculate rq = Inr res" "sz_volume res = Some v" "spec_ok (sq_spec rq)"
    and "volume_min info = Some (minimum_volume (sq_spec rq))"
    and "volume_max info = Some (maximum_volume (sq_spec rq))"
    and "si_volume_step info = Some (volume_step (sq_spec rq))"
    and "rq_volume req = v" "rq_side req \<in> {''buy'', ''sell''}"
    and "\<forall>l. rq_stop_loss req = Some l \<or> rq_take_profit req = Some l \<longrightarrow> 0 < l"
  shows "vr_problems (validate_order req (Some info) None) = []"
proof -
  let ?sp = "sq_spec rq"
  obtain m where m: "v = of_int m * volume_step ?sp" "minimum_volume ?sp \<le> v" "v \<le> maximum_volume ?sp"
    using sized_volume_on_grid [OF assms(1-3)] by blast
  have "0 < minimum_volume ?sp"
  proof -
    obtain b j where "volume_step ?sp = of_int b / 10 ^ 8" "0 < b"
      "minimum_volume ?sp = of_int j * volume_step ?sp" "1 \<le> j"
      using assms(3) unfolding spec_ok_def by blast
    then show ?thesis by simp
  qed
  then have v: "0 < v" using m(2) by linarith
  have "is_step_multiple v (volume_step ?sp)" by (rule whole_steps_multiple [OF assms(3) v m(3,1)])
  then have "vr_ok (validate_order req (Some info) None)"
    unfolding validate_order_ok_iff using assms(4-9) m(2,3) v by auto
  then show ?thesis by (simp add: validate_order_def Let_def)
qed

definition eurusd_info :: symbol_info where
  "eurusd_info = \<lparr>si_symbol = ''EURUSD'', si_digits = 5, si_point = 1/100000, si_contract_size = Some 100000,
     si_tick_size = Some (1/100000), si_tick_value = Some 1, volume_min = Some (1/100), volume_max = Some 50,
     si_volume_step = Some (1/100)\<rparr>"

theorem sized_order_is_valid_witness:
  "vr_problems (validate_order \<lparr>rq_symbol = ''EURUSD'', rq_side = ''buy'', rq_volume = 1/4,
     rq_stop_loss = Some (21/20), rq_take_profit = None, rq_comment = [], rq_magic = None,
     rq_intent_id = ''i1''\<rparr> (Some eurusd_info) None) = []"
proof -
  obtain r where r: "calculate base_request = Inr r" "sz_volume r = Some (1/4)" using demo_sized by blast
  have "sq_spec base_request = eurusd" by (simp add: base_request_def)
  then show ?thesis
    by (intro sized_order_is_valid [OF r]) (simp_all add: eurusd_ok, simp_all add: eurusd_def eurusd_info_def)
qed

end
